theory Spec2Isabelle
  imports Complex_Main "HOL-Library.Log_Nat"
begin

section \<open>Numbers and currency rounding\<close>

text \<open>
  A JavaScript number is an IEEE-754 double. A finite double is modelled as the rational
  it denotes, and an arithmetic operation of the limit model, of the accrual and of the
  budget view as the exact operation followed by \<open>fl\<close>, the rounding to the nearest
  double: 53 significant bits, a tie going to the even significand. \<open>ilog2 a\<close> is the
  binary exponent of a positive rational, \<open>2 ^ ilog2 a \<le> a < 2 ^ (ilog2 a + 1)\<close>, and
  \<open>rne\<close> rounds to the nearest integer, a tie going to the even one. Overflow to
  \<open>Infinity\<close> and the subnormal range are not modelled: amounts of money are far from
  both. The sums that the database computes inside an aggregation pipeline (\<open>$sum\<close>)
  and the additions of the cash-flow report are kept exact.
\<close>

definition ilog2 :: "rat \<Rightarrow> int" where
  "ilog2 a = (if 1 \<le> a then bitlen \<lfloor>a\<rfloor> - 1 else - bitlen (\<lceil>1 / a\<rceil> - 1))"

definition rne :: "rat \<Rightarrow> int" where
  "rne y =
     (let f = \<lfloor>y\<rfloor>; r = y - of_int f
      in if r < 1 / 2 then f
         else if 1 / 2 < r then f + 1
         else if even f then f else f + 1)"

definition fl :: "rat \<Rightarrow> rat" where
  "fl x =
     (if x = 0 then 0
      else sgn x * of_int (rne (\<bar>x\<bar> / 2 powi (ilog2 \<bar>x\<bar> - 52))) * 2 powi (ilog2 \<bar>x\<bar> - 52))"

text \<open>The unit in the last place of the double nearest to \<open>x\<close>.\<close>

definition ulp :: "rat \<Rightarrow> rat" where
  "ulp x = 2 powi (ilog2 \<bar>x\<bar> - 52)"

text \<open>
  The schemas of \<open>Limit.js\<close> and \<open>Transaction.js\<close> attach the same getter and setter to
  every monetary field: \<^verbatim>\<open>v => Math.round(v * 100) / 100\<close>. \<open>Math.round\<close> returns the
  nearest integer, a half going towards plus infinity; the product and the quotient are
  rounded to doubles. The argument is read as the double nearest to it, which is what
  parsing a number of a request body gives. \<open>centavos\<close> is the integer that
  \<open>Math.round\<close> returns, and \<open>cents n\<close> the double that stands for \<open>n\<close> hundredths.
\<close>

definition math_round :: "rat \<Rightarrow> int" where
  "math_round v = \<lfloor>v + 1 / 2\<rfloor>"

definition centavos :: "rat \<Rightarrow> int" where
  "centavos v = math_round (fl (fl v * 100))"

definition cents :: "int \<Rightarrow> rat" where
  "cents n = fl (of_int n / 100)"

definition round2 :: "rat \<Rightarrow> rat" where
  "round2 v = fl (of_int (centavos v) / 100)"

text \<open>
  The result of a JavaScript division is not always finite: a zero divisor gives
  \<open>Infinity\<close>, \<open>-Infinity\<close> or \<open>NaN\<close>. The virtual \<open>percentualUsado\<close> is the one place
  of the limit engine that divides by a stored field, so its arithmetic is modelled on
  this extended type.
\<close>

datatype jsnum = Fin rat | PosInf | NegInf | NaN

fun js_div :: "rat \<Rightarrow> rat \<Rightarrow> jsnum" where
  "js_div a b =
     (if b \<noteq> 0 then Fin (fl (a / b))
      else if 0 < a then PosInf
      else if a < 0 then NegInf
      else NaN)"

fun js_times :: "jsnum \<Rightarrow> rat \<Rightarrow> jsnum" where
  "js_times (Fin q) c = Fin (fl (q * c))"
| "js_times PosInf c = (if 0 < c then PosInf else if c < 0 then NegInf else NaN)"
| "js_times NegInf c = (if 0 < c then NegInf else if c < 0 then PosInf else NaN)"
| "js_times NaN c = NaN"

fun js_min :: "jsnum \<Rightarrow> rat \<Rightarrow> jsnum" where
  "js_min (Fin q) c = Fin (min q c)"
| "js_min PosInf c = Fin c"
| "js_min NegInf c = NegInf"
| "js_min NaN c = NaN"

fun js_ge :: "jsnum \<Rightarrow> rat \<Rightarrow> bool" where
  "js_ge (Fin q) c = (c \<le> q)"
| "js_ge PosInf c = True"
| "js_ge NegInf c = False"
| "js_ge NaN c = False"

section \<open>Dates\<close>

text \<open>
  A \<open>Date\<close> is kept as its calendar fields (month index 0 to 11, as \<open>getMonth\<close> returns
  it) and the milliseconds within the day, in a time zone without daylight saving.
  \<open>normalise\<close> is the carry that \<open>new Date(y, m, d, ...)\<close>, \<open>setDate\<close>, \<open>setMonth\<close> and
  \<open>setFullYear\<close> apply when a month or a day-of-month is out of range.
\<close>

record js_date =
  d_year :: int
  d_month :: int
  d_day :: int
  d_ms :: int

definition is_leap :: "int \<Rightarrow> bool" where
  "is_leap y = ((y mod 4 = 0 \<and> y mod 100 \<noteq> 0) \<or> y mod 400 = 0)"

definition days_in_month :: "int \<Rightarrow> int \<Rightarrow> int" where
  "days_in_month y m =
     (if m = 1 then (if is_leap y then 29 else 28)
      else if m = 3 \<or> m = 5 \<or> m = 8 \<or> m = 10 then 30
      else 31)"

function normalise :: "int \<Rightarrow> int \<Rightarrow> int \<Rightarrow> int \<times> int \<times> int" where
  "normalise y m d =
     (if m < 0 \<or> 11 < m then normalise (y + m div 12) (m mod 12) d
      else if d < 1 then
        (if m = 0 then normalise (y - 1) 11 (d + 31)
         else normalise y (m - 1) (d + days_in_month y (m - 1)))
      else if days_in_month y m < d then
        (if m = 11 then normalise (y + 1) 0 (d - 31)
         else normalise y (m + 1) (d - days_in_month y m))
      else (y, m, d))"
  by pat_completeness auto
termination
  by (relation "measure (\<lambda>(y, m, d).
        (if m < 0 \<or> 11 < m then 1 else 0) + (if d < 1 then nat (63 - d) else nat d))")
     (auto simp: days_in_month_def)

declare normalise.simps [simp del]

definition make_date :: "int \<Rightarrow> int \<Rightarrow> int \<Rightarrow> int \<Rightarrow> js_date" where
  "make_date y m d ms =
     (case normalise y m d of
        (y', m', d') \<Rightarrow> \<lparr>d_year = y', d_month = m', d_day = d', d_ms = ms\<rparr>)"

text \<open>\<^verbatim>\<open>new Date(y, m, d, h, mi, s)\<close> with the time fields in range.\<close>

definition new_Date :: "int \<Rightarrow> int \<Rightarrow> int \<Rightarrow> int \<Rightarrow> int \<Rightarrow> int \<Rightarrow> js_date" where
  "new_Date y m d h mi s = make_date y m d (((h * 60 + mi) * 60 + s) * 1000)"

definition setDate :: "js_date \<Rightarrow> int \<Rightarrow> js_date" where
  "setDate t d = make_date (d_year t) (d_month t) d (d_ms t)"

definition setMonth :: "js_date \<Rightarrow> int \<Rightarrow> js_date" where
  "setMonth t m = make_date (d_year t) m (d_day t) (d_ms t)"

definition setFullYear :: "js_date \<Rightarrow> int \<Rightarrow> js_date" where
  "setFullYear t y = make_date y (d_month t) (d_day t) (d_ms t)"

definition valid_date :: "js_date \<Rightarrow> bool" where
  "valid_date t =
     (0 \<le> d_month t \<and> d_month t \<le> 11 \<and> 1 \<le> d_day t
      \<and> d_day t \<le> days_in_month (d_year t) (d_month t)
      \<and> 0 \<le> d_ms t \<and> d_ms t < 86400000)"

text \<open>
  The time value of a date: days since 1 January 1970 times the milliseconds of a day,
  plus the time within the day. Dates are compared (\<open>$gte\<close>, \<open>$lte\<close>, \<open><=\<close>) by it.
\<close>

definition days_before_year :: "int \<Rightarrow> int" where
  "days_before_year y = 365 * y + (y + 3) div 4 - (y + 99) div 100 + (y + 399) div 400"

fun days_before_month :: "int \<Rightarrow> nat \<Rightarrow> int" where
  "days_before_month y 0 = 0"
| "days_before_month y (Suc k) = days_before_month y k + days_in_month y (int k)"

definition day_number :: "int \<Rightarrow> int \<Rightarrow> int \<Rightarrow> int" where
  "day_number y m d = days_before_year y + days_before_month y (nat m) + d - 1 - 719528"

definition time_value :: "js_date \<Rightarrow> int" where
  "time_value t = day_number (d_year t) (d_month t) (d_day t) * 86400000 + d_ms t"

definition date_le :: "js_date \<Rightarrow> js_date \<Rightarrow> bool" where
  "date_le a b = (time_value a \<le> time_value b)"

section \<open>The limit model (\<open>src/models/Limit.js\<close>)\<close>

type_synonym objectId = string

datatype limit_tipo = Categoria | Cartao | Geral | Periodo

datatype periodo = Diario | Semanal | Mensal | Anual

record limit =
  limit_id :: objectId
  limit_user :: objectId
  limit_nome :: "string option"
  limit_tipo :: limit_tipo
  valorLimite :: rat
  valorGasto :: rat
  limit_periodo :: periodo
  limit_categoria :: "objectId option"
  limit_categoriaId :: "objectId option"
  limit_cartao :: "objectId option"
  limit_cartaoId :: "objectId option"
  limit_ativo :: bool
  ultimoReset :: js_date
  proximoReset :: "js_date option"

text \<open>Reading a monetary field of a document goes through the schema getter.\<close>

definition get_valorLimite :: "limit \<Rightarrow> rat" where
  "get_valorLimite l = round2 (valorLimite l)"

definition get_valorGasto :: "limit \<Rightarrow> rat" where
  "get_valorGasto l = round2 (valorGasto l)"

text \<open>Writing one goes through the schema setter.\<close>

definition set_valorGasto :: "rat \<Rightarrow> limit \<Rightarrow> limit" where
  "set_valorGasto v l = l\<lparr>valorGasto := round2 v\<rparr>"

definition set_valorLimite :: "rat \<Rightarrow> limit \<Rightarrow> limit" where
  "set_valorLimite v l = l\<lparr>valorLimite := round2 v\<rparr>"

definition percentualUsado :: "limit \<Rightarrow> jsnum" where
  "percentualUsado l =
     (if get_valorLimite l = 0 then Fin 0
      else js_min (js_times (js_div (get_valorGasto l) (get_valorLimite l)) 100) 100)"

definition valorRestante :: "limit \<Rightarrow> rat" where
  "valorRestante l = max 0 (fl (get_valorLimite l - get_valorGasto l))"

definition excedido :: "limit \<Rightarrow> bool" where
  "excedido l = (get_valorLimite l < get_valorGasto l)"

definition status :: "limit \<Rightarrow> string" where
  "status l =
     (let percentual = percentualUsado l in
      if js_ge percentual 100 then ''excedido''
      else if js_ge percentual 90 then ''critico''
      else if js_ge percentual 75 then ''alerta''
      else if js_ge percentual 50 then ''atencao''
      else ''normal'')"

definition proximoResetCalculado :: "limit \<Rightarrow> js_date" where
  "proximoResetCalculado l =
     (let proximo = ultimoReset l in
      case limit_periodo l of
        Diario \<Rightarrow> setDate proximo (d_day proximo + 1)
      | Semanal \<Rightarrow> setDate proximo (d_day proximo + 7)
      | Mensal \<Rightarrow> setMonth proximo (d_month proximo + 1)
      | Anual \<Rightarrow> setFullYear proximo (d_year proximo + 1))"

text \<open>
  The \<open>pre('save')\<close> hook: the two spellings of the category and card references are
  synchronised, then \<open>proximoReset\<close> is recomputed.
\<close>

definition sync_categoria :: "limit \<Rightarrow> limit" where
  "sync_categoria l =
     (if limit_categoria l \<noteq> None \<and> limit_categoriaId l = None
        then l\<lparr>limit_categoriaId := limit_categoria l\<rparr>
      else if limit_categoriaId l \<noteq> None \<and> limit_categoria l = None
        then l\<lparr>limit_categoria := limit_categoriaId l\<rparr>
      else l)"

definition sync_cartao :: "limit \<Rightarrow> limit" where
  "sync_cartao l =
     (if limit_cartao l \<noteq> None \<and> limit_cartaoId l = None
        then l\<lparr>limit_cartaoId := limit_cartao l\<rparr>
      else if limit_cartaoId l \<noteq> None \<and> limit_cartao l = None
        then l\<lparr>limit_cartao := limit_cartaoId l\<rparr>
      else l)"

definition pre_save :: "limit \<Rightarrow> limit" where
  "pre_save l =
     (let l1 = sync_cartao (sync_categoria l)
      in l1\<lparr>proximoReset := Some (proximoResetCalculado l1)\<rparr>)"

text \<open>
  \<open>save\<close> validates the document against the schema, then runs the hook, then writes;
  when the validation fails it throws \<open>ValidationError\<close> and neither the hook nor the
  write takes place. The validators that a document of this model can fail: \<open>nome\<close> is
  required (an absent or empty name fails) and has at most 100 characters; \<open>valorLimite\<close>
  and \<open>valorGasto\<close> are at least 0, compared as stored. An exception is the left summand
  of a result.
\<close>

datatype error = ValidationError | CastError

definition validates_nome :: "limit \<Rightarrow> bool" where
  "validates_nome l =
     (case limit_nome l of None \<Rightarrow> False | Some n \<Rightarrow> n \<noteq> [] \<and> length n \<le> 100)"

definition limit_valid :: "limit \<Rightarrow> bool" where
  "limit_valid l = (validates_nome l \<and> 0 \<le> valorLimite l \<and> 0 \<le> valorGasto l)"

definition save :: "limit \<Rightarrow> error + limit" where
  "save l = (if limit_valid l then Inr (pre_save l) else Inl ValidationError)"

text \<open>
  \<open>resetar\<close>: the instant \<open>new Date()\<close> reads from the clock is the parameter \<open>now\<close>.
  The result is that of \<open>save\<close>: the document as persisted, or the exception.
\<close>

definition resetar :: "js_date \<Rightarrow> limit \<Rightarrow> error + limit" where
  "resetar now l =
     (let l1 = set_valorGasto 0 l;
          l2 = l1\<lparr>ultimoReset := now\<rparr>;
          l3 = l2\<lparr>proximoReset := Some (proximoResetCalculado l2)\<rparr>
      in save l3)"

text \<open>
  \<open>updateFromTransactions\<close>: the query selects the active limits of the user that are
  of kind \<open>geral\<close>, or of kind \<open>categoria\<close> with the given \<open>categoriaId\<close>, or of kind
  \<open>cartao\<close> with the given \<open>cartaoId\<close>; the loop adds \<open>Math.abs(valor)\<close> to
  \<open>valorGasto\<close> of each and saves it.
\<close>

definition applies_to :: "objectId \<Rightarrow> objectId option \<Rightarrow> objectId option \<Rightarrow> limit \<Rightarrow> bool" where
  "applies_to userId categoriaId cartaoId l =
     (limit_user l = userId \<and> limit_ativo l
      \<and> (limit_tipo l = Geral
         \<or> (limit_tipo l = Categoria \<and> limit_categoriaId l = categoriaId)
         \<or> (limit_tipo l = Cartao \<and> limit_cartaoId l = cartaoId)))"

text \<open>
  The body of the loop: \<^verbatim>\<open>limit.valorGasto += Math.abs(valor)\<close> reads through the
  getter, adds in double arithmetic and writes through the setter; then the document is
  saved.
\<close>

definition somar_gasto :: "rat \<Rightarrow> limit \<Rightarrow> limit" where
  "somar_gasto valor l = set_valorGasto (fl (get_valorGasto l + \<bar>valor\<bar>)) l"

definition add_gasto :: "rat \<Rightarrow> limit \<Rightarrow> error + limit" where
  "add_gasto valor l = save (somar_gasto valor l)"

section \<open>Categories, cards, transactions and the store\<close>

datatype tipo = Receita | Despesa

datatype tx_status = Pendente | Confirmada | Cancelada

record category =
  cat_id :: objectId
  cat_user :: objectId
  cat_nome :: "string option"
  cat_tipo :: "tipo option"
  cat_type :: "string option"
  cat_icone :: "string option"

record card =
  card_id :: objectId
  card_user :: objectId
  card_nome :: "string option"

record transaction =
  tx_id :: objectId
  tx_user :: objectId
  tx_tipo :: tipo
  tx_valor :: rat
  tx_descricao :: string
  tx_data :: js_date
  tx_categoria :: "objectId option"
  tx_categoriaId :: "objectId option"
  tx_cartao :: "objectId option"
  tx_cartaoId :: "objectId option"
  tx_status :: tx_status

record store =
  categories :: "category list"
  cards :: "card list"
  limits :: "limit list"
  transactions :: "transaction list"

text \<open>The write of \<open>save\<close>: the stored document with the same \<open>_id\<close> is replaced.\<close>

definition write_limit :: "limit \<Rightarrow> store \<Rightarrow> store" where
  "write_limit l s = s\<lparr>limits := map (\<lambda>x. if limit_id x = limit_id l then l else x) (limits s)\<rparr>"

text \<open>
  The loop over the limits found: an exception of \<open>save\<close> leaves the loop and the
  function, so the limits saved before it stay written and the later ones untouched.
\<close>

fun accrue :: "rat \<Rightarrow> limit list \<Rightarrow> store \<Rightarrow> (error + limit list) \<times> store" where
  "accrue valor [] s = (Inr [], s)"
| "accrue valor (l # ls) s =
     (case add_gasto valor l of
        Inl e \<Rightarrow> (Inl e, s)
      | Inr l' \<Rightarrow>
          (case accrue valor ls (write_limit l' s) of
             (Inl e, s') \<Rightarrow> (Inl e, s')
           | (Inr ls', s') \<Rightarrow> (Inr (l' # ls'), s')))"

definition updateFromTransactions ::
  "store \<Rightarrow> objectId \<Rightarrow> objectId option \<Rightarrow> objectId option \<Rightarrow> rat
     \<Rightarrow> (error + limit list) \<times> store" where
  "updateFromTransactions s userId categoriaId cartaoId valor =
     accrue valor (filter (applies_to userId categoriaId cartaoId) (limits s)) s"

text \<open>What a handler answers: the HTTP status, the \<open>success\<close> flag and the \<open>data\<close> field.\<close>

datatype 'a http = Http nat bool "'a option"

text \<open>JavaScript truthiness of an optional string, and \<open>x || d\<close> on one.\<close>

definition truthy :: "string option \<Rightarrow> bool" where
  "truthy x = (case x of None \<Rightarrow> False | Some v \<Rightarrow> v \<noteq> [])"

definition or_else :: "string option \<Rightarrow> string \<Rightarrow> string" where
  "or_else x d = (case x of None \<Rightarrow> d | Some v \<Rightarrow> if v = [] then d else v)"

definition or_null :: "string option \<Rightarrow> string option" where
  "or_null x = (if truthy x then x else None)"

text \<open>
  A string casts to an identifier when it has 24 hexadecimal digits; this is also the
  test \<open>isMongoId\<close> of the request validation.
\<close>

definition is_hex_char :: "char \<Rightarrow> bool" where
  "is_hex_char c = (c \<in> set ''0123456789abcdefABCDEF'')"

definition castable_objectId :: "string \<Rightarrow> bool" where
  "castable_objectId x = (length x = 24 \<and> list_all is_hex_char x)"

definition cast_ok :: "string option \<Rightarrow> bool" where
  "cast_ok x = (case x of None \<Rightarrow> True | Some c \<Rightarrow> castable_objectId c)"

text \<open>\<open>trim\<close> removes the white space (of the ASCII range) at both ends of a string.\<close>

definition is_space :: "char \<Rightarrow> bool" where
  "is_space c = (c \<in> set [CHR 0x09, CHR 0x0A, CHR 0x0B, CHR 0x0C, CHR 0x0D, CHR 0x20])"

definition trim :: "string \<Rightarrow> string" where
  "trim x = rev (dropWhile is_space (rev (dropWhile is_space x)))"

section \<open>Creating a transaction (\<open>validation.js\<close>, \<open>transactionController.js\<close>, \<open>transactionRepository.js\<close>)\<close>

text \<open>
  The request body. \<open>b_tipo\<close> is \<open>None\<close> when the field is absent, empty or not one of
  the two kinds; \<open>b_valor\<close> when it is absent or not a number; \<open>b_data\<close> when it is
  absent or not an ISO 8601 date.
\<close>

record tx_body =
  b_tipo :: "tipo option"
  b_valor :: "rat option"
  b_descricao :: "string option"
  b_data :: "js_date option"
  b_categoria :: "string option"
  b_categoria_id :: "string option"
  b_categoriaId :: "string option"
  b_cartao :: "string option"
  b_cartaoId :: "string option"
  b_status :: "tx_status option"

text \<open>
  \<open>transactionValidation.create\<close>, the middleware of the route before the handler:
  \<open>tipo\<close>, \<open>valor\<close> (at least 0.01), \<open>descricao\<close> (trimmed, 1 to 500 characters) and
  \<open>data\<close> are required; \<open>categoriaId\<close> and \<open>cartaoId\<close>, when present, are identifiers.
  The result is the body with \<open>descricao\<close> trimmed, or \<open>None\<close> when the middleware
  answers 400.
\<close>

definition transactionValidation_create :: "tx_body \<Rightarrow> tx_body option" where
  "transactionValidation_create b =
     (let descricao = trim (case b_descricao b of None \<Rightarrow> [] | Some d \<Rightarrow> d)
      in if b_tipo b = None
            \<or> (case b_valor b of None \<Rightarrow> True | Some v \<Rightarrow> fl v < fl (1 / 100))
            \<or> descricao = [] \<or> 500 < length descricao
            \<or> b_data b = None
            \<or> \<not> cast_ok (b_categoriaId b) \<or> \<not> cast_ok (b_cartaoId b)
         then None
         else Some (b\<lparr>b_descricao := Some descricao\<rparr>))"

text \<open>
  The handler folds \<open>categoria_id\<close> and \<open>categoriaId\<close> of the request body into
  \<open>categoria\<close> and deletes them.
\<close>

definition only_categoria :: "tx_body \<Rightarrow> tx_body" where
  "only_categoria b =
     (let b1 = (if truthy (b_categoria_id b)
                then b\<lparr>b_categoria := b_categoria_id b, b_categoria_id := None\<rparr> else b)
      in if truthy (b_categoriaId b1)
         then b1\<lparr>b_categoria := b_categoriaId b1, b_categoriaId := None\<rparr> else b1)"

text \<open>The \<open>pre('save')\<close> hook of the transaction schema.\<close>

definition tx_pre_save :: "transaction \<Rightarrow> transaction" where
  "tx_pre_save t =
     (let t1 = (if tx_categoria t \<noteq> None \<and> tx_categoriaId t = None
                  then t\<lparr>tx_categoriaId := tx_categoria t\<rparr>
                else if tx_categoriaId t \<noteq> None \<and> tx_categoria t = None
                  then t\<lparr>tx_categoria := tx_categoriaId t\<rparr>
                else t)
      in if tx_cartao t1 \<noteq> None \<and> tx_cartaoId t1 = None
           then t1\<lparr>tx_cartaoId := tx_cartao t1\<rparr>
         else if tx_cartaoId t1 \<noteq> None \<and> tx_cartao t1 = None
           then t1\<lparr>tx_cartao := tx_cartaoId t1\<rparr>
         else t1)"

text \<open>
  \<open>transactionRepository.findById\<close>: the transaction with \<open>categoria\<close> populated by
  the fields \<open>nome\<close> and \<open>icone\<close> of the category with that identifier and \<open>cartao\<close> by
  the field \<open>nome\<close> of the card, each \<open>null\<close> when no such document exists; \<open>valor\<close> is
  read through its getter when the answer is serialised.
\<close>

record categoria_ref =
  ref_id :: objectId
  ref_nome :: "string option"
  ref_icone :: "string option"

record cartao_ref =
  cref_id :: objectId
  cref_nome :: "string option"

record tx_answer =
  a_id :: objectId
  a_user :: objectId
  a_tipo :: tipo
  a_valor :: rat
  a_descricao :: string
  a_data :: js_date
  a_categoria :: "categoria_ref option"
  a_categoriaId :: "objectId option"
  a_cartao :: "cartao_ref option"
  a_cartaoId :: "objectId option"
  a_status :: tx_status

definition populate_tx :: "store \<Rightarrow> transaction \<Rightarrow> tx_answer" where
  "populate_tx s t =
     \<lparr>a_id = tx_id t, a_user = tx_user t, a_tipo = tx_tipo t, a_valor = round2 (tx_valor t),
      a_descricao = tx_descricao t, a_data = tx_data t,
      a_categoria =
        (case tx_categoria t of
           None \<Rightarrow> None
         | Some c \<Rightarrow>
             map_option (\<lambda>k. \<lparr>ref_id = cat_id k, ref_nome = cat_nome k, ref_icone = cat_icone k\<rparr>)
               (find (\<lambda>k. cat_id k = c) (categories s))),
      a_categoriaId = tx_categoriaId t,
      a_cartao =
        (case tx_cartao t of
           None \<Rightarrow> None
         | Some c \<Rightarrow>
             map_option (\<lambda>k. \<lparr>cref_id = card_id k, cref_nome = card_nome k\<rparr>)
               (find (\<lambda>k. card_id k = c) (cards s))),
      a_cartaoId = tx_cartaoId t, a_status = tx_status t\<rparr>"

definition tx_findById :: "store \<Rightarrow> objectId \<Rightarrow> tx_answer option" where
  "tx_findById s i = map_option (populate_tx s) (find (\<lambda>t. tx_id t = i) (transactions s))"

text \<open>
  \<open>transactionRepository.create\<close>: the document is built from the data (the references
  cast to identifiers; \<open>tipo\<close>, \<open>valor\<close> and \<open>descricao\<close> required, \<open>descricao\<close> trimmed
  and of at most 500 characters; defaults for \<open>data\<close> and \<open>status\<close>; \<open>valor\<close> through its
  setter), saved, and read back by its identifier. \<open>new_id\<close> is the identifier the
  database driver generates, \<open>now\<close> the clock.
\<close>

definition repository_create ::
  "js_date \<Rightarrow> objectId \<Rightarrow> store \<Rightarrow> objectId \<Rightarrow> tx_body
     \<Rightarrow> error + tx_answer option \<times> store" where
  "repository_create now new_id s userId b =
     (case (b_tipo b, b_valor b, b_descricao b) of
        (Some tp, Some v, Some ds) \<Rightarrow>
          if trim ds = [] \<or> 500 < length (trim ds)
             \<or> \<not> cast_ok (b_categoria b) \<or> \<not> cast_ok (b_categoriaId b)
             \<or> \<not> cast_ok (b_cartao b) \<or> \<not> cast_ok (b_cartaoId b)
          then Inl ValidationError
          else
            let t = tx_pre_save
                  \<lparr>tx_id = new_id, tx_user = userId, tx_tipo = tp, tx_valor = round2 v,
                   tx_descricao = trim ds,
                   tx_data = (case b_data b of Some d \<Rightarrow> d | None \<Rightarrow> now),
                   tx_categoria = b_categoria b, tx_categoriaId = b_categoriaId b,
                   tx_cartao = b_cartao b, tx_cartaoId = b_cartaoId b,
                   tx_status = (case b_status b of Some st \<Rightarrow> st | None \<Rightarrow> Confirmada)\<rparr>;
                s' = s\<lparr>transactions := transactions s @ [t]\<rparr>
            in Inr (tx_findById s' new_id, s')
      | _ \<Rightarrow> Inl ValidationError)"

definition createTransaction ::
  "js_date \<Rightarrow> objectId \<Rightarrow> store \<Rightarrow> objectId \<Rightarrow> tx_body
     \<Rightarrow> (error + tx_answer http) \<times> store" where
  "createTransaction now new_id s userId body =
     (case repository_create now new_id s userId (only_categoria body) of
        Inl e \<Rightarrow> (Inl e, s)
      | Inr (t, s') \<Rightarrow> (Inr (Http 201 True t), s'))"

text \<open>The route \<^verbatim>\<open>POST /\<close>: the validation middleware, then the handler.\<close>

definition post_transaction ::
  "js_date \<Rightarrow> objectId \<Rightarrow> store \<Rightarrow> objectId \<Rightarrow> tx_body
     \<Rightarrow> (error + tx_answer http) \<times> store" where
  "post_transaction now new_id s userId body =
     (case transactionValidation_create body of
        None \<Rightarrow> (Inr (Http 400 False None), s)
      | Some body' \<Rightarrow> createTransaction now new_id s userId body')"

section \<open>Category limits (\<open>categoryLimitController.js\<close>)\<close>

text \<open>The current month: \<open>start\<close> is its first instant, \<open>end\<close> is 23:59:59 of its last day.\<close>

definition month_start :: "js_date \<Rightarrow> js_date" where
  "month_start now =
     (let ano = d_year now; mes = d_month now + 1 in new_Date ano (mes - 1) 1 0 0 0)"

definition month_end :: "js_date \<Rightarrow> js_date" where
  "month_end now =
     (let ano = d_year now; mes = d_month now + 1 in new_Date ano mes 0 23 59 59)"

definition in_range :: "js_date \<Rightarrow> js_date \<Rightarrow> js_date \<Rightarrow> bool" where
  "in_range start end' d = (date_le start d \<and> date_le d end')"

text \<open>
  The aggregation \<open>$group: { _id: '$categoria', total: { $sum: '$valor' },
  count: { $sum: 1 } }\<close> over the matched transactions: one row for each distinct value
  of \<open>categoria\<close>.
\<close>

record group_row =
  g_id :: "objectId option"
  g_total :: rat
  g_count :: nat

definition group_by_categoria :: "transaction list \<Rightarrow> group_row list" where
  "group_by_categoria txs =
     map (\<lambda>k. \<lparr>g_id = k,
               g_total = sum_list (map tx_valor (filter (\<lambda>t. tx_categoria t = k) txs)),
               g_count = length (filter (\<lambda>t. tx_categoria t = k) txs)\<rparr>)
       (remdups (map tx_categoria txs))"

text \<open>The \<open>$match\<close> stage of \<open>getCategoryLimits\<close>.\<close>

definition match_despesas :: "store \<Rightarrow> objectId \<Rightarrow> js_date \<Rightarrow> js_date \<Rightarrow> transaction list" where
  "match_despesas s userId start end' =
     filter (\<lambda>t. tx_user t = userId \<and> tx_tipo t = Despesa \<and> in_range start end' (tx_data t))
       (transactions s)"

text \<open>
  The two lookup objects of the handler. Their keys are identifiers turned into strings;
  the key an absent identifier produces (\<open>undefined\<close>) is \<open>None\<close> here. A later entry
  with the same key replaces an earlier one.
\<close>

definition gastosPorCategoria :: "group_row list \<Rightarrow> (objectId option \<rightharpoonup> rat \<times> nat)" where
  "gastosPorCategoria rows = fold (\<lambda>t m. m(g_id t \<mapsto> (g_total t, g_count t))) rows Map.empty"

text \<open>\<open>populate('categoria')\<close>: the referenced category, looked up by identifier alone.\<close>

definition populate_categoria :: "store \<Rightarrow> limit \<Rightarrow> category option" where
  "populate_categoria s l =
     (case limit_categoria l of
        None \<Rightarrow> None
      | Some c \<Rightarrow> find (\<lambda>k. cat_id k = c) (categories s))"

definition limit_catId :: "limit \<times> category option \<Rightarrow> objectId option" where
  "limit_catId lp = (case snd lp of Some c \<Rightarrow> Some (cat_id c) | None \<Rightarrow> limit_categoriaId (fst lp))"

definition limitByCategory ::
  "(limit \<times> category option) list \<Rightarrow> (objectId option \<rightharpoonup> limit \<times> category option)" where
  "limitByCategory lps = fold (\<lambda>lp m. m(limit_catId lp \<mapsto> lp)) lps Map.empty"

record view =
  v_id :: objectId
  v_name :: string
  v_icon :: "string option"
  v_budget :: rat
  v_spent :: rat
  v_remaining :: rat
  v_percentage :: int
  v_transactions :: nat
  v_status :: string

definition budget_status :: "int \<Rightarrow> string" where
  "budget_status percentage =
     (if 100 \<le> percentage then ''exceeded''
      else if 80 \<le> percentage then ''warning''
      else ''safe'')"

definition budget_percentage :: "rat \<Rightarrow> rat \<Rightarrow> int" where
  "budget_percentage spent budget =
     (if 0 < budget then math_round (fl (fl (spent / budget) * 100)) else 0)"

definition category_view ::
  "(objectId option \<rightharpoonup> rat \<times> nat) \<Rightarrow> (objectId option \<rightharpoonup> limit \<times> category option)
     \<Rightarrow> category \<Rightarrow> view" where
  "category_view gastos byCat cat =
     (let catId = Some (cat_id cat);
          limit = byCat catId;
          spent = (case gastos catId of Some g \<Rightarrow> fst g | None \<Rightarrow> 0);
          count = (case gastos catId of Some g \<Rightarrow> snd g | None \<Rightarrow> 0);
          budget = (case limit of Some lp \<Rightarrow> valorLimite (fst lp) | None \<Rightarrow> 0);
          remaining = max 0 (fl (budget - spent));
          percentage = budget_percentage spent budget;
          populated = (case limit of Some lp \<Rightarrow> snd lp | None \<Rightarrow> None);
          name = (case populated of
                    Some c \<Rightarrow> or_else (cat_nome c) (or_else (cat_nome cat) ''Categoria'')
                  | None \<Rightarrow> or_else (cat_nome cat) ''Categoria'');
          icon = (case populated of
                    Some c \<Rightarrow> if truthy (cat_icone c) then cat_icone c
                              else or_null (cat_icone cat)
                  | None \<Rightarrow> or_null (cat_icone cat))
      in \<lparr>v_id = (case limit of Some lp \<Rightarrow> limit_id (fst lp) | None \<Rightarrow> cat_id cat),
          v_name = name, v_icon = icon, v_budget = budget, v_spent = spent,
          v_remaining = remaining, v_percentage = percentage,
          v_transactions = count, v_status = budget_status percentage\<rparr>)"

definition is_expense_category :: "category \<Rightarrow> bool" where
  "is_expense_category cat = (cat_tipo cat = Some Despesa \<or> cat_type cat = Some ''expense'')"

definition getCategoryLimits :: "js_date \<Rightarrow> store \<Rightarrow> objectId \<Rightarrow> view list http" where
  "getCategoryLimits now s userId =
     (let start = month_start now;
          end' = month_end now;
          cats = filter (\<lambda>c. cat_user c = userId) (categories s);
          lims = map (\<lambda>l. (l, populate_categoria s l))
                   (filter (\<lambda>l. limit_user l = userId \<and> limit_tipo l = Categoria \<and> limit_ativo l)
                      (limits s));
          gastos = gastosPorCategoria (group_by_categoria (match_despesas s userId start end'));
          byCat = limitByCategory lims
      in Http 200 True
           (Some (map (category_view gastos byCat) (filter is_expense_category cats))))"

text \<open>
  \<open>upsertCategoryLimit\<close>. The request body carries \<open>categoriaId\<close> and \<open>valor\<close>. The
  handler rejects a missing or empty \<open>categoriaId\<close>, a missing or zero \<open>valor\<close> and a
  \<open>valor\<close> that is not positive, then a \<open>categoriaId\<close> that is not a string of 24
  characters. \<open>findOneAndUpdate\<close> casts the string to an identifier, which throws on a
  character that is not a hexadecimal digit.
\<close>

record limit_body =
  lb_categoriaId :: "string option"
  lb_valor :: "rat option"

definition upsert_filter :: "objectId \<Rightarrow> objectId \<Rightarrow> limit \<Rightarrow> bool" where
  "upsert_filter userId categoriaId l =
     (limit_user l = userId \<and> limit_categoria l = Some categoriaId \<and> limit_tipo l = Categoria)"

definition upsert_update :: "objectId \<Rightarrow> rat \<Rightarrow> limit \<Rightarrow> limit" where
  "upsert_update categoriaId v l =
     (set_valorLimite v l)
       \<lparr>limit_ativo := True, limit_tipo := Categoria,
        limit_categoria := Some categoriaId, limit_categoriaId := Some categoriaId\<rparr>"

text \<open>The document an upsert inserts: the filter, the update and the schema defaults.\<close>

definition upsert_insert :: "js_date \<Rightarrow> objectId \<Rightarrow> objectId \<Rightarrow> objectId \<Rightarrow> rat \<Rightarrow> limit" where
  "upsert_insert now new_id userId categoriaId v =
     \<lparr>limit_id = new_id, limit_user = userId, limit_nome = None, limit_tipo = Categoria,
      valorLimite = round2 v, valorGasto = 0, limit_periodo = Mensal,
      limit_categoria = Some categoriaId, limit_categoriaId = Some categoriaId,
      limit_cartao = None, limit_cartaoId = None, limit_ativo = True,
      ultimoReset = now, proximoReset = None\<rparr>"

fun update_first :: "('a \<Rightarrow> bool) \<Rightarrow> ('a \<Rightarrow> 'a) \<Rightarrow> 'a list \<Rightarrow> 'a list" where
  "update_first P f [] = []"
| "update_first P f (x # xs) = (if P x then f x # xs else x # update_first P f xs)"

fun delete_first :: "('a \<Rightarrow> bool) \<Rightarrow> 'a list \<Rightarrow> 'a list" where
  "delete_first P [] = []"
| "delete_first P (x # xs) = (if P x then xs else x # delete_first P xs)"

definition findOneAndUpdate_upsert ::
  "js_date \<Rightarrow> objectId \<Rightarrow> store \<Rightarrow> objectId \<Rightarrow> objectId \<Rightarrow> rat \<Rightarrow> limit \<times> store" where
  "findOneAndUpdate_upsert now new_id s userId categoriaId v =
     (case find (upsert_filter userId categoriaId) (limits s) of
        Some l \<Rightarrow>
          (upsert_update categoriaId v l,
           s\<lparr>limits := update_first (upsert_filter userId categoriaId)
                          (upsert_update categoriaId v) (limits s)\<rparr>)
      | None \<Rightarrow>
          (upsert_insert now new_id userId categoriaId v,
           s\<lparr>limits := limits s @ [upsert_insert now new_id userId categoriaId v]\<rparr>))"

definition limit_view :: "js_date \<Rightarrow> store \<Rightarrow> objectId \<Rightarrow> objectId \<Rightarrow> limit \<Rightarrow> view" where
  "limit_view now s userId categoriaId limit =
     (let category = find (\<lambda>c. cat_id c = categoriaId) (categories s);
          start = month_start now;
          end' = month_end now;
          rows = group_by_categoria
                   (filter (\<lambda>t. tx_user t = userId \<and> tx_tipo t = Despesa
                                \<and> tx_categoria t = limit_categoria limit
                                \<and> in_range start end' (tx_data t))
                      (transactions s));
          spent = (case rows of [] \<Rightarrow> 0 | r # _ \<Rightarrow> g_total r);
          transactionsCount = (case rows of [] \<Rightarrow> 0 | r # _ \<Rightarrow> g_count r);
          budget = get_valorLimite limit;
          remaining = max 0 (fl (budget - spent));
          percentage = budget_percentage spent budget
      in \<lparr>v_id = limit_id limit,
          v_name = (case category of
                      Some c \<Rightarrow> or_else (cat_nome c) (or_else (limit_nome limit) ''Categoria'')
                    | None \<Rightarrow> or_else (limit_nome limit) ''Categoria''),
          v_icon = (case category of Some c \<Rightarrow> or_null (cat_icone c) | None \<Rightarrow> None),
          v_budget = budget, v_spent = spent, v_remaining = remaining,
          v_percentage = percentage, v_transactions = transactionsCount,
          v_status = budget_status percentage\<rparr>)"

definition upsertCategoryLimit ::
  "js_date \<Rightarrow> objectId \<Rightarrow> store \<Rightarrow> objectId \<Rightarrow> limit_body \<Rightarrow> (error + view http) \<times> store" where
  "upsertCategoryLimit now new_id s userId body =
     (case (lb_categoriaId body, lb_valor body) of
        (Some categoriaId, Some v) \<Rightarrow>
          if categoriaId = [] \<or> v = 0 \<or> v \<le> 0 then (Inr (Http 400 False None), s)
          else if length categoriaId \<noteq> 24 then (Inr (Http 400 False None), s)
          else if \<not> castable_objectId categoriaId then (Inl CastError, s)
          else
            (case findOneAndUpdate_upsert now new_id s userId categoriaId v of
               (limit, s') \<Rightarrow>
                 (Inr (Http 201 True (Some (limit_view now s' userId categoriaId limit))), s'))
      | _ \<Rightarrow> (Inr (Http 400 False None), s))"

text \<open>
  \<open>deleteCategoryLimit\<close>: the category is looked up by its name alone, the limit by
  user, category and kind.
\<close>

definition deleteCategoryLimit :: "store \<Rightarrow> objectId \<Rightarrow> string \<Rightarrow> unit http \<times> store" where
  "deleteCategoryLimit s userId categoryName =
     (case find (\<lambda>c. cat_nome c = Some categoryName) (categories s) of
        None \<Rightarrow> (Http 404 False None, s)
      | Some category \<Rightarrow>
          (Http 200 True None,
           s\<lparr>limits := delete_first
                 (\<lambda>l. limit_user l = userId \<and> limit_categoria l = Some (cat_id category)
                      \<and> limit_tipo l = Categoria)
                 (limits s)\<rparr>))"

text \<open>
  The expense transactions of a user for a category in the current month, whatever
  their status.
\<close>

definition despesas_do_mes :: "js_date \<Rightarrow> store \<Rightarrow> objectId \<Rightarrow> objectId option \<Rightarrow> transaction list" where
  "despesas_do_mes now s userId categoriaId =
     filter (\<lambda>t. tx_user t = userId \<and> tx_tipo t = Despesa
                  \<and> in_range (month_start now) (month_end now) (tx_data t)
                  \<and> tx_categoria t = categoriaId) (transactions s)"

section \<open>The cash-flow report (\<open>transactionRepository.js\<close>, \<open>reportService.js\<close>)\<close>

record fluxo_mes =
  mes :: int
  receitas :: rat
  despesas :: rat
  saldo :: rat

record fluxo_acumulado = fluxo_mes +
  saldoAcumulado :: rat







fun acumular :: "rat \<Rightarrow> fluxo_mes list \<Rightarrow> fluxo_acumulado list" where
  "acumular acc [] = []"
| "acumular acc (f # fs) =
     \<lparr>mes = mes f, receitas = receitas f, despesas = despesas f, saldo = saldo f,
      saldoAcumulado = acc + saldo f\<rparr> # acumular (acc + saldo f) fs"

record cash_flow_report =
  ano :: int
  fluxoMensal :: "fluxo_acumulado list"
  totalReceitas :: rat
  totalDespesas :: rat
  saldoTotal :: rat





section \<open>Sample data\<close>

text \<open>Concrete documents on which the operations are evaluated below.\<close>

definition jan31 :: js_date where
  "jan31 = \<lparr>d_year = 2023, d_month = 0, d_day = 31, d_ms = 0\<rparr>"

definition user_a :: objectId where
  "user_a = ''64a00000000000000000000a''"

definition user_b :: objectId where
  "user_b = ''64a00000000000000000000b''"

definition cat_food :: objectId where
  "cat_food = ''64c000000000000000000001''"

definition limite_geral :: limit where
  "limite_geral =
     \<lparr>limit_id = ''64b000000000000000000001'', limit_user = user_a,
      limit_nome = Some ''Geral'', limit_tipo = Geral, valorLimite = 1000, valorGasto = 0,
      limit_periodo = Mensal, limit_categoria = None, limit_categoriaId = None,
      limit_cartao = None, limit_cartaoId = None, limit_ativo = True,
      ultimoReset = jan31, proximoReset = None\<rparr>"

definition limite_excedido :: limit where
  "limite_excedido = limite_geral\<lparr>valorLimite := 500, valorGasto := 550\<rparr>"

definition limite_categoria :: limit where
  "limite_categoria =
     \<lparr>limit_id = ''64b000000000000000000002'', limit_user = user_a,
      limit_nome = None, limit_tipo = Categoria, valorLimite = 300, valorGasto = 0,
      limit_periodo = Mensal, limit_categoria = Some cat_food,
      limit_categoriaId = Some cat_food, limit_cartao = None, limit_cartaoId = None,
      limit_ativo = True, ultimoReset = jan31, proximoReset = None\<rparr>"

definition limite_inativo :: limit where
  "limite_inativo = limite_geral\<lparr>limit_id := ''64b000000000000000000003'', limit_ativo := False\<rparr>"

definition limite_alheio :: limit where
  "limite_alheio = limite_geral\<lparr>limit_id := ''64b000000000000000000004'', limit_user := user_b\<rparr>"

definition loja_limites :: store where
  "loja_limites =
     \<lparr>categories = [], cards = [],
      limits = [limite_geral, limite_categoria, limite_inativo, limite_alheio],
      transactions = []\<rparr>"

text \<open>A store for the budget view: one expense category, its limit of 500, three expenses.\<close>

definition jul15 :: js_date where
  "jul15 = \<lparr>d_year = 2024, d_month = 6, d_day = 15, d_ms = 43200000\<rparr>"

definition categoria_food :: category where
  "categoria_food =
     \<lparr>cat_id = cat_food, cat_user = user_a, cat_nome = Some ''Food'',
      cat_tipo = Some Despesa, cat_type = None, cat_icone = Some ''utensils''\<rparr>"

text \<open>
  A request to record an expense of 80 in the category, and a store in which the owner
  has a general limit and a named limit for the category.
\<close>

definition despesa_80 :: tx_body where
  "despesa_80 =
     \<lparr>b_tipo = Some Despesa, b_valor = Some 80, b_descricao = Some ''Mercado'',
      b_data = Some jul15, b_categoria = None, b_categoria_id = None,
      b_categoriaId = Some cat_food, b_cartao = None, b_cartaoId = None,
      b_status = None\<rparr>"

definition limite_mercado :: limit where
  "limite_mercado = limite_categoria\<lparr>limit_nome := Some ''Mercado''\<rparr>"

definition loja_nomeada :: store where
  "loja_nomeada =
     \<lparr>categories = [categoria_food], cards = [],
      limits = [limite_geral, limite_mercado, limite_inativo, limite_alheio],
      transactions = []\<rparr>"

text \<open>The same store with a card of the owner.\<close>

definition card_visa :: objectId where
  "card_visa = ''64e000000000000000000001''"

definition loja_cartao :: store where
  "loja_cartao =
     loja_nomeada\<lparr>cards := [\<lparr>card_id = card_visa, card_user = user_a, card_nome = Some ''Visa''\<rparr>]\<rparr>"

definition limite_food :: limit where
  "limite_food = limite_categoria\<lparr>valorLimite := 500\<rparr>"

definition despesa_food :: "objectId \<Rightarrow> rat \<Rightarrow> int \<Rightarrow> tx_status \<Rightarrow> transaction" where
  "despesa_food i v day st =
     \<lparr>tx_id = i, tx_user = user_a, tx_tipo = Despesa, tx_valor = v,
      tx_descricao = ''Mercado'',
      tx_data = \<lparr>d_year = 2024, d_month = 6, d_day = day, d_ms = 0\<rparr>,
      tx_categoria = Some cat_food, tx_categoriaId = Some cat_food,
      tx_cartao = None, tx_cartaoId = None, tx_status = st\<rparr>"

definition loja_food :: store where
  "loja_food =
     \<lparr>categories = [categoria_food], cards = [], limits = [limite_food],
      transactions =
        [despesa_food ''64d000000000000000000001'' 150 3 Confirmada,
         despesa_food ''64d000000000000000000002'' 200 10 Confirmada,
         despesa_food ''64d000000000000000000003'' 200 12 Confirmada]\<rparr>"

definition loja_pendente :: store where
  "loja_pendente =
     \<lparr>categories = [categoria_food], cards = [], limits = [limite_food],
      transactions =
        [despesa_food ''64d000000000000000000001'' 100 5 Pendente,
         despesa_food ''64d000000000000000000002'' 40 6 Cancelada]\<rparr>"

definition body_food_500 :: limit_body where
  "body_food_500 = \<lparr>lb_categoriaId = Some cat_food, lb_valor = Some 500\<rparr>"

text \<open>A store in which the only category belongs to another user.\<close>

definition cat_trip :: objectId where
  "cat_trip = ''64c000000000000000000002''"

definition categoria_alheia :: category where
  "categoria_alheia =
     \<lparr>cat_id = cat_trip, cat_user = user_b, cat_nome = Some ''Viagem'',
      cat_tipo = Some Despesa, cat_type = None, cat_icone = Some ''plane''\<rparr>"

definition loja_alheia :: store where
  "loja_alheia =
     \<lparr>categories = [categoria_alheia], cards = [], limits = [], transactions = []\<rparr>"

definition body_trip_300 :: limit_body where
  "body_trip_300 = \<lparr>lb_categoriaId = Some cat_trip, lb_valor = Some 300\<rparr>"

text \<open>
  Two stores that differ only in a category of another user, which has the same name as
  the category of the first user.
\<close>

definition categoria_food_b :: category where
  "categoria_food_b =
     \<lparr>cat_id = ''64c000000000000000000003'', cat_user = user_b, cat_nome = Some ''Food'',
      cat_tipo = Some Despesa, cat_type = None, cat_icone = Some ''utensils''\<rparr>"

definition loja_a :: store where
  "loja_a = \<lparr>categories = [categoria_food], cards = [], limits = [limite_food], transactions = []\<rparr>"

definition loja_ab :: store where
  "loja_ab =
     \<lparr>categories = [categoria_food_b, categoria_food], cards = [], limits = [limite_food],
      transactions = []\<rparr>"



section \<open>Auxiliary facts: double arithmetic\<close>

lemma rne_err: "\<bar>of_int (rne y) - y\<bar> \<le> 1 / 2"
proof -
  have "of_int \<lfloor>y\<rfloor> \<le> y" "y < of_int \<lfloor>y\<rfloor> + 1" by linarith+
  then show ?thesis by (auto simp: rne_def Let_def)
qed

lemma rne_of_int [simp]: "rne (of_int n) = n"
  by (simp add: rne_def)

lemma rne_ge_int: "of_int n \<le> y \<Longrightarrow> n \<le> rne y"
proof -
  assume "of_int n \<le> y"
  then have "n \<le> \<lfloor>y\<rfloor>" by (simp add: le_floor_iff)
  then show ?thesis by (auto simp: rne_def Let_def)
qed

lemma rne_le_int: "y \<le> of_int n \<Longrightarrow> rne y \<le> n"
proof -
  assume a: "y \<le> of_int n"
  show ?thesis
  proof (cases "y = of_int n")
    case True
    then show ?thesis by simp
  next
    case False
    with a have "y < of_int n" by simp
    then have "\<lfloor>y\<rfloor> < n" by (simp add: floor_less_iff)
    then show ?thesis by (auto simp: rne_def Let_def)
  qed
qed

lemma powi_nonneg: "0 \<le> n \<Longrightarrow> (2::rat) powi n = 2 ^ nat n"
  by (simp add: power_int_def)

lemma powi_neg: "0 \<le> n \<Longrightarrow> (2::rat) powi (- n) = 1 / 2 ^ nat n"
  by (simp add: power_int_minus powi_nonneg inverse_eq_divide)

lemma ilog2_bounds:
  assumes "0 < a"
  shows "2 powi ilog2 a \<le> a" "a < 2 powi (ilog2 a + 1)"
proof -
  have "2 powi ilog2 a \<le> a \<and> a < 2 powi (ilog2 a + 1)"
  proof (cases "1 \<le> a")
    case True
    let ?n = "\<lfloor>a\<rfloor>"
    have n: "0 < ?n" using True by simp
    then have b1: "1 \<le> bitlen ?n" by (simp add: bitlen_alt_def)
    from bitlen_bounds [OF n] have lo: "2 ^ nat (bitlen ?n - 1) \<le> ?n" and hi: "?n < 2 ^ nat (bitlen ?n)"
      by simp_all
    have "(2::rat) ^ nat (bitlen ?n - 1) = of_int (2 ^ nat (bitlen ?n - 1))" by simp
    also have "\<dots> \<le> of_int ?n" using lo by (simp only: of_int_le_iff)
    also have "\<dots> \<le> a" by linarith
    finally have 1: "(2::rat) ^ nat (bitlen ?n - 1) \<le> a" .
    from hi have "?n + 1 \<le> 2 ^ nat (bitlen ?n)" by simp
    then have "of_int (?n + 1) \<le> (of_int (2 ^ nat (bitlen ?n)) :: rat)" by (simp only: of_int_le_iff)
    moreover have "a < of_int (?n + 1)" by linarith
    ultimately have "a < (of_int (2 ^ nat (bitlen ?n)) :: rat)" by (rule less_le_trans [rotated])
    then have 2: "a < (2::rat) ^ nat (bitlen ?n)" by simp
    have e: "ilog2 a = bitlen ?n - 1" using True by (simp add: ilog2_def)
    have p1: "(2::rat) powi (bitlen ?n - 1) = 2 ^ nat (bitlen ?n - 1)"
      using b1 by (simp add: power_int_def)
    have p2: "(2::rat) powi (bitlen ?n - 1 + 1) = 2 ^ nat (bitlen ?n)"
      using b1 by (simp add: power_int_def)
    show ?thesis unfolding e p1 p2 using 1 2 by simp
  next
    case False
    with assms have a1: "a < 1" by simp
    let ?n = "\<lceil>1 / a\<rceil>"
    let ?m = "?n - 1"
    have "1 < 1 / a" using assms a1 by simp
    then have "1 < ?n" by (simp add: less_ceiling_iff)
    then have m: "0 < ?m" by simp
    then have b1: "1 \<le> bitlen ?m" by (simp add: bitlen_alt_def)
    let ?b = "bitlen ?m"
    from bitlen_bounds [OF m] have lo: "2 ^ nat (?b - 1) \<le> ?m" and hi: "?m < 2 ^ nat ?b"
      by simp_all
    from hi have "?n \<le> 2 ^ nat ?b" by simp
    then have "(of_int ?n :: rat) \<le> of_int (2 ^ nat ?b)" by (simp only: of_int_le_iff)
    moreover have "1 / a \<le> of_int ?n" by linarith
    ultimately have "1 / a \<le> of_int (2 ^ nat ?b)" by (rule order_trans [rotated])
    then have u: "1 / a \<le> 2 ^ nat ?b" by simp
    have "(of_int (2 ^ nat (?b - 1)) :: rat) \<le> of_int ?m" using lo by (simp only: of_int_le_iff)
    moreover have "of_int ?m < 1 / a" using ceiling_correct [of "1 / a"] by simp
    ultimately have "of_int (2 ^ nat (?b - 1)) < 1 / a" by (rule le_less_trans)
    then have l: "2 ^ nat (?b - 1) < 1 / a" by simp
    have e: "ilog2 a = - ?b" using False by (simp add: ilog2_def)
    have p1: "(2::rat) powi (- ?b) = 1 / 2 ^ nat ?b"
      using b1 by (simp add: powi_neg)
    have p2: "(2::rat) powi (- ?b + 1) = 1 / 2 ^ nat (?b - 1)"
    proof -
      have "- ?b + 1 = - (?b - 1)" by simp
      moreover have "0 \<le> ?b - 1" using b1 by simp
      ultimately show ?thesis
        using powi_neg [of "?b - 1"] by simp
    qed
    have 1: "1 / 2 ^ nat ?b \<le> a"
    proof -
      from u assms have "1 \<le> 2 ^ nat ?b * a" by (simp add: field_simps)
      then show ?thesis by (simp add: field_simps)
    qed
    have 2: "a < 1 / 2 ^ nat (?b - 1)"
    proof -
      from l assms have "2 ^ nat (?b - 1) * a < 1" by (simp add: field_simps)
      then show ?thesis by (simp add: field_simps)
    qed
    show ?thesis unfolding e p1 p2 using 1 2 by simp
  qed
  then show "2 powi ilog2 a \<le> a" "a < 2 powi (ilog2 a + 1)" by simp_all
qed

lemma fl_zero [simp]: "fl 0 = 0"
  by (simp add: fl_def)

lemma fl_minus: "fl (- x) = - fl x"
  by (simp add: fl_def sgn_minus)


lemma ulp_pos: "0 < ulp x"
  by (simp add: ulp_def)

lemma fl_pos_eq: "0 < x \<Longrightarrow> fl x = of_int (rne (x / ulp x)) * ulp x"
  by (simp add: fl_def ulp_def)

lemma ulp_bounds:
  assumes "0 < x"
  shows "2 ^ 52 * ulp x \<le> x" "x < 2 ^ 53 * ulp x"
proof -
  have a: "(2::rat) powi ilog2 x = 2 ^ 52 * ulp x"
  proof -
    have "ilog2 x = 52 + (ilog2 x - 52)" by simp
    then have "(2::rat) powi ilog2 x = 2 powi (52 + (ilog2 x - 52))" by (rule arg_cong)
    also have "\<dots> = 2 powi 52 * 2 powi (ilog2 x - 52)" by (rule power_int_add) simp
    finally show ?thesis using assms by (simp add: ulp_def)
  qed
  have b: "(2::rat) powi (ilog2 x + 1) = 2 ^ 53 * ulp x"
  proof -
    have "ilog2 x + 1 = 53 + (ilog2 x - 52)" by simp
    then have "(2::rat) powi (ilog2 x + 1) = 2 powi (53 + (ilog2 x - 52))" by (rule arg_cong)
    also have "\<dots> = 2 powi 53 * 2 powi (ilog2 x - 52)" by (rule power_int_add) simp
    finally show ?thesis using assms by (simp add: ulp_def)
  qed
  from ilog2_bounds [OF assms] a b show "2 ^ 52 * ulp x \<le> x" "x < 2 ^ 53 * ulp x" by simp_all
qed

lemma fl_error_pos:
  assumes "0 < x"
  shows "\<bar>fl x - x\<bar> \<le> x / 2 ^ 53"
proof -
  let ?u = "ulp x"
  have u: "0 < ?u" by (rule ulp_pos)
  have "\<bar>of_int (rne (x / ?u)) - x / ?u\<bar> \<le> 1 / 2" by (rule rne_err)
  then have "\<bar>of_int (rne (x / ?u)) - x / ?u\<bar> * ?u \<le> 1 / 2 * ?u"
    using u by (intro mult_right_mono) simp_all
  moreover have "\<bar>of_int (rne (x / ?u)) - x / ?u\<bar> * ?u = \<bar>of_int (rne (x / ?u)) * ?u - x\<bar>"
  proof -
    have "\<bar>of_int (rne (x / ?u)) - x / ?u\<bar> * ?u = \<bar>(of_int (rne (x / ?u)) - x / ?u) * ?u\<bar>"
      using u by (simp add: abs_mult)
    also have "(of_int (rne (x / ?u)) - x / ?u) * ?u = of_int (rne (x / ?u)) * ?u - x"
      using u by (simp add: left_diff_distrib)
    finally show ?thesis .
  qed
  ultimately have "\<bar>fl x - x\<bar> \<le> ?u / 2" using assms by (simp add: fl_pos_eq)
  moreover have "?u / 2 \<le> x / 2 ^ 53" using ulp_bounds(1) [OF assms] by simp
  ultimately show ?thesis by linarith
qed

lemma fl_error: "\<bar>fl x - x\<bar> \<le> \<bar>x\<bar> / 2 ^ 53"
proof (cases "0 < x")
  case True
  then show ?thesis using fl_error_pos [of x] by simp
next
  case False
  show ?thesis
  proof (cases "x = 0")
    case True
    then show ?thesis by simp
  next
    case f: False
    with False have n: "0 < - x" by simp
    have "\<bar>fl x - x\<bar> = \<bar>fl (- x) - (- x)\<bar>" by (simp add: fl_minus)
    also have "\<dots> \<le> (- x) / 2 ^ 53" using n by (rule fl_error_pos)
    finally show ?thesis using n by simp
  qed
qed

lemma fl_ge_int_pos:
  assumes "of_int n \<le> x" "0 < n" "n \<le> 2 ^ 53"
  shows "of_int n \<le> fl x"
proof -
  have x: "0 < x" using assms(1,2) by (meson less_le_trans of_int_0_less_iff)
  let ?u = "ulp x"
  have u: "0 < ?u" by (rule ulp_pos)
  let ?e = "ilog2 \<bar>x\<bar> - 52"
  show ?thesis
  proof (cases "?e \<le> 0")
    case True
    then have "?u = 1 / 2 ^ nat (- ?e)"
      using powi_neg [of "- ?e"] by (simp add: ulp_def)
    then have d: "of_int n / ?u = of_int (n * 2 ^ nat (- ?e))" by simp
    have "of_int n / ?u \<le> x / ?u" using assms(1) u by (simp add: divide_right_mono)
    then have "n * 2 ^ nat (- ?e) \<le> rne (x / ?u)" unfolding d by (rule rne_ge_int)
    then have "(of_int (n * 2 ^ nat (- ?e)) :: rat) \<le> of_int (rne (x / ?u))"
      by (simp only: of_int_le_iff)
    then have "of_int n / ?u \<le> of_int (rne (x / ?u))" by (simp only: d)
    then have "of_int n \<le> of_int (rne (x / ?u)) * ?u" using u by (simp add: pos_divide_le_eq)
    then show ?thesis using x by (simp add: fl_pos_eq)
  next
    case False
    then have "1 \<le> ?e" by simp
    then have "(2::rat) powi 1 \<le> 2 powi ?e" by (intro power_int_increasing) simp_all
    then have u2: "2 \<le> ?u" by (simp add: ulp_def)
    have "(2::rat) ^ 52 \<le> x / ?u" using ulp_bounds(1) [OF x] u by (simp add: pos_le_divide_eq)
    then have "of_int (2 ^ 52) \<le> x / ?u" by simp
    then have "2 ^ 52 \<le> rne (x / ?u)" by (rule rne_ge_int)
    then have "(of_int (2 ^ 52) :: rat) \<le> of_int (rne (x / ?u))" by (simp only: of_int_le_iff)
    then have m: "(2::rat) ^ 52 \<le> of_int (rne (x / ?u))" by simp
    have "(2::rat) ^ 52 * 2 \<le> of_int (rne (x / ?u)) * ?u"
      using m u2 by (intro mult_mono) simp_all
    moreover have "(of_int n :: rat) \<le> of_int (2 ^ 53)" using assms(3) by (simp only: of_int_le_iff)
    ultimately have "of_int n \<le> of_int (rne (x / ?u)) * ?u" by simp
    then show ?thesis using x by (simp add: fl_pos_eq)
  qed
qed

lemma fl_nonneg: "0 \<le> x \<Longrightarrow> 0 \<le> fl x"
proof -
  assume "0 \<le> x"
  have "0 \<le> fl x" if "0 < x"
  proof -
    have "0 \<le> x / ulp x" using that ulp_pos [of x] by simp
    then have "of_int 0 \<le> x / ulp x" by simp
    then have "0 \<le> rne (x / ulp x)" by (rule rne_ge_int)
    then show ?thesis using that ulp_pos [of x] by (simp add: fl_pos_eq)
  qed
  with \<open>0 \<le> x\<close> show ?thesis by (cases "x = 0") auto
qed

lemma fl_nonpos: "x \<le> 0 \<Longrightarrow> fl x \<le> 0"
  using fl_nonneg [of "- x"] by (simp add: fl_minus)

lemma fl_abs: "fl \<bar>x\<bar> = \<bar>fl x\<bar>"
proof (cases "0 \<le> x")
  case True
  then show ?thesis using fl_nonneg [of x] by simp
next
  case False
  then have "fl x \<le> 0" by (intro fl_nonpos) simp
  with False show ?thesis by (simp add: fl_minus)
qed

lemma fl_of_int_pos:
  assumes "0 < k" "k < 2 ^ 53"
  shows "fl (of_int k) = of_int k"
proof -
  let ?x = "of_int k :: rat"
  have x: "0 < ?x" using assms(1) by simp
  let ?e = "ilog2 \<bar>?x\<bar> - 52"
  have "2 ^ 52 * ulp ?x \<le> ?x" by (rule ulp_bounds(1) [OF x])
  moreover have "?x < 2 ^ 53"
  proof -
    have "?x < of_int (2 ^ 53)" using assms(2) by (simp only: of_int_less_iff)
    then show ?thesis by simp
  qed
  ultimately have "ulp ?x < 2" by simp
  have e: "?e \<le> 0"
  proof (rule ccontr)
    assume "\<not> ?e \<le> 0"
    then have "1 \<le> ?e" by simp
    then have "(2::rat) powi 1 \<le> 2 powi ?e" by (intro power_int_increasing) simp_all
    then have "2 \<le> ulp ?x" by (simp add: ulp_def)
    with \<open>ulp ?x < 2\<close> show False by simp
  qed
  then have "ulp ?x = 1 / 2 ^ nat (- ?e)"
    using powi_neg [of "- ?e"] by (simp add: ulp_def)
  then have d: "?x / ulp ?x = of_int (k * 2 ^ nat (- ?e))" by simp
  have "rne (?x / ulp ?x) = k * 2 ^ nat (- ?e)" unfolding d by (rule rne_of_int)
  then have "of_int (rne (?x / ulp ?x)) = ?x / ulp ?x" by (simp only: d)
  then have "of_int (rne (?x / ulp ?x)) * ulp ?x = ?x" using ulp_pos [of ?x] by simp
  then show ?thesis using x by (simp only: fl_pos_eq)
qed

lemma fl_of_int: "\<bar>k\<bar> < 2 ^ 53 \<Longrightarrow> fl (of_int k) = of_int k"
proof -
  assume a: "\<bar>k\<bar> < 2 ^ 53"
  consider "0 < k" | "k = 0" | "k < 0" by linarith
  then show ?thesis
  proof cases
    case 1
    with a show ?thesis by (intro fl_of_int_pos) simp_all
  next
    case 2
    then show ?thesis by simp
  next
    case 3
    with a have "fl (of_int (- k)) = of_int (- k)" by (intro fl_of_int_pos) simp_all
    then show ?thesis by (simp add: fl_minus)
  qed
qed

lemma round2_cents_of: "round2 v = cents (centavos v)"
  by (simp add: round2_def cents_def)

lemma math_round_near:
  assumes "\<bar>t - of_int m\<bar> < 1 / 2"
  shows "math_round t = m"
proof -
  from assms have "of_int m \<le> t + 1 / 2" "t + 1 / 2 < of_int m + 1" by linarith+
  then show ?thesis unfolding math_round_def by (rule floor_unique)
qed

lemma fl_abs_error:
  assumes "\<bar>x\<bar> \<le> b"
  shows "\<bar>fl x - x\<bar> \<le> b / 2 ^ 53"
proof -
  have "\<bar>fl x - x\<bar> \<le> \<bar>x\<bar> / 2 ^ 53" by (rule fl_error)
  also have "\<dots> \<le> b / 2 ^ 53" using assms by (rule divide_right_mono) simp
  finally show ?thesis .
qed

lemma of_int_abs_le: "\<bar>n\<bar> \<le> m \<Longrightarrow> \<bar>of_int n :: rat\<bar> \<le> of_int m"
proof -
  assume "\<bar>n\<bar> \<le> m"
  then have "(of_int \<bar>n\<bar> :: rat) \<le> of_int m" by (simp only: of_int_le_iff)
  then show ?thesis by simp
qed

lemma centavos_near:
  assumes "\<bar>w - of_int n / 100\<bar> \<le> 1 / 131072" "\<bar>n\<bar> \<le> 1099511627776"
  shows "centavos w = n"
proof -
  have n: "\<bar>of_int n :: rat\<bar> \<le> 1099511627776"
    using of_int_abs_le [OF assms(2)] by simp
  have w: "\<bar>w\<bar> \<le> 17179869184" using assms(1) n by linarith
  have "\<bar>fl w - w\<bar> \<le> 17179869184 / 2 ^ 53" using w by (rule fl_abs_error)
  then have 1: "\<bar>fl w - w\<bar> \<le> 1 / 524288" by simp
  have 2: "\<bar>fl w * 100 - of_int n\<bar> \<le> 1 / 512"
    using 1 assms(1) by linarith
  have "\<bar>fl w * 100\<bar> \<le> 2199023255552" using 2 n by linarith
  then have "\<bar>fl (fl w * 100) - fl w * 100\<bar> \<le> 2199023255552 / 2 ^ 53" by (rule fl_abs_error)
  then have 3: "\<bar>fl (fl w * 100) - fl w * 100\<bar> \<le> 1 / 4096" by simp
  have "\<bar>fl (fl w * 100) - of_int n\<bar> < 1 / 2"
    using 2 3 by linarith
  then show ?thesis unfolding centavos_def by (rule math_round_near)
qed

lemma cents_error:
  assumes "\<bar>n\<bar> \<le> 1099511627776"
  shows "\<bar>cents n - of_int n / 100\<bar> \<le> 1 / 524288"
proof -
  have "\<bar>of_int n :: rat\<bar> \<le> 1099511627776" using of_int_abs_le [OF assms] by simp
  then have "\<bar>of_int n / 100 :: rat\<bar> \<le> 17179869184" by linarith
  then have "\<bar>fl (of_int n / 100) - of_int n / 100\<bar> \<le> 17179869184 / 2 ^ 53" by (rule fl_abs_error)
  then show ?thesis by (simp add: cents_def)
qed

lemma centavos_cents: "\<bar>n\<bar> \<le> 1099511627776 \<Longrightarrow> centavos (cents n) = n"
proof -
  assume a: "\<bar>n\<bar> \<le> 1099511627776"
  from cents_error [OF a] have "\<bar>cents n - of_int n / 100\<bar> \<le> 1 / 131072" by linarith
  then show ?thesis using a by (rule centavos_near)
qed

lemma round2_cents: "\<bar>n\<bar> \<le> 1099511627776 \<Longrightarrow> round2 (cents n) = cents n"
  by (simp add: round2_cents_of centavos_cents)

lemma centavos_add:
  assumes "\<bar>a\<bar> + \<bar>b\<bar> \<le> 1099511627776"
  shows "centavos (fl (cents a + cents b)) = a + b"
proof -
  have a: "\<bar>a\<bar> \<le> 1099511627776" and b: "\<bar>b\<bar> \<le> 1099511627776"
    and ab: "\<bar>a + b\<bar> \<le> 1099511627776"
    using assms by linarith+
  define N :: rat where "N = of_int (a + b)"
  have n: "\<bar>N\<bar> \<le> 1099511627776" unfolding N_def using of_int_abs_le [OF ab] by simp
  note ea = cents_error [OF a] and eb = cents_error [OF b]
  have d: "N / 100 = of_int a / 100 + of_int b / 100"
    by (simp add: N_def add_divide_distrib)
  have s: "\<bar>cents a + cents b - N / 100\<bar> \<le> 1 / 262144"
    unfolding d using ea eb by linarith
  have "\<bar>cents a + cents b\<bar> \<le> 17179869184"
    using s n by linarith
  then have "\<bar>fl (cents a + cents b) - (cents a + cents b)\<bar> \<le> 17179869184 / 2 ^ 53"
    by (rule fl_abs_error)
  then have "\<bar>fl (cents a + cents b) - (cents a + cents b)\<bar> \<le> 1 / 524288" by simp
  with s have "\<bar>fl (cents a + cents b) - N / 100\<bar> \<le> 1 / 131072"
    by linarith
  then show ?thesis unfolding N_def using ab by (rule centavos_near)
qed

lemma cents_abs: "cents \<bar>k\<bar> = \<bar>cents k\<bar>"
proof -
  have "(of_int \<bar>k\<bar> :: rat) / 100 = \<bar>of_int k / 100\<bar>" by simp
  then show ?thesis by (simp only: cents_def fl_abs)
qed

lemma math_round_zero [simp]: "math_round 0 = 0"
proof -
  have "\<bar>(0::rat) - of_int 0\<bar> < 1 / 2" by simp
  then show ?thesis by (rule math_round_near)
qed

lemma centavos_zero [simp]: "centavos 0 = 0"
  by (simp add: centavos_def)

lemma round2_zero [simp]: "round2 0 = 0"
  by (simp add: round2_def)

lemma math_round_nonneg: "0 \<le> x \<Longrightarrow> 0 \<le> math_round x"
  unfolding math_round_def by simp

lemma centavos_nonneg: "0 \<le> v \<Longrightarrow> 0 \<le> centavos v"
  unfolding centavos_def
  by (intro math_round_nonneg fl_nonneg mult_nonneg_nonneg) simp_all

lemma cents_nonneg: "0 \<le> n \<Longrightarrow> 0 \<le> cents n"
  unfolding cents_def by (intro fl_nonneg) simp

lemma round2_nonneg: "0 \<le> v \<Longrightarrow> 0 \<le> round2 v"
  by (simp add: round2_cents_of cents_nonneg centavos_nonneg)

lemma round2_of_int: "\<bar>n\<bar> \<le> 8589934592 \<Longrightarrow> round2 (of_int n) = of_int n"
proof -
  assume a: "\<bar>n\<bar> \<le> 8589934592"
  then have b: "\<bar>n * 100\<bar> \<le> 1099511627776" by linarith
  have "\<bar>(of_int n :: rat) - of_int (n * 100) / 100\<bar> \<le> 1 / 131072" by simp
  then have "centavos (of_int n) = n * 100" using b by (rule centavos_near)
  then have "round2 (of_int n) = fl (of_int n)" by (simp add: round2_def)
  also have "\<dots> = of_int n" using a by (intro fl_of_int) simp
  finally show ?thesis .
qed

lemma fl_times100_error: "\<bar>fl (fl a * 100) - a * 100\<bar> \<le> \<bar>a * 100\<bar> / 2 ^ 51"
proof -
  have "\<bar>fl a - a\<bar> \<le> \<bar>a\<bar> / 2 ^ 53" by (rule fl_error)
  then have 1: "\<bar>fl a - a\<bar> \<le> \<bar>a\<bar> / 9007199254740992" by simp
  have "\<bar>fl (fl a * 100) - fl a * 100\<bar> \<le> \<bar>fl a * 100\<bar> / 2 ^ 53" by (rule fl_error)
  then have 2: "\<bar>fl (fl a * 100) - fl a * 100\<bar> \<le> \<bar>fl a * 100\<bar> / 9007199254740992" by simp
  have "\<bar>fl (fl a * 100) - a * 100\<bar> \<le> \<bar>a * 100\<bar> / 2251799813685248"
    using 1 2 by linarith
  then show ?thesis by simp
qed

lemma fl_ge_1: "1 \<le> x \<Longrightarrow> 1 \<le> fl x"
  using fl_ge_int_pos [of 1 x] by simp

lemma fl_ge_100: "100 \<le> x \<Longrightarrow> 100 \<le> fl x"
  using fl_ge_int_pos [of 100 x] by simp

lemma fl_pct_ge_100:
  assumes "0 < b" "b \<le> s"
  shows "100 \<le> fl (fl (s / b) * 100)"
proof -
  from assms have "1 \<le> s / b" by simp
  then have "1 \<le> fl (s / b)" by (rule fl_ge_1)
  then have "100 \<le> fl (s / b) * 100" by simp
  then show ?thesis by (rule fl_ge_100)
qed

section \<open>Auxiliary facts: rounding and the calendar\<close>

lemma floor_rat_numeral [simp]: "\<lfloor>numeral a / numeral b :: rat\<rfloor> = numeral a div numeral b"
  using floor_divide_of_int_eq [of "numeral a" "numeral b", where ?'a = rat] by simp

lemma floor_rat_one_numeral [simp]: "\<lfloor>1 / numeral b :: rat\<rfloor> = 1 div numeral b"
  using floor_divide_of_int_eq [of 1 "numeral b", where ?'a = rat] by simp

lemma floor_rat_neg_numeral [simp]:
  "\<lfloor>- (numeral a / numeral b) :: rat\<rfloor> = - numeral a div numeral b"
  using floor_divide_of_int_eq [of "- numeral a" "numeral b", where ?'a = rat] by simp

lemma ceil_div_step:
  fixes y n :: int
  assumes n: "0 < n"
  shows "(y + n) div n - (y + (n - 1)) div n = (if y mod n = 0 then 1 else 0)"
proof -
  have n0: "n \<noteq> 0" using n by simp
  have a: "(y + n) div n = y div n + 1" using n0 by simp
  have y: "y div n * n + y mod n = y" by (rule div_mult_mod_eq)
  have split: "y + (n - 1) = (y mod n + (n - 1)) + (y div n) * n"
    using y by linarith
  have b: "(y + (n - 1)) div n = y div n + (y mod n + (n - 1)) div n"
    unfolding split by (rule div_mult_self1 [OF n0])
  have lo: "0 \<le> y mod n" and hi: "y mod n < n" using n by simp_all
  show ?thesis
  proof (cases "y mod n = 0")
    case True
    have "(n - 1) div n = 0" using n by (intro div_pos_pos_trivial) simp_all
    with a b True show ?thesis by simp
  next
    case False
    with lo have r: "1 \<le> y mod n" by linarith
    have s2: "y mod n + (n - 1) = (y mod n - 1) + 1 * n" by simp
    have "(y mod n + (n - 1)) div n = 1 + (y mod n - 1) div n"
      unfolding s2 by (rule div_mult_self1 [OF n0])
    moreover have "(y mod n - 1) div n = 0" using r hi by (intro div_pos_pos_trivial) simp_all
    ultimately show ?thesis using a b False by simp
  qed
qed

lemma days_before_year_Suc:
  "days_before_year (y + 1) = days_before_year y + (if is_leap y then 366 else 365)"
proof -
  have 4: "(y + 4) div 4 - (y + 3) div 4 = (if y mod 4 = 0 then 1 else 0)"
    using ceil_div_step [of 4 y] by simp
  have 100: "(y + 100) div 100 - (y + 99) div 100 = (if y mod 100 = 0 then 1 else 0)"
    using ceil_div_step [of 100 y] by simp
  have 400: "(y + 400) div 400 - (y + 399) div 400 = (if y mod 400 = 0 then 1 else 0)"
    using ceil_div_step [of 400 y] by simp
  have m1: "y mod 400 = 0 \<Longrightarrow> y mod 100 = 0"
  proof -
    assume h: "y mod 400 = 0"
    have "y mod 100 = (y mod 400) mod 100" by (simp add: mod_mod_cancel)
    with h show ?thesis by simp
  qed
  have m2: "y mod 100 = 0 \<Longrightarrow> y mod 4 = 0"
  proof -
    assume h: "y mod 100 = 0"
    have "y mod 4 = (y mod 100) mod 4" by (simp add: mod_mod_cancel)
    with h show ?thesis by simp
  qed
  define c4 :: int where "c4 = (if y mod 4 = 0 then 1 else 0)"
  define c100 :: int where "c100 = (if y mod 100 = 0 then 1 else 0)"
  define c400 :: int where "c400 = (if y mod 400 = 0 then 1 else 0)"
  have s4: "(y + 1 + 3) div 4 = (y + 3) div 4 + c4"
    using 4 by (simp add: c4_def add.commute add.left_commute)
  have s100: "(y + 1 + 99) div 100 = (y + 99) div 100 + c100"
    using 100 by (simp add: c100_def add.commute add.left_commute)
  have s400: "(y + 1 + 399) div 400 = (y + 399) div 400 + c400"
    using 400 by (simp add: c400_def add.commute add.left_commute)
  have leap: "c4 - c100 + c400 = (if is_leap y then 1 else 0)"
  proof (cases "y mod 400 = 0")
    case True
    with m1 m2 show ?thesis by (simp add: c4_def c100_def c400_def is_leap_def)
  next
    case False
    then show ?thesis using m2 by (cases "y mod 100 = 0") (simp_all add: c4_def c100_def c400_def is_leap_def)
  qed
  have "days_before_year (y + 1) = days_before_year y + 365 + (c4 - c100 + c400)"
    unfolding days_before_year_def s4 s100 s400 by (simp add: algebra_simps)
  then show ?thesis using leap by simp
qed

lemma days_before_month_12: "days_before_month y 12 = (if is_leap y then 366 else 365)"
  by (simp add: eval_nat_numeral days_in_month_def)

lemma days_before_month_11: "days_before_month y 11 = (if is_leap y then 335 else 334)"
  by (simp add: eval_nat_numeral days_in_month_def)

lemma days_before_month_step:
  "0 \<le> m \<Longrightarrow> days_before_month y (nat (m + 1)) = days_before_month y (nat m) + days_in_month y m"
  by (simp add: nat_add_distrib)

lemma normalise_day_number:
  "0 \<le> m \<Longrightarrow> m \<le> 11 \<Longrightarrow> normalise y m d = (y', m', d') \<Longrightarrow>
     day_number y' m' d' = day_number y m d \<and> 0 \<le> m' \<and> m' \<le> 11 \<and> 1 \<le> d' \<and> d' \<le> days_in_month y' m'"
proof (induction y m d rule: normalise.induct)
  case (1 y m d)
  have range: "\<not> (m < 0 \<or> 11 < m)" using "1.prems" by simp
  consider (low0) "d < 1" "m = 0" | (low) "d < 1" "m \<noteq> 0"
    | (high11) "\<not> d < 1" "days_in_month y m < d" "m = 11"
    | (high) "\<not> d < 1" "days_in_month y m < d" "m \<noteq> 11"
    | (ok) "\<not> d < 1" "\<not> days_in_month y m < d"
    by blast
  then show ?case
  proof cases
    case low0
    have eq: "normalise (y - 1) 11 (d + 31) = (y', m', d')"
      using "1.prems"(3) range low0 by (subst (asm) normalise.simps) simp
    have "day_number (y - 1) 11 (d + 31) = day_number y m d"
      using days_before_year_Suc [of "y - 1"] low0
      by (simp add: day_number_def days_before_month_11)
    with "1.IH"(2) [OF range low0 _ _ eq] show ?thesis by simp
  next
    case low
    have m1: "0 \<le> m - 1" "m - 1 \<le> 11" using "1.prems" low by auto
    have eq: "normalise y (m - 1) (d + days_in_month y (m - 1)) = (y', m', d')"
      using "1.prems"(3) range low by (subst (asm) normalise.simps) simp
    have "day_number y (m - 1) (d + days_in_month y (m - 1)) = day_number y m d"
      using days_before_month_step [of "m - 1" y] m1
      by (simp add: day_number_def)
    with "1.IH"(3) [OF range low m1 eq] show ?thesis by simp
  next
    case high11
    have eq: "normalise (y + 1) 0 (d - 31) = (y', m', d')"
      using "1.prems"(3) range high11 by (subst (asm) normalise.simps) simp
    have "day_number (y + 1) 0 (d - 31) = day_number y m d"
      using days_before_year_Suc [of y] high11
      by (simp add: day_number_def days_before_month_11)
    with "1.IH"(4) [OF range high11 _ _ eq] show ?thesis by simp
  next
    case high
    have m1: "0 \<le> m + 1" "m + 1 \<le> 11" using "1.prems" high by auto
    have eq: "normalise y (m + 1) (d - days_in_month y m) = (y', m', d')"
      using "1.prems"(3) range high by (subst (asm) normalise.simps) simp
    have "day_number y (m + 1) (d - days_in_month y m) = day_number y m d"
      using days_before_month_step [of m y] "1.prems"
      by (simp add: day_number_def)
    with "1.IH"(5) [OF range high m1 eq] show ?thesis by simp
  next
    case ok
    have "normalise y m d = (y, m, d)"
      using range ok by (subst normalise.simps) simp
    with "1.prems" ok show ?thesis by auto
  qed
qed


lemma percentualUsado_Fin:
  "percentualUsado l =
     Fin (if get_valorLimite l = 0 then 0
          else min (fl (fl (get_valorGasto l / get_valorLimite l) * 100)) 100)"
  by (simp add: percentualUsado_def)

lemma make_date_setDate:
  assumes "valid_date t"
  shows "time_value (setDate t (d_day t + k)) = time_value t + k * 86400000"
    and "valid_date (setDate t (d_day t + k))"
proof -
  obtain y' m' d' where n: "normalise (d_year t) (d_month t) (d_day t + k) = (y', m', d')"
    by (cases "normalise (d_year t) (d_month t) (d_day t + k)") auto
  from assms have r: "0 \<le> d_month t" "d_month t \<le> 11" by (simp_all add: valid_date_def)
  note dn = normalise_day_number [OF r n]
  have sd: "setDate t (d_day t + k) = \<lparr>d_year = y', d_month = m', d_day = d', d_ms = d_ms t\<rparr>"
    by (simp add: setDate_def make_date_def n)
  have "day_number y' m' d' = day_number (d_year t) (d_month t) (d_day t) + k"
    using dn by (simp add: day_number_def)
  then show "time_value (setDate t (d_day t + k)) = time_value t + k * 86400000"
    by (simp add: time_value_def sd ring_distribs)
  show "valid_date (setDate t (d_day t + k))"
    using dn assms by (simp add: valid_date_def sd)
qed

lemma days_in_month_bounds: "28 \<le> days_in_month y m" "days_in_month y m \<le> 31"
  by (simp_all add: days_in_month_def)

lemma normalise_in_range:
  "0 \<le> m \<Longrightarrow> m \<le> 11 \<Longrightarrow> 1 \<le> d \<Longrightarrow> d \<le> days_in_month y m \<Longrightarrow> normalise y m d = (y, m, d)"
  by (subst normalise.simps) simp

lemma normalise_overflow:
  assumes "0 \<le> m" "m < 11" "days_in_month y m < d" "d \<le> 31"
  shows "normalise y m d = (y, m + 1, d - days_in_month y m)"
proof -
  have "\<not> d < 1" using assms days_in_month_bounds(1) [of y m] by linarith
  then have 1: "normalise y m d = normalise y (m + 1) (d - days_in_month y m)"
    using assms by (subst normalise.simps) simp
  have "d - days_in_month y m \<le> 3" using assms days_in_month_bounds(1) [of y m] by linarith
  then have "d - days_in_month y m \<le> days_in_month y (m + 1)"
    using days_in_month_bounds(1) [of y "m + 1"] by linarith
  then show ?thesis using assms 1 by (simp add: normalise_in_range)
qed

lemma setMonth_next:
  assumes "valid_date t"
  shows "setMonth t (d_month t + 1) =
     (let y' = (if d_month t = 11 then d_year t + 1 else d_year t);
          m' = (if d_month t = 11 then 0 else d_month t + 1)
      in if d_day t \<le> days_in_month y' m'
         then t\<lparr>d_year := y', d_month := m'\<rparr>
         else t\<lparr>d_year := y', d_month := m' + 1, d_day := d_day t - days_in_month y' m'\<rparr>)"
proof (cases "d_month t = 11")
  case True
  have "normalise (d_year t) 12 (d_day t) = normalise (d_year t + 1) 0 (d_day t)"
    by (subst normalise.simps) simp
  also have "\<dots> = (d_year t + 1, 0, d_day t)"
    using assms True by (intro normalise_in_range) (simp_all add: valid_date_def days_in_month_def)
  finally show ?thesis using True assms
    by (simp add: setMonth_def make_date_def valid_date_def days_in_month_def)
next
  case False
  with assms have r: "0 \<le> d_month t + 1" "d_month t + 1 \<le> 11" "1 \<le> d_day t" "d_day t \<le> 31"
    using days_in_month_bounds(2) [of "d_year t" "d_month t"] by (auto simp: valid_date_def)
  show ?thesis
  proof (cases "d_day t \<le> days_in_month (d_year t) (d_month t + 1)")
    case True
    with r False show ?thesis
      by (simp add: setMonth_def make_date_def normalise_in_range)
  next
    case over: False
    then have "d_month t + 1 \<noteq> 11" using r by (auto simp: days_in_month_def)
    with r have "d_month t + 1 < 11" by simp
    with r over have "normalise (d_year t) (d_month t + 1) (d_day t) =
        (d_year t, d_month t + 1 + 1, d_day t - days_in_month (d_year t) (d_month t + 1))"
      by (intro normalise_overflow) simp_all
    with False over show ?thesis by (simp add: setMonth_def make_date_def)
  qed
qed

lemma setFullYear_next:
  assumes "valid_date t"
  shows "setFullYear t (d_year t + 1) =
     (if d_month t = 1 \<and> d_day t = 29 \<and> \<not> is_leap (d_year t + 1)
      then t\<lparr>d_year := d_year t + 1, d_month := 2, d_day := 1\<rparr>
      else t\<lparr>d_year := d_year t + 1\<rparr>)"
proof (cases "d_day t \<le> days_in_month (d_year t + 1) (d_month t)")
  case True
  with assms have "normalise (d_year t + 1) (d_month t) (d_day t) = (d_year t + 1, d_month t, d_day t)"
    by (intro normalise_in_range) (simp_all add: valid_date_def)
  moreover have "\<not> (d_month t = 1 \<and> d_day t = 29 \<and> \<not> is_leap (d_year t + 1))"
    using True by (auto simp: days_in_month_def split: if_splits)
  ultimately show ?thesis by (simp add: setFullYear_def make_date_def)
next
  case False
  with assms have feb: "d_month t = 1 \<and> d_day t = 29 \<and> \<not> is_leap (d_year t + 1)"
    by (auto simp: valid_date_def days_in_month_def split: if_splits)
  then have "normalise (d_year t + 1) (d_month t) (d_day t) =
      (d_year t + 1, d_month t + 1, d_day t - days_in_month (d_year t + 1) (d_month t))"
    by (intro normalise_overflow) (simp_all add: days_in_month_def)
  with feb show ?thesis by (simp add: setFullYear_def make_date_def days_in_month_def)
qed

section \<open>Auxiliary facts: the save hook\<close>

lemma sync_categoria_fields [simp]:
  "limit_id (sync_categoria l) = limit_id l"
  "limit_user (sync_categoria l) = limit_user l"
  "limit_nome (sync_categoria l) = limit_nome l"
  "limit_tipo (sync_categoria l) = limit_tipo l"
  "valorLimite (sync_categoria l) = valorLimite l"
  "valorGasto (sync_categoria l) = valorGasto l"
  "limit_periodo (sync_categoria l) = limit_periodo l"
  "limit_cartao (sync_categoria l) = limit_cartao l"
  "limit_cartaoId (sync_categoria l) = limit_cartaoId l"
  "limit_ativo (sync_categoria l) = limit_ativo l"
  "ultimoReset (sync_categoria l) = ultimoReset l"
  "proximoReset (sync_categoria l) = proximoReset l"
  by (simp_all add: sync_categoria_def)

lemma sync_cartao_fields [simp]:
  "limit_id (sync_cartao l) = limit_id l"
  "limit_user (sync_cartao l) = limit_user l"
  "limit_nome (sync_cartao l) = limit_nome l"
  "limit_tipo (sync_cartao l) = limit_tipo l"
  "valorLimite (sync_cartao l) = valorLimite l"
  "valorGasto (sync_cartao l) = valorGasto l"
  "limit_periodo (sync_cartao l) = limit_periodo l"
  "limit_categoria (sync_cartao l) = limit_categoria l"
  "limit_categoriaId (sync_cartao l) = limit_categoriaId l"
  "limit_ativo (sync_cartao l) = limit_ativo l"
  "ultimoReset (sync_cartao l) = ultimoReset l"
  "proximoReset (sync_cartao l) = proximoReset l"
  by (simp_all add: sync_cartao_def)

lemma proximoResetCalculado_cong:
  "ultimoReset a = ultimoReset b \<Longrightarrow> limit_periodo a = limit_periodo b \<Longrightarrow>
     proximoResetCalculado a = proximoResetCalculado b"
  by (simp add: proximoResetCalculado_def)

lemma pre_save_fields [simp]:
  "limit_id (pre_save l) = limit_id l"
  "limit_user (pre_save l) = limit_user l"
  "limit_nome (pre_save l) = limit_nome l"
  "limit_tipo (pre_save l) = limit_tipo l"
  "valorLimite (pre_save l) = valorLimite l"
  "valorGasto (pre_save l) = valorGasto l"
  "limit_periodo (pre_save l) = limit_periodo l"
  "limit_ativo (pre_save l) = limit_ativo l"
  "ultimoReset (pre_save l) = ultimoReset l"
  by (simp_all add: pre_save_def Let_def)

lemma pre_save_proximoReset:
  "proximoReset (pre_save l) = Some (proximoResetCalculado l)"
  by (simp add: pre_save_def Let_def proximoResetCalculado_cong [of "sync_cartao (sync_categoria l)" l])

lemma proximoResetCalculado_pre_save [simp]:
  "proximoResetCalculado (pre_save l) = proximoResetCalculado l"
  by (rule proximoResetCalculado_cong) simp_all

lemma proximoResetCalculado_update [simp]:
  "proximoResetCalculado (l\<lparr>proximoReset := p\<rparr>) = proximoResetCalculado l"
  "proximoResetCalculado (l\<lparr>valorGasto := v\<rparr>) = proximoResetCalculado l"
  by (simp_all add: proximoResetCalculado_def)

lemma validates_nome_cong: "limit_nome a = limit_nome b \<Longrightarrow> validates_nome a = validates_nome b"
  by (simp add: validates_nome_def)

lemma validates_nome_iff:
  "validates_nome l \<longleftrightarrow> (\<exists>n. limit_nome l = Some n \<and> n \<noteq> [] \<and> length n \<le> 100)"
  by (simp add: validates_nome_def split: option.splits)

lemma set_valorGasto_fields [simp]:
  "limit_id (set_valorGasto v l) = limit_id l"
  "limit_user (set_valorGasto v l) = limit_user l"
  "limit_nome (set_valorGasto v l) = limit_nome l"
  "limit_tipo (set_valorGasto v l) = limit_tipo l"
  "valorLimite (set_valorGasto v l) = valorLimite l"
  "valorGasto (set_valorGasto v l) = round2 v"
  "limit_periodo (set_valorGasto v l) = limit_periodo l"
  "limit_ativo (set_valorGasto v l) = limit_ativo l"
  "ultimoReset (set_valorGasto v l) = ultimoReset l"
  by (simp_all add: set_valorGasto_def)

lemma resetar_ok:
  assumes "validates_nome l" "0 \<le> valorLimite l"
  shows "\<exists>l'. resetar now l = Inr l' \<and> valorGasto l' = 0 \<and> ultimoReset l' = now
           \<and> limit_periodo l' = limit_periodo l \<and> limit_nome l' = limit_nome l
           \<and> valorLimite l' = valorLimite l
           \<and> proximoReset l' = Some (proximoResetCalculado l')"
proof -
  let ?l3 = "(set_valorGasto 0 l)\<lparr>ultimoReset := now,
      proximoReset := Some (proximoResetCalculado ((set_valorGasto 0 l)\<lparr>ultimoReset := now\<rparr>))\<rparr>"
  have n: "validates_nome ?l3 = validates_nome l" by (rule validates_nome_cong) simp
  have v: "limit_valid ?l3" using assms by (simp add: limit_valid_def n)
  have r: "resetar now l = Inr (pre_save ?l3)" using v by (simp add: resetar_def Let_def save_def)
  show ?thesis unfolding r by (simp add: pre_save_proximoReset)
qed

lemma resetar_fail:
  assumes "\<not> (validates_nome l \<and> 0 \<le> valorLimite l)"
  shows "resetar now l = Inl ValidationError"
proof -
  let ?l3 = "(set_valorGasto 0 l)\<lparr>ultimoReset := now,
      proximoReset := Some (proximoResetCalculado ((set_valorGasto 0 l)\<lparr>ultimoReset := now\<rparr>))\<rparr>"
  have n: "validates_nome ?l3 = validates_nome l" by (rule validates_nome_cong) simp
  have v: "\<not> limit_valid ?l3" using assms by (auto simp: limit_valid_def n)
  show ?thesis using v by (simp add: resetar_def Let_def save_def)
qed

section \<open>Auxiliary facts: accrual\<close>

lemma math_round_of_int [simp]: "math_round (of_int n) = n"
proof -
  have "\<bar>(of_int n :: rat) - of_int n\<bar> < 1 / 2" by simp
  then show ?thesis by (rule math_round_near)
qed

lemma somar_gasto_fields [simp]:
  "limit_id (somar_gasto v l) = limit_id l"
  "limit_user (somar_gasto v l) = limit_user l"
  "limit_nome (somar_gasto v l) = limit_nome l"
  "limit_tipo (somar_gasto v l) = limit_tipo l"
  "valorLimite (somar_gasto v l) = valorLimite l"
  "limit_ativo (somar_gasto v l) = limit_ativo l"
  "limit_periodo (somar_gasto v l) = limit_periodo l"
  "ultimoReset (somar_gasto v l) = ultimoReset l"
  by (simp_all add: somar_gasto_def)

lemma valorGasto_somar_gasto:
  "valorGasto (somar_gasto v l) = round2 (fl (get_valorGasto l + \<bar>v\<bar>))"
  by (simp add: somar_gasto_def)

lemma limit_valid_somar_gasto:
  assumes "limit_valid l"
  shows "limit_valid (somar_gasto v l)"
proof -
  have n: "validates_nome (somar_gasto v l) = validates_nome l"
    by (rule validates_nome_cong) simp
  from assms have "0 \<le> get_valorGasto l"
    by (simp add: limit_valid_def get_valorGasto_def round2_nonneg)
  then have "0 \<le> fl (get_valorGasto l + \<bar>v\<bar>)" by (intro fl_nonneg) simp
  then have "0 \<le> valorGasto (somar_gasto v l)"
    unfolding valorGasto_somar_gasto by (rule round2_nonneg)
  with assms n show ?thesis by (simp add: limit_valid_def)
qed

lemma limit_invalid_somar_gasto:
  assumes "\<not> validates_nome l \<or> valorLimite l < 0"
  shows "\<not> limit_valid (somar_gasto v l)"
proof -
  have n: "validates_nome (somar_gasto v l) = validates_nome l"
    by (rule validates_nome_cong) simp
  from assms show ?thesis by (auto simp: limit_valid_def n)
qed

lemma valorGasto_somar_cents:
  assumes "0 \<le> valorGasto l" "centavos (valorGasto l) + \<bar>k\<bar> \<le> 1099511627776"
  shows "valorGasto (somar_gasto (cents k) l) = cents (centavos (valorGasto l) + \<bar>k\<bar>)"
    and "centavos (valorGasto (somar_gasto (cents k) l)) = centavos (valorGasto l) + \<bar>k\<bar>"
proof -
  let ?c = "centavos (valorGasto l)"
  have c: "0 \<le> ?c" using assms(1) by (rule centavos_nonneg)
  then have b: "\<bar>?c\<bar> + \<bar>\<bar>k\<bar>\<bar> \<le> 1099511627776" using assms(2) by simp
  have "get_valorGasto l + \<bar>cents k\<bar> = cents ?c + cents \<bar>k\<bar>"
    by (simp add: get_valorGasto_def round2_cents_of cents_abs)
  then have "valorGasto (somar_gasto (cents k) l) = round2 (fl (cents ?c + cents \<bar>k\<bar>))"
    by (simp only: valorGasto_somar_gasto)
  also have "\<dots> = cents (centavos (fl (cents ?c + cents \<bar>k\<bar>)))" by (rule round2_cents_of)
  also have "centavos (fl (cents ?c + cents \<bar>k\<bar>)) = ?c + \<bar>k\<bar>" using b by (rule centavos_add)
  finally show 1: "valorGasto (somar_gasto (cents k) l) = cents (?c + \<bar>k\<bar>)" .
  have "\<bar>?c + \<bar>k\<bar>\<bar> \<le> 1099511627776" using c assms(2) by simp
  then show "centavos (valorGasto (somar_gasto (cents k) l)) = ?c + \<bar>k\<bar>"
    unfolding 1 by (rule centavos_cents)
qed

lemma add_gasto_Inr:
  "limit_valid (somar_gasto v l) \<Longrightarrow> add_gasto v l = Inr (pre_save (somar_gasto v l))"
  by (simp add: add_gasto_def save_def)

lemma add_gasto_Inl:
  "\<not> limit_valid (somar_gasto v l) \<Longrightarrow> add_gasto v l = Inl ValidationError"
  by (simp add: add_gasto_def save_def)

lemma map_replace_id:
  assumes "distinct (map limit_id (pre @ l # ls))" "limit_id l' = limit_id l"
  shows "map (\<lambda>x. if limit_id x = limit_id l' then l' else x) (pre @ l # ls) = pre @ l' # ls"
proof -
  from assms(1) have "limit_id l \<notin> limit_id ` set pre" "limit_id l \<notin> limit_id ` set ls"
    by simp_all
  then have p: "\<forall>x \<in> set pre. limit_id x \<noteq> limit_id l"
    and q: "\<forall>x \<in> set ls. limit_id x \<noteq> limit_id l"
    by (metis imageI)+
  have "map (\<lambda>x. if limit_id x = limit_id l then l' else x) pre = pre"
    using p by (intro map_idI) simp
  moreover have "map (\<lambda>x. if limit_id x = limit_id l then l' else x) ls = ls"
    using q by (intro map_idI) simp
  ultimately show ?thesis by (simp add: assms(2))
qed

lemma write_limit_at:
  assumes "limits s = pre @ l # ls" "distinct (map limit_id (pre @ l # ls))"
    "limit_id l' = limit_id l"
  shows "write_limit l' s = s\<lparr>limits := pre @ l' # ls\<rparr>"
  unfolding write_limit_def assms(1) map_replace_id [OF assms(2,3)] ..

lemma accrue_ok:
  assumes "distinct (map limit_id (pre @ ls))"
    "\<forall>l \<in> set ls. P l \<longrightarrow> limit_valid (somar_gasto v l)"
    "limits s = pre @ ls"
  shows "accrue v (filter P ls) s =
     (Inr (map (\<lambda>l. pre_save (somar_gasto v l)) (filter P ls)),
      s\<lparr>limits := pre @ map (\<lambda>l. if P l then pre_save (somar_gasto v l) else l) ls\<rparr>)"
  using assms
proof (induction ls arbitrary: pre s)
  case Nil
  then show ?case by simp
next
  case (Cons l ls)
  show ?case
  proof (cases "P l")
    case False
    have "accrue v (filter P ls) s =
       (Inr (map (\<lambda>l. pre_save (somar_gasto v l)) (filter P ls)),
        s\<lparr>limits := (pre @ [l]) @ map (\<lambda>l. if P l then pre_save (somar_gasto v l) else l) ls\<rparr>)"
      using Cons.prems by (intro Cons.IH) simp_all
    with False show ?thesis by simp
  next
    case True
    let ?l' = "pre_save (somar_gasto v l)"
    have a: "add_gasto v l = Inr ?l'" using Cons.prems(2) True by (simp add: add_gasto_Inr)
    have w: "write_limit ?l' s = s\<lparr>limits := pre @ ?l' # ls\<rparr>"
      using Cons.prems(3,1) by (rule write_limit_at) simp
    have d: "distinct (map limit_id ((pre @ [?l']) @ ls))" using Cons.prems(1) by simp
    have "accrue v (filter P ls) (write_limit ?l' s) =
       (Inr (map (\<lambda>l. pre_save (somar_gasto v l)) (filter P ls)),
        (write_limit ?l' s)\<lparr>limits :=
           (pre @ [?l']) @ map (\<lambda>l. if P l then pre_save (somar_gasto v l) else l) ls\<rparr>)"
      using d Cons.prems(2) by (intro Cons.IH) (simp_all add: w)
    with True a show ?thesis by (simp add: w)
  qed
qed

lemma accrue_fail:
  assumes "distinct (map limit_id (pre @ xs @ l # ys))"
    "\<forall>x \<in> set xs. P x \<longrightarrow> limit_valid (somar_gasto v x)"
    "P l" "\<not> limit_valid (somar_gasto v l)"
    "limits s = pre @ xs @ l # ys"
  shows "accrue v (filter P (xs @ l # ys)) s =
     (Inl ValidationError,
      s\<lparr>limits := pre @ map (\<lambda>x. if P x then pre_save (somar_gasto v x) else x) xs @ l # ys\<rparr>)"
  using assms
proof (induction xs arbitrary: pre s)
  case Nil
  have "add_gasto v l = Inl ValidationError" using Nil.prems(4) by (rule add_gasto_Inl)
  moreover have "s\<lparr>limits := pre @ l # ys\<rparr> = s" using Nil.prems(5) by simp
  ultimately show ?case using Nil.prems(3) by simp
next
  case (Cons x xs)
  show ?case
  proof (cases "P x")
    case False
    have "accrue v (filter P (xs @ l # ys)) s =
       (Inl ValidationError,
        s\<lparr>limits := (pre @ [x]) @ map (\<lambda>x. if P x then pre_save (somar_gasto v x) else x) xs
                       @ l # ys\<rparr>)"
      using Cons.prems by (intro Cons.IH) simp_all
    with False show ?thesis by simp
  next
    case True
    let ?x' = "pre_save (somar_gasto v x)"
    have a: "add_gasto v x = Inr ?x'" using Cons.prems(2) True by (simp add: add_gasto_Inr)
    have w: "write_limit ?x' s = s\<lparr>limits := pre @ ?x' # (xs @ l # ys)\<rparr>"
      using Cons.prems(5,1) by (intro write_limit_at) simp_all
    have d: "distinct (map limit_id ((pre @ [?x']) @ xs @ l # ys))" using Cons.prems(1) by simp
    have "accrue v (filter P (xs @ l # ys)) (write_limit ?x' s) =
       (Inl ValidationError,
        (write_limit ?x' s)\<lparr>limits :=
           (pre @ [?x']) @ map (\<lambda>x. if P x then pre_save (somar_gasto v x) else x) xs
             @ l # ys\<rparr>)"
      using d Cons.prems(2,3,4) by (intro Cons.IH) (simp_all add: w)
    with True a show ?thesis by (simp add: w)
  qed
qed

lemma updateFromTransactions_ok:
  assumes "distinct (map limit_id (limits s))"
    "\<forall>l \<in> set (limits s). applies_to userId categoriaId cartaoId l \<longrightarrow> limit_valid (somar_gasto v l)"
  shows "updateFromTransactions s userId categoriaId cartaoId v =
     (Inr (map (\<lambda>l. pre_save (somar_gasto v l))
             (filter (applies_to userId categoriaId cartaoId) (limits s))),
      s\<lparr>limits := map (\<lambda>l. if applies_to userId categoriaId cartaoId l
                             then pre_save (somar_gasto v l) else l) (limits s)\<rparr>)"
  using accrue_ok [of "[]" "limits s" "applies_to userId categoriaId cartaoId" v s] assms
  by (simp add: updateFromTransactions_def)

lemma updateFromTransactions_fail:
  assumes "distinct (map limit_id (limits s))"
    "limits s = xs @ l # ys"
    "\<forall>x \<in> set xs. applies_to userId categoriaId cartaoId x \<longrightarrow> limit_valid (somar_gasto v x)"
    "applies_to userId categoriaId cartaoId l" "\<not> limit_valid (somar_gasto v l)"
  shows "updateFromTransactions s userId categoriaId cartaoId v =
     (Inl ValidationError,
      s\<lparr>limits := map (\<lambda>x. if applies_to userId categoriaId cartaoId x
                             then pre_save (somar_gasto v x) else x) xs @ l # ys\<rparr>)"
  using accrue_fail [of "[]" xs l ys "applies_to userId categoriaId cartaoId" v s] assms
  by (simp add: updateFromTransactions_def)

section \<open>Auxiliary facts: the budget view\<close>

lemma round2_samples [simp]:
  "round2 80 = 80" "round2 300 = 300" "round2 500 = 500" "round2 550 = 550"
  "round2 1000 = 1000"
  by code_simp+

lemma fl_samples [simp]: "fl 300 = 300" "fl 360 = 360" "fl (- 50) = - 50"
  by code_simp+

lemma budget_percentage_samples [simp]:
  "budget_percentage 550 500 = 110" "budget_percentage 140 500 = 28"
  "budget_percentage 0 300 = 0"
  by code_simp+

lemma fold_gastos:
  "fold (\<lambda>t m. m(g_id t \<mapsto> (g_total t, g_count t)))
        (map (\<lambda>k. \<lparr>g_id = k, g_total = tot k, g_count = cnt k\<rparr>) ks) m0 k
     = (if k \<in> set ks then Some (tot k, cnt k) else m0 k)"
  by (induction ks arbitrary: m0) auto

lemma gastosPorCategoria_lookup:
  "gastosPorCategoria (group_by_categoria txs) k =
     (if k \<in> set (map tx_categoria txs)
      then Some (sum_list (map tx_valor (filter (\<lambda>t. tx_categoria t = k) txs)),
                 length (filter (\<lambda>t. tx_categoria t = k) txs))
      else None)"
  unfolding gastosPorCategoria_def group_by_categoria_def
  by (simp add: fold_gastos)







lemma month_jul15:
  "month_start jul15 = \<lparr>d_year = 2024, d_month = 6, d_day = 1, d_ms = 0\<rparr>"
  "month_end jul15 = \<lparr>d_year = 2024, d_month = 6, d_day = 31, d_ms = 86399000\<rparr>"
  by (simp_all add: month_start_def month_end_def jul15_def new_Date_def make_date_def
      normalise.simps days_in_month_def is_leap_def Let_def)

lemma in_range_jul15:
  "1 \<le> d \<Longrightarrow> d \<le> 31 \<Longrightarrow>
     in_range (month_start jul15) (month_end jul15) \<lparr>d_year = 2024, d_month = 6, d_day = d, d_ms = 0\<rparr>"
  by (simp add: month_jul15 in_range_def date_le_def time_value_def day_number_def)

lemma despesas_loja_food:
  "despesas_do_mes jul15 loja_food user_a (Some cat_food) = transactions loja_food"
  by (simp add: despesas_do_mes_def loja_food_def despesa_food_def in_range_jul15)

lemma despesas_loja_pendente:
  "despesas_do_mes jul15 loja_pendente user_a (Some cat_food) = transactions loja_pendente"
  by (simp add: despesas_do_mes_def loja_pendente_def despesa_food_def in_range_jul15)

lemma match_loja_food:
  "match_despesas loja_food user_a (month_start jul15) (month_end jul15) = transactions loja_food"
  by (simp add: match_despesas_def loja_food_def despesa_food_def in_range_jul15)


lemma categoria_food_fields:
  "cat_id categoria_food = cat_food" "cat_nome categoria_food = Some ''Food''"
  "cat_icone categoria_food = Some ''utensils''" "cat_user categoria_food = user_a"
  by (simp_all add: categoria_food_def)

lemma limite_food_fields:
  "limit_id limite_food = ''64b000000000000000000002''" "valorLimite limite_food = 500"
  "limit_user limite_food = user_a" "limit_categoria limite_food = Some cat_food"
  "limit_tipo limite_food = Categoria" "limit_ativo limite_food" "limit_nome limite_food = None"
  by (simp_all add: limite_food_def limite_categoria_def)

lemma limitByCategory_food:
  "limitByCategory [(limite_food, Some categoria_food)] (Some cat_food)
     = Some (limite_food, Some categoria_food)"
  by (simp add: limitByCategory_def limit_catId_def categoria_food_def)

lemma populate_food:
  "populate_categoria loja_food limite_food = Some categoria_food"
  "populate_categoria loja_pendente limite_food = Some categoria_food"
  by (simp_all add: populate_categoria_def loja_food_def loja_pendente_def limite_food_def
      limite_categoria_def categoria_food_def)

lemma getCategoryLimits_loja_food:
  "getCategoryLimits jul15 loja_food user_a =
     Http 200 True (Some
       [\<lparr>v_id = ''64b000000000000000000002'', v_name = ''Food'', v_icon = Some ''utensils'',
         v_budget = 500, v_spent = 550, v_remaining = 0, v_percentage = 110,
         v_transactions = 3, v_status = ''exceeded''\<rparr>])"
proof -
  have c: "filter (\<lambda>c. cat_user c = user_a) (categories loja_food) = [categoria_food]"
    "is_expense_category categoria_food"
    by (simp_all add: loja_food_def categoria_food_def is_expense_category_def)
  have l: "filter (\<lambda>l. limit_user l = user_a \<and> limit_tipo l = Categoria \<and> limit_ativo l)
             (limits loja_food) = [limite_food]"
    by (simp add: loja_food_def limite_food_def limite_categoria_def)
  have g: "gastosPorCategoria (group_by_categoria (transactions loja_food)) (Some cat_food)
      = Some (550, 3)"
    by (simp add: gastosPorCategoria_lookup loja_food_def despesa_food_def)
  have v: "category_view (gastosPorCategoria (group_by_categoria (transactions loja_food)))
        (limitByCategory [(limite_food, Some categoria_food)]) categoria_food
      = \<lparr>v_id = ''64b000000000000000000002'', v_name = ''Food'', v_icon = Some ''utensils'',
         v_budget = 500, v_spent = 550, v_remaining = 0, v_percentage = 110,
         v_transactions = 3, v_status = ''exceeded''\<rparr>"
    unfolding category_view_def Let_def
    by (simp add: categoria_food_fields limite_food_fields g limitByCategory_food or_else_def
        truthy_def budget_status_def)
  show ?thesis
    by (simp add: getCategoryLimits_def Let_def c l match_loja_food populate_food v)
qed



lemma populate_categoria_transactions [simp]:
  "populate_categoria (s\<lparr>transactions := txs\<rparr>) l = populate_categoria s l"
  by (simp add: populate_categoria_def split: option.splits)

lemma upsert_result:
  assumes "upsertCategoryLimit now new_id s userId body = (Inr (Http 201 True (Some v)), s')"
  obtains categoriaId x where
    "lb_categoriaId body = Some categoriaId" "lb_valor body = Some x" "0 < x"
    "castable_objectId categoriaId"
    "s' = snd (findOneAndUpdate_upsert now new_id s userId categoriaId x)"
    "v = limit_view now s' userId categoriaId
           (fst (findOneAndUpdate_upsert now new_id s userId categoriaId x))"
  using assms
  by (auto simp: upsertCategoryLimit_def split: option.splits if_splits prod.splits)

lemma findOneAndUpdate_upsert_facts:
  "transactions (snd (findOneAndUpdate_upsert now new_id s userId c x)) = transactions s"
  "categories (snd (findOneAndUpdate_upsert now new_id s userId c x)) = categories s"
  "limit_categoria (fst (findOneAndUpdate_upsert now new_id s userId c x)) = Some c"
  "limit_categoriaId (fst (findOneAndUpdate_upsert now new_id s userId c x)) = Some c"
  "limit_user (fst (findOneAndUpdate_upsert now new_id s userId c x)) = userId"
  "limit_tipo (fst (findOneAndUpdate_upsert now new_id s userId c x)) = Categoria"
  "limit_ativo (fst (findOneAndUpdate_upsert now new_id s userId c x))"
  "valorLimite (fst (findOneAndUpdate_upsert now new_id s userId c x)) = round2 x"
  by (auto simp: findOneAndUpdate_upsert_def upsert_update_def upsert_insert_def
      set_valorLimite_def upsert_filter_def split: option.splits dest: find_Some_iff [THEN iffD1])


lemma castable_cat_food: "castable_objectId cat_food" "length cat_food = 24" "cat_food \<noteq> []"
  by (simp_all add: castable_objectId_def cat_food_def is_hex_char_def)

lemma upsert_loja_food:
  "findOneAndUpdate_upsert jul15 new_id loja_food user_a cat_food 500 = (limite_food, loja_food)"
proof -
  have f: "find (upsert_filter user_a cat_food) (limits loja_food) = Some limite_food"
    by (simp add: loja_food_def upsert_filter_def limite_food_fields)
  have u: "upsert_update cat_food 500 limite_food = limite_food"
    by (simp add: upsert_update_def set_valorLimite_def limite_food_def limite_categoria_def)
  have l: "update_first (upsert_filter user_a cat_food) (upsert_update cat_food 500)
             (limits loja_food) = limits loja_food"
    by (simp add: loja_food_def upsert_filter_def limite_food_fields u)
  show ?thesis by (simp add: findOneAndUpdate_upsert_def f u l)
qed

lemma get_valorLimite_food: "get_valorLimite limite_food = 500"
  by (simp add: get_valorLimite_def limite_food_fields)

lemma limit_view_loja_food:
  "limit_view jul15 loja_food user_a cat_food limite_food =
     \<lparr>v_id = ''64b000000000000000000002'', v_name = ''Food'', v_icon = Some ''utensils'',
      v_budget = 500, v_spent = 550, v_remaining = 0, v_percentage = 110,
      v_transactions = 3, v_status = ''exceeded''\<rparr>"
proof -
  have c: "find (\<lambda>c. cat_id c = cat_food) (categories loja_food) = Some categoria_food"
    by (simp add: loja_food_def categoria_food_fields)
  have t: "filter (\<lambda>t. tx_user t = user_a \<and> tx_tipo t = Despesa
               \<and> tx_categoria t = limit_categoria limite_food
               \<and> in_range (month_start jul15) (month_end jul15) (tx_data t))
             (transactions loja_food) = transactions loja_food"
    by (simp add: loja_food_def despesa_food_def in_range_jul15 limite_food_fields)
  have g: "group_by_categoria (transactions loja_food)
      = [\<lparr>g_id = Some cat_food, g_total = 550, g_count = 3\<rparr>]"
    by (simp add: group_by_categoria_def loja_food_def despesa_food_def)
  show ?thesis
    unfolding limit_view_def Let_def t g c
    by (simp add: get_valorLimite_food limite_food_fields categoria_food_fields or_else_def
        or_null_def truthy_def budget_status_def)
qed

lemma upsertCategoryLimit_loja_food:
  "upsertCategoryLimit jul15 new_id loja_food user_a body_food_500 =
     (Inr (Http 201 True (Some
        \<lparr>v_id = ''64b000000000000000000002'', v_name = ''Food'', v_icon = Some ''utensils'',
         v_budget = 500, v_spent = 550, v_remaining = 0, v_percentage = 110,
         v_transactions = 3, v_status = ''exceeded''\<rparr>)), loja_food)"
  by (simp add: upsertCategoryLimit_def body_food_500_def castable_cat_food upsert_loja_food
      limit_view_loja_food)


section \<open>Checks on sample values\<close>

text \<open>
  The double nearest to 0.1; 0.1 + 0.2 is not the double nearest to 0.3; the currency
  rounding of 1.005 is 1, because the double nearest to 1.005 times 100 is just below
  100.5; 23 / 40 * 100 is just below 57.5 on doubles, so its percentage is 57.
\<close>

lemma fl_tenth: "fl (1 / 10) = 3602879701896397 / 36028797018963968"
  by code_simp

lemma fl_sum_tenths: "fl (fl (1 / 10) + fl (2 / 10)) \<noteq> fl (3 / 10)"
  by code_simp

lemma round2_1005: "round2 (1005 / 1000) = 1"
  by code_simp

lemma round2_sum_tenths: "round2 (fl (fl (1 / 10) + fl (2 / 10))) = fl (3 / 10)"
  by code_simp

lemma budget_percentage_23_40: "budget_percentage 23 40 = 57"
  by code_simp

text \<open>Documents that fail the validation of \<open>save\<close>.\<close>

lemma save_samples:
  "save (limite_geral\<lparr>limit_nome := None\<rparr>) = Inl ValidationError"
  "save (limite_geral\<lparr>limit_nome := Some []\<rparr>) = Inl ValidationError"
  "save (limite_geral\<lparr>limit_nome := Some (replicate 101 CHR ''a'')\<rparr>) = Inl ValidationError"
  "save (limite_geral\<lparr>valorLimite := - 1\<rparr>) = Inl ValidationError"
  "save (limite_geral\<lparr>valorGasto := - 1\<rparr>) = Inl ValidationError"
  "add_gasto 80 (limite_geral\<lparr>valorGasto := - 100\<rparr>) = Inl ValidationError"
  by code_simp+

lemma save_limite_geral:
  "save limite_geral
     = Inr (limite_geral\<lparr>proximoReset := Some \<lparr>d_year = 2023, d_month = 2, d_day = 3, d_ms = 0\<rparr>\<rparr>)"
  by code_simp

text \<open>
  Requests that the route rejects: no date, an amount below 0.01, a description of
  white space only, a malformed category id. The description is trimmed.
\<close>

lemma transactionValidation_samples:
  "transactionValidation_create (despesa_80\<lparr>b_data := None\<rparr>) = None"
  "transactionValidation_create (despesa_80\<lparr>b_valor := Some (1 / 200)\<rparr>) = None"
  "transactionValidation_create (despesa_80\<lparr>b_valor := Some (1 / 100)\<rparr>)
     = Some (despesa_80\<lparr>b_valor := Some (1 / 100)\<rparr>)"
  "transactionValidation_create (despesa_80\<lparr>b_descricao := Some ''  ''\<rparr>) = None"
  "transactionValidation_create (despesa_80\<lparr>b_categoriaId := Some ''abc''\<rparr>) = None"
  "transactionValidation_create (despesa_80\<lparr>b_descricao := Some '' Mercado  ''\<rparr>)
     = Some despesa_80"
  by code_simp+

lemma post_transaction_sem_data:
  "post_transaction jul15 ''64d000000000000000000001'' loja_nomeada user_a
       (despesa_80\<lparr>b_data := None\<rparr>)
     = (Inr (Http 400 False None), loja_nomeada)"
  by code_simp

text \<open>
  The answer to a recorded transaction whose category does not exist has \<open>categoria\<close>
  null.
\<close>

lemma createTransaction_sem_categoria:
  "fst (createTransaction jul15 ''64d000000000000000000001'' loja_limites user_a despesa_80)
     = Inr (Http 201 True (Some
         \<lparr>a_id = ''64d000000000000000000001'', a_user = user_a, a_tipo = Despesa,
          a_valor = 80, a_descricao = ''Mercado'', a_data = jul15,
          a_categoria = None, a_categoriaId = Some cat_food, a_cartao = None,
          a_cartaoId = None, a_status = Confirmada\<rparr>))"
  by code_simp

text \<open>
  The handler called with a description that is not trimmed, with a card, and with a
  category reference that is not an identifier.
\<close>

lemma createTransaction_trim:
  "fst (createTransaction jul15 ''64d000000000000000000001'' loja_cartao user_a
          (despesa_80\<lparr>b_descricao := Some ''  Mercado '', b_cartaoId := Some card_visa\<rparr>))
     = Inr (Http 201 True (Some
         \<lparr>a_id = ''64d000000000000000000001'', a_user = user_a, a_tipo = Despesa,
          a_valor = 80, a_descricao = ''Mercado'', a_data = jul15,
          a_categoria = Some \<lparr>ref_id = cat_food, ref_nome = Some ''Food'',
                               ref_icone = Some ''utensils''\<rparr>,
          a_categoriaId = Some cat_food,
          a_cartao = Some \<lparr>cref_id = card_visa, cref_nome = Some ''Visa''\<rparr>,
          a_cartaoId = Some card_visa, a_status = Confirmada\<rparr>))"
  by code_simp

lemma createTransaction_cast:
  "createTransaction jul15 ''64d000000000000000000001'' loja_nomeada user_a
       (despesa_80\<lparr>b_categoria := Some ''food'', b_categoriaId := None\<rparr>)
     = (Inl ValidationError, loja_nomeada)"
  by code_simp

section \<open>Derived state of a limit\<close>

text \<open>
  C5. For every limit whose ceiling (\<open>valorLimite\<close>, as read) is positive, the
  percentage used is a finite number of at most 100, and not negative when the accrued
  amount is not negative, which the schema validator \<open>min: 0\<close> of \<open>valorGasto\<close> states;
  \<open>excedido\<close> holds exactly when the accrued amount is greater than the ceiling, also
  when the percentage is clamped at 100. For every limit whose ceiling is 0 the
  percentage is 0 and the status is \<open>normal\<close>, whatever the accrued amount. The
  percentage is never \<open>NaN\<close> or infinite: no division by zero takes place.
\<close>

theorem percentualUsado_bounds:
  "(0 < get_valorLimite l \<longrightarrow>
      (\<exists>p. percentualUsado l = Fin p \<and> p \<le> 100 \<and> (0 \<le> get_valorGasto l \<longrightarrow> 0 \<le> p))
      \<and> (excedido l \<longleftrightarrow> get_valorLimite l < get_valorGasto l)
      \<and> (excedido l \<longrightarrow> percentualUsado l = Fin 100))
   \<and> (get_valorLimite l = 0 \<longrightarrow> percentualUsado l = Fin 0 \<and> status l = ''normal'')
   \<and> (\<exists>p. percentualUsado l = Fin p)"
proof (intro conjI impI)
  assume pos: "0 < get_valorLimite l"
  let ?p = "fl (fl (get_valorGasto l / get_valorLimite l) * 100)"
  have e: "percentualUsado l = Fin (min ?p 100)" using pos by (simp add: percentualUsado_Fin)
  have "0 \<le> min ?p 100" if "0 \<le> get_valorGasto l"
  proof -
    from that pos have "0 \<le> get_valorGasto l / get_valorLimite l" by simp
    then have "0 \<le> fl (get_valorGasto l / get_valorLimite l)" by (rule fl_nonneg)
    then have "0 \<le> fl (get_valorGasto l / get_valorLimite l) * 100" by simp
    then have "0 \<le> ?p" by (rule fl_nonneg)
    then show ?thesis by simp
  qed
  then show "\<exists>p. percentualUsado l = Fin p \<and> p \<le> 100 \<and> (0 \<le> get_valorGasto l \<longrightarrow> 0 \<le> p)"
    unfolding e by simp
  show "excedido l \<longleftrightarrow> get_valorLimite l < get_valorGasto l"
    by (simp add: excedido_def)
  show "percentualUsado l = Fin 100" if "excedido l"
  proof -
    from that have "get_valorLimite l \<le> get_valorGasto l" by (simp add: excedido_def)
    with pos have "100 \<le> ?p" by (rule fl_pct_ge_100)
    then show ?thesis unfolding e by (simp add: min_def)
  qed
next
  assume z: "get_valorLimite l = 0"
  show "percentualUsado l = Fin 0" using z by (simp add: percentualUsado_def)
  then show "status l = ''normal''" by (simp add: status_def)
next
  show "\<exists>p. percentualUsado l = Fin p" by (simp add: percentualUsado_Fin)
qed

lemma limite_excedido_get:
  "get_valorLimite limite_excedido = 500" "get_valorGasto limite_excedido = 550"
  by (simp_all add: get_valorLimite_def get_valorGasto_def limite_excedido_def
      limite_geral_def)

theorem percentualUsado_bounds_witness:
  "0 < get_valorLimite limite_excedido \<and> 0 \<le> get_valorGasto limite_excedido
   \<and> excedido limite_excedido \<and> percentualUsado limite_excedido = Fin 100
   \<and> get_valorLimite (limite_excedido\<lparr>valorLimite := 0\<rparr>) = 0
   \<and> percentualUsado (limite_excedido\<lparr>valorLimite := 0\<rparr>) = Fin 0
   \<and> status (limite_excedido\<lparr>valorLimite := 0\<rparr>) = ''normal''"
proof -
  have z: "get_valorLimite (limite_excedido\<lparr>valorLimite := 0\<rparr>) = 0"
    by (simp add: get_valorLimite_def)
  have e: "excedido limite_excedido"
    by (simp add: excedido_def limite_excedido_get)
  show ?thesis
    using percentualUsado_bounds [of limite_excedido]
      percentualUsado_bounds [of "limite_excedido\<lparr>valorLimite := 0\<rparr>"] z e
    by (simp add: limite_excedido_get)
qed

text \<open>
  C6, as the claim states it, fails: a monthly limit last reset on 31 January 2023 has
  its next reset on 3 March 2023, not on the last day of February.
\<close>

theorem proximoReset_jan31_counterexample:
  "limit_periodo limite_geral = Mensal
   \<and> ultimoReset limite_geral = \<lparr>d_year = 2023, d_month = 0, d_day = 31, d_ms = 0\<rparr>
   \<and> proximoResetCalculado limite_geral = \<lparr>d_year = 2023, d_month = 2, d_day = 3, d_ms = 0\<rparr>
   \<and> proximoResetCalculado limite_geral \<noteq> \<lparr>d_year = 2023, d_month = 1, d_day = 28, d_ms = 0\<rparr>"
  by (simp add: limite_geral_def jan31_def proximoResetCalculado_def setMonth_def
      make_date_def normalise.simps days_in_month_def is_leap_def)

text \<open>
  C6 (amended). For every limit whose last reset is a valid date, the derived next reset
  is the last reset with one calendar field advanced and the carry of the \<open>Date\<close>
  setters applied: daily is one day later and weekly seven days later (in time value);
  yearly is the same month and day of the next year, except that 29 February becomes
  1 March when the next year is not a leap year; monthly is the same day-of-month of the
  next month when that month has such a day, and otherwise the excess days are carried
  into the month after it (31 January gives 3 March, or 2 March in a leap year). The
  \<open>pre('save')\<close> hook stores this value as \<open>proximoReset\<close>.
\<close>

theorem proximoResetCalculado_periods:
  assumes "valid_date (ultimoReset l)"
  shows "(limit_periodo l = Diario \<longrightarrow>
            time_value (proximoResetCalculado l) = time_value (ultimoReset l) + 86400000)
       \<and> (limit_periodo l = Semanal \<longrightarrow>
            time_value (proximoResetCalculado l) = time_value (ultimoReset l) + 7 * 86400000)
       \<and> (limit_periodo l = Anual \<longrightarrow>
            proximoResetCalculado l =
              (let u = ultimoReset l in
               if d_month u = 1 \<and> d_day u = 29 \<and> \<not> is_leap (d_year u + 1)
               then u\<lparr>d_year := d_year u + 1, d_month := 2, d_day := 1\<rparr>
               else u\<lparr>d_year := d_year u + 1\<rparr>))
       \<and> (limit_periodo l = Mensal \<longrightarrow>
            proximoResetCalculado l =
              (let u = ultimoReset l;
                   y' = (if d_month u = 11 then d_year u + 1 else d_year u);
                   m' = (if d_month u = 11 then 0 else d_month u + 1)
               in if d_day u \<le> days_in_month y' m'
                  then u\<lparr>d_year := y', d_month := m'\<rparr>
                  else u\<lparr>d_year := y', d_month := m' + 1,
                         d_day := d_day u - days_in_month y' m'\<rparr>))
       \<and> proximoReset (pre_save l) = Some (proximoResetCalculado l)"
proof (intro conjI impI)
  assume "limit_periodo l = Diario"
  then show "time_value (proximoResetCalculado l) = time_value (ultimoReset l) + 86400000"
    using make_date_setDate(1) [OF assms, of 1] by (simp add: proximoResetCalculado_def Let_def)
next
  assume "limit_periodo l = Semanal"
  then show "time_value (proximoResetCalculado l) = time_value (ultimoReset l) + 7 * 86400000"
    using make_date_setDate(1) [OF assms, of 7] by (simp add: proximoResetCalculado_def Let_def)
next
  assume "limit_periodo l = Anual"
  then show "proximoResetCalculado l =
      (let u = ultimoReset l in
       if d_month u = 1 \<and> d_day u = 29 \<and> \<not> is_leap (d_year u + 1)
       then u\<lparr>d_year := d_year u + 1, d_month := 2, d_day := 1\<rparr>
       else u\<lparr>d_year := d_year u + 1\<rparr>)"
    using setFullYear_next [OF assms] by (simp add: proximoResetCalculado_def Let_def)
next
  assume "limit_periodo l = Mensal"
  then show "proximoResetCalculado l =
      (let u = ultimoReset l;
           y' = (if d_month u = 11 then d_year u + 1 else d_year u);
           m' = (if d_month u = 11 then 0 else d_month u + 1)
       in if d_day u \<le> days_in_month y' m'
          then u\<lparr>d_year := y', d_month := m'\<rparr>
          else u\<lparr>d_year := y', d_month := m' + 1,
                 d_day := d_day u - days_in_month y' m'\<rparr>)"
    using setMonth_next [OF assms] by (simp add: proximoResetCalculado_def Let_def)
next
  show "proximoReset (pre_save l) = Some (proximoResetCalculado l)"
    by (rule pre_save_proximoReset)
qed

theorem proximoResetCalculado_periods_witness:
  "valid_date (ultimoReset limite_geral)
   \<and> proximoResetCalculado limite_geral
       = \<lparr>d_year = 2023, d_month = 2, d_day = 3, d_ms = 0\<rparr>
   \<and> proximoResetCalculado (limite_geral\<lparr>limit_periodo := Anual\<rparr>)
       = \<lparr>d_year = 2024, d_month = 0, d_day = 31, d_ms = 0\<rparr>
   \<and> time_value (proximoResetCalculado (limite_geral\<lparr>limit_periodo := Diario\<rparr>))
       = time_value jan31 + 86400000
   \<and> time_value (proximoResetCalculado (limite_geral\<lparr>limit_periodo := Semanal\<rparr>))
       = time_value jan31 + 7 * 86400000"
proof -
  have v: "valid_date (ultimoReset limite_geral)"
    by (simp add: limite_geral_def jan31_def valid_date_def days_in_month_def)
  have u: "ultimoReset limite_geral = jan31" by (simp add: limite_geral_def)
  have m: "limit_periodo limite_geral = Mensal" by (simp add: limite_geral_def)
  have 1: "proximoResetCalculado limite_geral
      = \<lparr>d_year = 2023, d_month = 2, d_day = 3, d_ms = 0\<rparr>"
    using proximoResetCalculado_periods [of limite_geral] v m
    by (simp add: u jan31_def days_in_month_def is_leap_def)
  have 2: "proximoResetCalculado (limite_geral\<lparr>limit_periodo := Anual\<rparr>)
      = \<lparr>d_year = 2024, d_month = 0, d_day = 31, d_ms = 0\<rparr>"
    using proximoResetCalculado_periods [of "limite_geral\<lparr>limit_periodo := Anual\<rparr>"] v
    by (simp add: u jan31_def)
  have 3: "time_value (proximoResetCalculado (limite_geral\<lparr>limit_periodo := Diario\<rparr>))
      = time_value jan31 + 86400000"
    using proximoResetCalculado_periods [of "limite_geral\<lparr>limit_periodo := Diario\<rparr>"] v
    by (simp add: u)
  have 4: "time_value (proximoResetCalculado (limite_geral\<lparr>limit_periodo := Semanal\<rparr>))
      = time_value jan31 + 7 * 86400000"
    using proximoResetCalculado_periods [of "limite_geral\<lparr>limit_periodo := Semanal\<rparr>"] v
    by (simp add: u)
  from v 1 2 3 4 show ?thesis by simp
qed

lemma limite_excedido_valid:
  "validates_nome limite_excedido" "0 \<le> valorLimite limite_excedido"
  by (simp_all add: validates_nome_def limite_excedido_def limite_geral_def)

lemma limite_categoria_sem_nome: "\<not> validates_nome limite_categoria"
  by (simp add: validates_nome_def limite_categoria_def)

text \<open>
  C7, as the claim states it, fails: when the clock reads the same instant at both
  calls, the second reset of a limit that passes validation leaves \<open>lastReset\<close> equal to
  the first, not later.
\<close>

theorem resetar_same_instant_counterexample:
  "resetar jan31 limite_excedido
     = Inr (limite_excedido\<lparr>valorGasto := 0, ultimoReset := jan31,
              proximoReset := Some \<lparr>d_year = 2023, d_month = 2, d_day = 3, d_ms = 0\<rparr>\<rparr>)
   \<and> resetar jan31
        (limite_excedido\<lparr>valorGasto := 0, ultimoReset := jan31,
           proximoReset := Some \<lparr>d_year = 2023, d_month = 2, d_day = 3, d_ms = 0\<rparr>\<rparr>)
     = Inr (limite_excedido\<lparr>valorGasto := 0, ultimoReset := jan31,
              proximoReset := Some \<lparr>d_year = 2023, d_month = 2, d_day = 3, d_ms = 0\<rparr>\<rparr>)
   \<and> \<not> time_value jan31 < time_value jan31"
  by (simp add: resetar_def save_def limit_valid_def validates_nome_def Let_def
      set_valorGasto_def pre_save_def sync_categoria_def sync_cartao_def
      limite_excedido_def limite_geral_def proximoResetCalculado_def setMonth_def
      make_date_def normalise.simps days_in_month_def is_leap_def jan31_def)

text \<open>
  C7 (amended). For every limit that passes the schema validation of \<open>save\<close> (a name
  of 1 to 100 characters and a ceiling of at least 0), \<open>resetar\<close> sets the accrued
  amount to 0, sets \<open>lastReset\<close> to the instant read from the clock and stores the
  recomputed next reset; a second call with no expense in between succeeds as well, the
  accrued amount is 0 again and \<open>lastReset\<close> is the instant of the second call, so it
  is later than after the first call exactly when the clock reading of the second call
  is later than that of the first. For every other limit, such as the limits without a
  name that \<open>upsertCategoryLimit\<close> creates, \<open>resetar\<close> throws \<open>ValidationError\<close> and
  stores nothing.
\<close>

theorem resetar_twice:
  "((\<exists>n. limit_nome l = Some n \<and> n \<noteq> [] \<and> length n \<le> 100) \<and> 0 \<le> valorLimite l \<longrightarrow>
      (\<exists>l1 l2. resetar t1 l = Inr l1
         \<and> valorGasto l1 = 0 \<and> get_valorGasto l1 = 0 \<and> ultimoReset l1 = t1
         \<and> proximoReset l1 = Some (proximoResetCalculado l1)
         \<and> resetar t2 l1 = Inr l2
         \<and> valorGasto l2 = 0 \<and> get_valorGasto l2 = 0 \<and> ultimoReset l2 = t2
         \<and> proximoReset l2 = Some (proximoResetCalculado l2)
         \<and> (time_value (ultimoReset l1) < time_value (ultimoReset l2)
              \<longleftrightarrow> time_value t1 < time_value t2)))
   \<and> (\<not> ((\<exists>n. limit_nome l = Some n \<and> n \<noteq> [] \<and> length n \<le> 100) \<and> 0 \<le> valorLimite l) \<longrightarrow>
        resetar t1 l = Inl ValidationError)"
proof (intro conjI impI)
  assume "(\<exists>n. limit_nome l = Some n \<and> n \<noteq> [] \<and> length n \<le> 100) \<and> 0 \<le> valorLimite l"
  then have v: "validates_nome l" "0 \<le> valorLimite l" by (simp_all add: validates_nome_iff)
  from resetar_ok [OF v, of t1] obtain l1 where
    1: "resetar t1 l = Inr l1" "valorGasto l1 = 0" "ultimoReset l1 = t1"
      "limit_nome l1 = limit_nome l" "valorLimite l1 = valorLimite l"
      "proximoReset l1 = Some (proximoResetCalculado l1)"
    by blast
  have v1: "validates_nome l1" "0 \<le> valorLimite l1"
    using v 1(4,5) by (simp_all add: validates_nome_cong [of l1 l])
  from resetar_ok [OF v1, of t2] obtain l2 where
    2: "resetar t2 l1 = Inr l2" "valorGasto l2 = 0" "ultimoReset l2 = t2"
      "proximoReset l2 = Some (proximoResetCalculado l2)"
    by blast
  from 1 2 show "\<exists>l1 l2. resetar t1 l = Inr l1
         \<and> valorGasto l1 = 0 \<and> get_valorGasto l1 = 0 \<and> ultimoReset l1 = t1
         \<and> proximoReset l1 = Some (proximoResetCalculado l1)
         \<and> resetar t2 l1 = Inr l2
         \<and> valorGasto l2 = 0 \<and> get_valorGasto l2 = 0 \<and> ultimoReset l2 = t2
         \<and> proximoReset l2 = Some (proximoResetCalculado l2)
         \<and> (time_value (ultimoReset l1) < time_value (ultimoReset l2)
              \<longleftrightarrow> time_value t1 < time_value t2)"
    by (intro exI [of _ l1] exI [of _ l2]) (simp add: get_valorGasto_def)
next
  assume "\<not> ((\<exists>n. limit_nome l = Some n \<and> n \<noteq> [] \<and> length n \<le> 100) \<and> 0 \<le> valorLimite l)"
  then have "\<not> (validates_nome l \<and> 0 \<le> valorLimite l)" by (simp add: validates_nome_iff)
  then show "resetar t1 l = Inl ValidationError" by (rule resetar_fail)
qed

theorem resetar_twice_witness:
  "limit_nome limite_excedido = Some ''Geral'' \<and> ''Geral'' \<noteq> [] \<and> length ''Geral'' \<le> 100
   \<and> 0 \<le> valorLimite limite_excedido \<and> get_valorGasto limite_excedido = 550
   \<and> (\<exists>l1 l2. resetar jan31 limite_excedido = Inr l1 \<and> get_valorGasto l1 = 0
          \<and> ultimoReset l1 = jan31
          \<and> resetar jul15 l1 = Inr l2 \<and> get_valorGasto l2 = 0 \<and> ultimoReset l2 = jul15
          \<and> time_value (ultimoReset l1) < time_value (ultimoReset l2))
   \<and> limit_nome limite_categoria = None
   \<and> resetar jan31 limite_categoria = Inl ValidationError"
proof -
  have n: "limit_nome limite_excedido = Some ''Geral''" "0 \<le> valorLimite limite_excedido"
    by (simp_all add: limite_excedido_def limite_geral_def)
  have t: "time_value jan31 < time_value jul15"
    by (simp add: time_value_def day_number_def days_before_year_def jan31_def jul15_def
        days_in_month_def is_leap_def eval_nat_numeral)
  have c: "limit_nome limite_categoria = None" by (simp add: limite_categoria_def)
  from resetar_twice [of limite_excedido jan31 jul15] n t
  have a: "\<exists>l1 l2. resetar jan31 limite_excedido = Inr l1 \<and> get_valorGasto l1 = 0
          \<and> ultimoReset l1 = jan31
          \<and> resetar jul15 l1 = Inr l2 \<and> get_valorGasto l2 = 0 \<and> ultimoReset l2 = jul15
          \<and> time_value (ultimoReset l1) < time_value (ultimoReset l2)"
    by auto
  from resetar_twice [of limite_categoria jan31 jul15] c
  have b: "resetar jan31 limite_categoria = Inl ValidationError" by simp
  from n a b c show ?thesis by (simp add: limite_excedido_get)
qed

section \<open>Accrual\<close>

lemma accrue_others:
  "categories (snd (accrue v ls s)) = categories s
   \<and> cards (snd (accrue v ls s)) = cards s
   \<and> transactions (snd (accrue v ls s)) = transactions s"
proof (induction ls arbitrary: s)
  case Nil
  then show ?case by simp
next
  case (Cons l ls)
  show ?case
  proof (cases "add_gasto v l")
    case (Inl e)
    then show ?thesis by simp
  next
    case (Inr l')
    obtain r s' where a: "accrue v ls (write_limit l' s) = (r, s')"
      by (cases "accrue v ls (write_limit l' s)")
    from Cons.IH [of "write_limit l' s"] a
    have "categories s' = categories s \<and> cards s' = cards s \<and> transactions s' = transactions s"
      by (simp add: write_limit_def)
    with Inr a show ?thesis by (cases r) simp_all
  qed
qed

lemma limit_valid_iff:
  "limit_valid l \<longleftrightarrow>
     (\<exists>n. limit_nome l = Some n \<and> n \<noteq> [] \<and> length n \<le> 100)
     \<and> 0 \<le> valorLimite l \<and> 0 \<le> valorGasto l"
  by (simp add: limit_valid_def validates_nome_iff)

lemma sample_applies:
  "applies_to user_a (Some cat_food) None limite_geral"
  "applies_to user_a (Some cat_food) None limite_categoria"
  "applies_to user_a (Some cat_food) None limite_mercado"
  "\<not> applies_to user_a (Some cat_food) None limite_inativo"
  "\<not> applies_to user_a (Some cat_food) None limite_alheio"
  by (simp_all add: applies_to_def limite_geral_def limite_categoria_def limite_mercado_def
      limite_inativo_def limite_alheio_def user_a_def user_b_def)

lemma sample_gasto:
  "valorGasto limite_geral = 0" "valorGasto limite_categoria = 0"
  "valorGasto limite_mercado = 0"
  "valorGasto limite_inativo = 0" "valorGasto limite_alheio = 0"
  by (simp_all add: limite_geral_def limite_categoria_def limite_mercado_def
      limite_inativo_def limite_alheio_def)

lemma sample_ids:
  "distinct (map limit_id [limite_geral, limite_categoria, limite_inativo, limite_alheio])"
  "distinct (map limit_id [limite_geral, limite_mercado, limite_inativo, limite_alheio])"
  by (simp_all add: limite_geral_def limite_categoria_def limite_mercado_def
      limite_inativo_def limite_alheio_def)

lemma sample_valid:
  "limit_nome limite_geral = Some ''Geral''" "valorLimite limite_geral = 1000"
  "limit_nome limite_mercado = Some ''Mercado''" "valorLimite limite_mercado = 300"
  "limit_nome limite_categoria = None"
  by (simp_all add: limite_geral_def limite_categoria_def limite_mercado_def)

lemma cents_8000: "cents 8000 = 80" "cents 0 = 0"
  by code_simp+

text \<open>
  C2, as the claim states it, fails: with a general limit and a category limit without
  a name, which is how \<open>upsertCategoryLimit\<close> creates it, both active, matching and at
  accrued 0, an expense of 80 raises the general limit to 80, then the save of the
  category limit fails its validation: the operation throws and the category limit
  stays at 0.
\<close>

theorem updateFromTransactions_invalid_counterexample:
  "limits loja_limites = [limite_geral, limite_categoria, limite_inativo, limite_alheio]
   \<and> applies_to user_a (Some cat_food) None limite_geral
   \<and> applies_to user_a (Some cat_food) None limite_categoria
   \<and> map valorGasto (limits loja_limites) = [0, 0, 0, 0]
   \<and> limit_nome limite_categoria = None
   \<and> fst (updateFromTransactions loja_limites user_a (Some cat_food) None 80)
       = Inl ValidationError
   \<and> map valorGasto
        (limits (snd (updateFromTransactions loja_limites user_a (Some cat_food) None 80)))
       = [80, 0, 0, 0]"
proof -
  have l: "limits loja_limites = [limite_geral] @ limite_categoria # [limite_inativo, limite_alheio]"
    by (simp add: loja_limites_def)
  have d: "distinct (map limit_id (limits loja_limites))"
    unfolding loja_limites_def store.simps by (rule sample_ids)
  have g: "limit_valid limite_geral" by (simp add: limit_valid_iff sample_valid sample_gasto)
  have 1: "\<forall>x \<in> set [limite_geral]. applies_to user_a (Some cat_food) None x
             \<longrightarrow> limit_valid (somar_gasto 80 x)"
    using g by (simp add: limit_valid_somar_gasto)
  have 2: "\<not> limit_valid (somar_gasto 80 limite_categoria)"
    by (rule limit_invalid_somar_gasto) (simp add: validates_nome_def sample_valid)
  have v: "valorGasto (somar_gasto 80 limite_geral) = 80"
    using valorGasto_somar_cents(1) [of limite_geral 8000]
    by (simp add: sample_gasto cents_8000)
  note updateFromTransactions_fail [OF d l 1 sample_applies(2) 2]
  then show ?thesis using l by (simp add: sample_applies sample_gasto sample_valid v)
qed

text \<open>
  C2 (amended). Let the stored limits have distinct identifiers and let the amount be a
  whole number \<open>k\<close> of cents. If every limit that matches (an active limit of the owner
  of kind \<open>geral\<close>, or of kind \<open>categoria\<close> with the given category id, or of kind
  \<open>cartao\<close> with the given card id) passes the schema validation of \<open>save\<close> (a name of 1
  to 100 characters, ceiling and accrued amount at least 0) and its accrued amount plus
  the amount stays within \<open>2 ^ 40\<close> cents, then \<open>updateFromTransactions\<close> returns the
  matching limits and raises the accrued amount of each of them, independently, by
  \<open>abs k\<close> cents (an expense of 80 raises a general and a category limit from 0 to 80),
  and every other limit is left as it is. If a matching limit fails the validation (no
  name, or a negative ceiling), the operation throws \<open>ValidationError\<close> at the first
  such limit: the matching limits stored before it are raised, it and every limit
  after it are left as they are. Categories and transactions are never changed.
\<close>

theorem updateFromTransactions_accrual:
  assumes "distinct (map limit_id (limits s))"
  shows
    "((\<forall>l \<in> set (limits s). applies_to userId categoriaId cartaoId l \<longrightarrow>
          (\<exists>n. limit_nome l = Some n \<and> n \<noteq> [] \<and> length n \<le> 100)
          \<and> 0 \<le> valorLimite l \<and> 0 \<le> valorGasto l
          \<and> centavos (valorGasto l) + \<bar>k\<bar> \<le> 2 ^ 40) \<longrightarrow>
        (\<exists>found. fst (updateFromTransactions s userId categoriaId cartaoId (cents k)) = Inr found
           \<and> map limit_id found
               = map limit_id (filter (applies_to userId categoriaId cartaoId) (limits s)))
        \<and> map (\<lambda>l. centavos (valorGasto l))
             (limits (snd (updateFromTransactions s userId categoriaId cartaoId (cents k))))
            = map (\<lambda>l. if limit_user l = userId \<and> limit_ativo l
                            \<and> (limit_tipo l = Geral
                               \<or> (limit_tipo l = Categoria \<and> limit_categoriaId l = categoriaId)
                               \<or> (limit_tipo l = Cartao \<and> limit_cartaoId l = cartaoId))
                         then centavos (valorGasto l) + \<bar>k\<bar> else centavos (valorGasto l))
                (limits s)
        \<and> map valorGasto
             (limits (snd (updateFromTransactions s userId categoriaId cartaoId (cents k))))
            = map (\<lambda>l. if applies_to userId categoriaId cartaoId l
                         then cents (centavos (valorGasto l) + \<bar>k\<bar>) else valorGasto l)
                (limits s)
        \<and> (\<forall>i < length (limits s). \<not> applies_to userId categoriaId cartaoId (limits s ! i) \<longrightarrow>
              limits (snd (updateFromTransactions s userId categoriaId cartaoId (cents k))) ! i
                = limits s ! i))
     \<and> (\<forall>xs l ys.
           limits s = xs @ l # ys \<and> applies_to userId categoriaId cartaoId l
           \<and> (\<not> (\<exists>n. limit_nome l = Some n \<and> n \<noteq> [] \<and> length n \<le> 100) \<or> valorLimite l < 0)
           \<and> (\<forall>x \<in> set xs. applies_to userId categoriaId cartaoId x \<longrightarrow>
                  (\<exists>n. limit_nome x = Some n \<and> n \<noteq> [] \<and> length n \<le> 100)
                  \<and> 0 \<le> valorLimite x \<and> 0 \<le> valorGasto x
                  \<and> centavos (valorGasto x) + \<bar>k\<bar> \<le> 2 ^ 40) \<longrightarrow>
           fst (updateFromTransactions s userId categoriaId cartaoId (cents k))
             = Inl ValidationError
           \<and> map valorGasto
                (take (length xs)
                   (limits (snd (updateFromTransactions s userId categoriaId cartaoId (cents k)))))
               = map (\<lambda>x. if applies_to userId categoriaId cartaoId x
                            then cents (centavos (valorGasto x) + \<bar>k\<bar>) else valorGasto x) xs
           \<and> drop (length xs)
                (limits (snd (updateFromTransactions s userId categoriaId cartaoId (cents k))))
               = l # ys)
     \<and> categories (snd (updateFromTransactions s userId categoriaId cartaoId (cents k)))
         = categories s
     \<and> transactions (snd (updateFromTransactions s userId categoriaId cartaoId (cents k)))
         = transactions s"
proof -
  let ?P = "applies_to userId categoriaId cartaoId"
  let ?u = "updateFromTransactions s userId categoriaId cartaoId (cents k)"
  let ?ok = "\<lambda>l. (\<exists>n. limit_nome l = Some n \<and> n \<noteq> [] \<and> length n \<le> 100)
          \<and> 0 \<le> valorLimite l \<and> 0 \<le> valorGasto l
          \<and> centavos (valorGasto l) + \<bar>k\<bar> \<le> 2 ^ 40"
  let ?b = "\<lambda>l. pre_save (somar_gasto (cents k) l)"
  have val: "valorGasto (?b l) = cents (centavos (valorGasto l) + \<bar>k\<bar>)"
    "centavos (valorGasto (?b l)) = centavos (valorGasto l) + \<bar>k\<bar>" if "?ok l" for l
    using that valorGasto_somar_cents [of l k] by simp_all
  have valid: "limit_valid (somar_gasto (cents k) l)" if "?ok l" for l
    using that by (intro limit_valid_somar_gasto) (simp add: limit_valid_iff)
  have pe: "(limit_user l = userId \<and> limit_ativo l
        \<and> (limit_tipo l = Geral
           \<or> (limit_tipo l = Categoria \<and> limit_categoriaId l = categoriaId)
           \<or> (limit_tipo l = Cartao \<and> limit_cartaoId l = cartaoId))) = ?P l" for l
    by (simp add: applies_to_def)
  have A: "(\<exists>found. fst ?u = Inr found \<and> map limit_id found = map limit_id (filter ?P (limits s)))
        \<and> map (\<lambda>l. centavos (valorGasto l)) (limits (snd ?u))
            = map (\<lambda>l. if limit_user l = userId \<and> limit_ativo l
                            \<and> (limit_tipo l = Geral
                               \<or> (limit_tipo l = Categoria \<and> limit_categoriaId l = categoriaId)
                               \<or> (limit_tipo l = Cartao \<and> limit_cartaoId l = cartaoId))
                         then centavos (valorGasto l) + \<bar>k\<bar> else centavos (valorGasto l))
                (limits s)
        \<and> map valorGasto (limits (snd ?u))
            = map (\<lambda>l. if ?P l then cents (centavos (valorGasto l) + \<bar>k\<bar>) else valorGasto l)
                (limits s)
        \<and> (\<forall>i < length (limits s). \<not> ?P (limits s ! i) \<longrightarrow> limits (snd ?u) ! i = limits s ! i)"
    if h: "\<forall>l \<in> set (limits s). ?P l \<longrightarrow> ?ok l"
  proof -
    have "\<forall>l \<in> set (limits s). ?P l \<longrightarrow> limit_valid (somar_gasto (cents k) l)"
      using h valid by blast
    with assms have u: "?u = (Inr (map ?b (filter ?P (limits s))),
        s\<lparr>limits := map (\<lambda>l. if ?P l then ?b l else l) (limits s)\<rparr>)"
      by (rule updateFromTransactions_ok)
    have lu: "limits (snd ?u) = map (\<lambda>l. if ?P l then ?b l else l) (limits s)"
      unfolding u by simp
    have 1: "\<exists>found. fst ?u = Inr found
        \<and> map limit_id found = map limit_id (filter ?P (limits s))"
      unfolding u by (simp add: o_def)
    have 2: "map (\<lambda>l. centavos (valorGasto l)) (limits (snd ?u))
            = map (\<lambda>l. if limit_user l = userId \<and> limit_ativo l
                            \<and> (limit_tipo l = Geral
                               \<or> (limit_tipo l = Categoria \<and> limit_categoriaId l = categoriaId)
                               \<or> (limit_tipo l = Cartao \<and> limit_cartaoId l = cartaoId))
                         then centavos (valorGasto l) + \<bar>k\<bar> else centavos (valorGasto l))
                (limits s)"
      unfolding lu map_map
    proof (rule map_cong [OF refl])
      fix l assume m: "l \<in> set (limits s)"
      show "((\<lambda>l. centavos (valorGasto l)) \<circ> (\<lambda>l. if ?P l then ?b l else l)) l
          = (if limit_user l = userId \<and> limit_ativo l
                \<and> (limit_tipo l = Geral
                   \<or> (limit_tipo l = Categoria \<and> limit_categoriaId l = categoriaId)
                   \<or> (limit_tipo l = Cartao \<and> limit_cartaoId l = cartaoId))
             then centavos (valorGasto l) + \<bar>k\<bar> else centavos (valorGasto l))"
        unfolding pe
      proof (cases "?P l")
        case True
        with h m have "?ok l" by blast
        from val(2) [OF this] True show
          "((\<lambda>l. centavos (valorGasto l)) \<circ> (\<lambda>l. if ?P l then ?b l else l)) l
             = (if ?P l then centavos (valorGasto l) + \<bar>k\<bar> else centavos (valorGasto l))"
          by simp
      next
        case False
        then show
          "((\<lambda>l. centavos (valorGasto l)) \<circ> (\<lambda>l. if ?P l then ?b l else l)) l
             = (if ?P l then centavos (valorGasto l) + \<bar>k\<bar> else centavos (valorGasto l))"
          by simp
      qed
    qed
    have 3: "map valorGasto (limits (snd ?u))
            = map (\<lambda>l. if ?P l then cents (centavos (valorGasto l) + \<bar>k\<bar>) else valorGasto l)
                (limits s)"
      unfolding lu map_map
    proof (rule map_cong [OF refl])
      fix l assume m: "l \<in> set (limits s)"
      show "(valorGasto \<circ> (\<lambda>l. if ?P l then ?b l else l)) l
          = (if ?P l then cents (centavos (valorGasto l) + \<bar>k\<bar>) else valorGasto l)"
      proof (cases "?P l")
        case True
        with h m have "?ok l" by blast
        from val(1) [OF this] True show ?thesis by simp
      next
        case False
        then show ?thesis by simp
      qed
    qed
    have 4: "\<forall>i < length (limits s). \<not> ?P (limits s ! i) \<longrightarrow> limits (snd ?u) ! i = limits s ! i"
      unfolding lu by simp
    from 1 2 3 4 show ?thesis by blast
  qed
  have B: "fst ?u = Inl ValidationError
      \<and> map valorGasto (take (length xs) (limits (snd ?u)))
          = map (\<lambda>x. if ?P x then cents (centavos (valorGasto x) + \<bar>k\<bar>) else valorGasto x) xs
      \<and> drop (length xs) (limits (snd ?u)) = l # ys"
    if h: "limits s = xs @ l # ys \<and> ?P l
           \<and> (\<not> (\<exists>n. limit_nome l = Some n \<and> n \<noteq> [] \<and> length n \<le> 100) \<or> valorLimite l < 0)
           \<and> (\<forall>x \<in> set xs. ?P x \<longrightarrow> ?ok x)" for xs l ys
  proof -
    from h have s: "limits s = xs @ l # ys" and p: "?P l"
      and bad: "\<not> validates_nome l \<or> valorLimite l < 0"
      and okx: "\<forall>x \<in> set xs. ?P x \<longrightarrow> ?ok x"
      by (simp_all add: validates_nome_iff)
    have v: "\<forall>x \<in> set xs. ?P x \<longrightarrow> limit_valid (somar_gasto (cents k) x)"
      using okx valid by blast
    have n: "\<not> limit_valid (somar_gasto (cents k) l)"
      using bad by (rule limit_invalid_somar_gasto)
    from assms s v p n have u: "?u = (Inl ValidationError,
        s\<lparr>limits := map (\<lambda>x. if ?P x then ?b x else x) xs @ l # ys\<rparr>)"
      by (rule updateFromTransactions_fail)
    have "map valorGasto (map (\<lambda>x. if ?P x then ?b x else x) xs)
        = map (\<lambda>x. if ?P x then cents (centavos (valorGasto x) + \<bar>k\<bar>) else valorGasto x) xs"
      unfolding map_map
    proof (rule map_cong [OF refl])
      fix x assume m: "x \<in> set xs"
      show "(valorGasto \<circ> (\<lambda>x. if ?P x then ?b x else x)) x
          = (if ?P x then cents (centavos (valorGasto x) + \<bar>k\<bar>) else valorGasto x)"
      proof (cases "?P x")
        case True
        with okx m have "?ok x" by blast
        from val(1) [OF this] True show ?thesis by simp
      next
        case False
        then show ?thesis by simp
      qed
    qed
    then show ?thesis unfolding u by simp
  qed
  have C: "categories (snd ?u) = categories s" "transactions (snd ?u) = transactions s"
    by (simp_all add: updateFromTransactions_def accrue_others)
  from A B C show ?thesis by blast
qed

theorem updateFromTransactions_accrual_witness:
  "distinct (map limit_id (limits loja_nomeada))
   \<and> limits loja_nomeada = [limite_geral, limite_mercado, limite_inativo, limite_alheio]
   \<and> map valorGasto (limits loja_nomeada) = [0, 0, 0, 0]
   \<and> cents 8000 = 80
   \<and> map valorGasto
        (limits (snd (updateFromTransactions loja_nomeada user_a (Some cat_food) None (cents 8000))))
       = [80, 80, 0, 0]
   \<and> limits (snd (updateFromTransactions loja_nomeada user_a (Some cat_food) None (cents 8000))) ! 2
       = limite_inativo
   \<and> limits (snd (updateFromTransactions loja_nomeada user_a (Some cat_food) None (cents 8000))) ! 3
       = limite_alheio
   \<and> distinct (map limit_id (limits loja_limites))
   \<and> limits loja_limites = [limite_geral] @ limite_categoria # [limite_inativo, limite_alheio]
   \<and> fst (updateFromTransactions loja_limites user_a (Some cat_food) None (cents 8000))
       = Inl ValidationError
   \<and> drop 1 (limits (snd (updateFromTransactions loja_limites user_a (Some cat_food) None
                             (cents 8000))))
       = [limite_categoria, limite_inativo, limite_alheio]"
proof -
  have l: "limits loja_nomeada = [limite_geral, limite_mercado, limite_inativo, limite_alheio]"
    by (simp add: loja_nomeada_def)
  have d: "distinct (map limit_id (limits loja_nomeada))" unfolding l by (rule sample_ids)
  have l': "limits loja_limites = [limite_geral] @ limite_categoria # [limite_inativo, limite_alheio]"
    by (simp add: loja_limites_def)
  have d': "distinct (map limit_id (limits loja_limites))"
    unfolding loja_limites_def store.simps by (rule sample_ids)
  have c: "centavos 0 + \<bar>8000\<bar> \<le> (2::int) ^ 40" by simp
  have ok: "\<forall>l \<in> set (limits loja_nomeada). applies_to user_a (Some cat_food) None l \<longrightarrow>
          (\<exists>n. limit_nome l = Some n \<and> n \<noteq> [] \<and> length n \<le> 100)
          \<and> 0 \<le> valorLimite l \<and> 0 \<le> valorGasto l
          \<and> centavos (valorGasto l) + \<bar>8000\<bar> \<le> 2 ^ 40"
    by (simp add: l sample_applies sample_valid sample_gasto)
  note t = updateFromTransactions_accrual [OF d, of user_a "Some cat_food" None 8000]
  from t ok have a: "map valorGasto
        (limits (snd (updateFromTransactions loja_nomeada user_a (Some cat_food) None (cents 8000))))
      = map (\<lambda>l. if applies_to user_a (Some cat_food) None l
                   then cents (centavos (valorGasto l) + \<bar>8000\<bar>) else valorGasto l)
          (limits loja_nomeada)"
    by blast
  from t ok have "\<forall>i < length (limits loja_nomeada).
      \<not> applies_to user_a (Some cat_food) None (limits loja_nomeada ! i) \<longrightarrow>
      limits (snd (updateFromTransactions loja_nomeada user_a (Some cat_food) None (cents 8000))) ! i
        = limits loja_nomeada ! i"
    by blast
  then have b:
    "limits (snd (updateFromTransactions loja_nomeada user_a (Some cat_food) None (cents 8000))) ! 2
       = limite_inativo"
    "limits (snd (updateFromTransactions loja_nomeada user_a (Some cat_food) None (cents 8000))) ! 3
       = limite_alheio"
    by (simp_all add: l sample_applies)
  note t' = updateFromTransactions_accrual [OF d', of user_a "Some cat_food" None 8000]
  have ok': "limits loja_limites = [limite_geral] @ limite_categoria # [limite_inativo, limite_alheio]
      \<and> applies_to user_a (Some cat_food) None limite_categoria
      \<and> (\<not> (\<exists>n. limit_nome limite_categoria = Some n \<and> n \<noteq> [] \<and> length n \<le> 100)
          \<or> valorLimite limite_categoria < 0)
      \<and> (\<forall>x \<in> set [limite_geral]. applies_to user_a (Some cat_food) None x \<longrightarrow>
            (\<exists>n. limit_nome x = Some n \<and> n \<noteq> [] \<and> length n \<le> 100)
            \<and> 0 \<le> valorLimite x \<and> 0 \<le> valorGasto x
            \<and> centavos (valorGasto x) + \<bar>8000\<bar> \<le> 2 ^ 40)"
    using l' by (simp add: sample_applies sample_valid sample_gasto)
  from t' have "\<forall>xs l ys.
           limits loja_limites = xs @ l # ys \<and> applies_to user_a (Some cat_food) None l
           \<and> (\<not> (\<exists>n. limit_nome l = Some n \<and> n \<noteq> [] \<and> length n \<le> 100) \<or> valorLimite l < 0)
           \<and> (\<forall>x \<in> set xs. applies_to user_a (Some cat_food) None x \<longrightarrow>
                  (\<exists>n. limit_nome x = Some n \<and> n \<noteq> [] \<and> length n \<le> 100)
                  \<and> 0 \<le> valorLimite x \<and> 0 \<le> valorGasto x
                  \<and> centavos (valorGasto x) + \<bar>8000\<bar> \<le> 2 ^ 40) \<longrightarrow>
           fst (updateFromTransactions loja_limites user_a (Some cat_food) None (cents 8000))
             = Inl ValidationError
           \<and> map valorGasto
                (take (length xs)
                   (limits (snd (updateFromTransactions loja_limites user_a (Some cat_food) None
                                   (cents 8000)))))
               = map (\<lambda>x. if applies_to user_a (Some cat_food) None x
                            then cents (centavos (valorGasto x) + \<bar>8000\<bar>) else valorGasto x) xs
           \<and> drop (length xs)
                (limits (snd (updateFromTransactions loja_limites user_a (Some cat_food) None
                                (cents 8000))))
               = l # ys"
    by blast
  from this [rule_format, OF ok']
  have f: "fst (updateFromTransactions loja_limites user_a (Some cat_food) None (cents 8000))
       = Inl ValidationError"
    "drop 1 (limits (snd (updateFromTransactions loja_limites user_a (Some cat_food) None
                             (cents 8000))))
       = [limite_categoria, limite_inativo, limite_alheio]"
    by simp_all
  from a have a': "map valorGasto
        (limits (snd (updateFromTransactions loja_nomeada user_a (Some cat_food) None (cents 8000))))
       = [80, 80, 0, 0]"
    by (simp add: l sample_applies sample_gasto cents_8000)
  from d l a' b d' l' f show ?thesis by (simp add: sample_gasto cents_8000)
qed

section \<open>Recording a transaction\<close>

lemma tx_pre_save_fields [simp]:
  "tx_id (tx_pre_save t) = tx_id t" "tx_user (tx_pre_save t) = tx_user t"
  by (simp_all add: tx_pre_save_def Let_def)

lemma tx_findById_last:
  "tx_id t = i \<Longrightarrow> tx_findById (s\<lparr>transactions := txs @ [t]\<rparr>) i \<noteq> None"
  by (auto simp: tx_findById_def find_None_iff)

lemma repository_create_Inr:
  assumes "repository_create now new_id s userId b = Inr (d, s')"
  shows "limits s' = limits s \<and> categories s' = categories s \<and> cards s' = cards s
     \<and> (\<exists>t. transactions s' = transactions s @ [t] \<and> tx_id t = new_id \<and> tx_user t = userId)
     \<and> d = tx_findById s' new_id \<and> d \<noteq> None"
proof -
  from assms obtain t where
    "s' = s\<lparr>transactions := transactions s @ [tx_pre_save t]\<rparr>"
    "tx_id t = new_id" "tx_user t = userId" "d = tx_findById s' new_id"
    by (auto simp: repository_create_def Let_def split: option.splits if_splits)
  then show ?thesis
    using tx_findById_last [where t = "tx_pre_save t" and i = new_id and s = s
        and txs = "transactions s"]
    by auto
qed

lemma despesa_80_valida: "transactionValidation_create despesa_80 = Some despesa_80"
  by code_simp

lemma createTransaction_despesa_80:
  "createTransaction jul15 ''64d000000000000000000001'' loja_nomeada user_a despesa_80
     = (Inr (Http 201 True (Some
          \<lparr>a_id = ''64d000000000000000000001'', a_user = user_a, a_tipo = Despesa,
           a_valor = 80, a_descricao = ''Mercado'', a_data = jul15,
           a_categoria = Some \<lparr>ref_id = cat_food, ref_nome = Some ''Food'',
                                ref_icone = Some ''utensils''\<rparr>,
           a_categoriaId = Some cat_food, a_cartao = None, a_cartaoId = None,
           a_status = Confirmada\<rparr>)),
        loja_nomeada\<lparr>transactions :=
          [\<lparr>tx_id = ''64d000000000000000000001'', tx_user = user_a, tx_tipo = Despesa,
            tx_valor = 80, tx_descricao = ''Mercado'', tx_data = jul15,
            tx_categoria = Some cat_food, tx_categoriaId = Some cat_food,
            tx_cartao = None, tx_cartaoId = None, tx_status = Confirmada\<rparr>]\<rparr>)"
  by code_simp

text \<open>
  C1, as the claim states it, fails: an expense of 80 recorded through the route for an
  owner who has an active general limit and an active limit of the transaction's
  category, both at accrued 0, is stored and answered with 201, and leaves both accrued
  amounts at 0, not at 80.
\<close>

theorem createTransaction_counterexample:
  "fst (post_transaction jul15 ''64d000000000000000000001'' loja_nomeada user_a despesa_80)
     = Inr (Http 201 True (Some
         \<lparr>a_id = ''64d000000000000000000001'', a_user = user_a, a_tipo = Despesa,
          a_valor = 80, a_descricao = ''Mercado'', a_data = jul15,
          a_categoria = Some \<lparr>ref_id = cat_food, ref_nome = Some ''Food'',
                               ref_icone = Some ''utensils''\<rparr>,
          a_categoriaId = Some cat_food, a_cartao = None, a_cartaoId = None,
          a_status = Confirmada\<rparr>))
   \<and> limits loja_nomeada = [limite_geral, limite_mercado, limite_inativo, limite_alheio]
   \<and> applies_to user_a (Some cat_food) None limite_geral
   \<and> applies_to user_a (Some cat_food) None limite_mercado
   \<and> map get_valorGasto (limits loja_nomeada) = [0, 0, 0, 0]
   \<and> map get_valorGasto
        (limits (snd (post_transaction jul15 ''64d000000000000000000001'' loja_nomeada
                        user_a despesa_80))) = [0, 0, 0, 0]
   \<and> (0 :: rat) \<noteq> 0 + \<bar>80\<bar>"
proof -
  have l: "limits loja_nomeada = [limite_geral, limite_mercado, limite_inativo, limite_alheio]"
    by (simp add: loja_nomeada_def)
  have g: "map get_valorGasto (limits loja_nomeada) = [0, 0, 0, 0]"
    by (simp add: l get_valorGasto_def sample_gasto)
  have p: "post_transaction jul15 ''64d000000000000000000001'' loja_nomeada user_a despesa_80
      = createTransaction jul15 ''64d000000000000000000001'' loja_nomeada user_a despesa_80"
    by (simp add: post_transaction_def despesa_80_valida)
  show ?thesis
    unfolding p createTransaction_despesa_80 using g l by (simp add: sample_applies)
qed

text \<open>
  C1 (amended). Recording a transaction never changes a limit. The handler
  \<open>createTransaction\<close> either throws and leaves the store as it is, or stores one
  transaction and answers 201 with that transaction as read back; the route answers 400
  and leaves the store as it is when the request fails its validation, and runs the
  handler otherwise. In every case the limits of the store, accrued amounts included,
  and its categories are the ones before the request: the accrual is the separate
  operation \<open>updateFromTransactions\<close>, which the create path never invokes.
\<close>

theorem createTransaction_no_accrual:
  "limits (snd (createTransaction now new_id s userId body)) = limits s
   \<and> categories (snd (createTransaction now new_id s userId body)) = categories s
   \<and> (case fst (createTransaction now new_id s userId body) of
         Inl e \<Rightarrow> snd (createTransaction now new_id s userId body) = s
       | Inr (Http code ok d) \<Rightarrow>
           code = 201 \<and> ok
           \<and> d = tx_findById (snd (createTransaction now new_id s userId body)) new_id
           \<and> (\<exists>a. d = Some a)
           \<and> (\<exists>t. tx_id t = new_id \<and> tx_user t = userId
                 \<and> transactions (snd (createTransaction now new_id s userId body))
                     = transactions s @ [t]))
   \<and> limits (snd (post_transaction now new_id s userId body)) = limits s
   \<and> categories (snd (post_transaction now new_id s userId body)) = categories s
   \<and> (case transactionValidation_create body of
         None \<Rightarrow> post_transaction now new_id s userId body = (Inr (Http 400 False None), s)
       | Some body' \<Rightarrow>
           post_transaction now new_id s userId body
             = createTransaction now new_id s userId body')"
proof -
  have c: "limits (snd (createTransaction now new_id s userId b)) = limits s
     \<and> categories (snd (createTransaction now new_id s userId b)) = categories s
     \<and> (case fst (createTransaction now new_id s userId b) of
         Inl e \<Rightarrow> snd (createTransaction now new_id s userId b) = s
       | Inr (Http code ok d) \<Rightarrow>
           code = 201 \<and> ok
           \<and> d = tx_findById (snd (createTransaction now new_id s userId b)) new_id
           \<and> (\<exists>a. d = Some a)
           \<and> (\<exists>t. tx_id t = new_id \<and> tx_user t = userId
                 \<and> transactions (snd (createTransaction now new_id s userId b))
                     = transactions s @ [t]))" for b
  proof (cases "repository_create now new_id s userId (only_categoria b)")
    case (Inl e)
    then show ?thesis by (simp add: createTransaction_def)
  next
    case (Inr r)
    obtain d s' where r: "r = (d, s')" by (cases r)
    with Inr repository_create_Inr [of now new_id s userId "only_categoria b" d s']
    show ?thesis by (auto simp: createTransaction_def)
  qed
  have p: "limits (snd (post_transaction now new_id s userId body)) = limits s
     \<and> categories (snd (post_transaction now new_id s userId body)) = categories s"
    using c by (simp add: post_transaction_def split: option.splits)
  have q: "(case transactionValidation_create body of
         None \<Rightarrow> post_transaction now new_id s userId body = (Inr (Http 400 False None), s)
       | Some body' \<Rightarrow>
           post_transaction now new_id s userId body
             = createTransaction now new_id s userId body')"
    by (simp add: post_transaction_def split: option.splits)
  from c [of body] p q show ?thesis by blast
qed

theorem createTransaction_no_accrual_witness:
  "limits (snd (post_transaction jul15 ''64d000000000000000000001'' loja_nomeada user_a
                  despesa_80))
     = [limite_geral, limite_mercado, limite_inativo, limite_alheio]
   \<and> transactionValidation_create despesa_80 = Some despesa_80
   \<and> post_transaction jul15 ''64d000000000000000000001'' loja_nomeada user_a despesa_80
       = createTransaction jul15 ''64d000000000000000000001'' loja_nomeada user_a despesa_80"
proof -
  note t = createTransaction_no_accrual [of jul15 "''64d000000000000000000001''" loja_nomeada
      user_a despesa_80]
  from t have "limits (snd (post_transaction jul15 ''64d000000000000000000001'' loja_nomeada
      user_a despesa_80)) = limits loja_nomeada"
    by blast
  then have 1: "limits (snd (post_transaction jul15 ''64d000000000000000000001'' loja_nomeada
      user_a despesa_80)) = [limite_geral, limite_mercado, limite_inativo, limite_alheio]"
    by (simp add: loja_nomeada_def)
  from t have "(case transactionValidation_create despesa_80 of
         None \<Rightarrow> post_transaction jul15 ''64d000000000000000000001'' loja_nomeada user_a
                  despesa_80 = (Inr (Http 400 False None), loja_nomeada)
       | Some body' \<Rightarrow>
           post_transaction jul15 ''64d000000000000000000001'' loja_nomeada user_a despesa_80
             = createTransaction jul15 ''64d000000000000000000001'' loja_nomeada user_a body')"
    by blast
  then have 2: "post_transaction jul15 ''64d000000000000000000001'' loja_nomeada user_a
      despesa_80
       = createTransaction jul15 ''64d000000000000000000001'' loja_nomeada user_a despesa_80"
    by (simp add: despesa_80_valida)
  from 1 2 show ?thesis by (simp add: despesa_80_valida)
qed

section \<open>The budget view\<close>




text \<open>
  C4, as the claim states it, fails: for a category limit with budget 500 and expenses
  of 550 in the month, both handlers report percentage 110, not 100.
\<close>

theorem budget_view_unclamped_counterexample:
  "getCategoryLimits jul15 loja_food user_a =
     Http 200 True (Some
       [\<lparr>v_id = ''64b000000000000000000002'', v_name = ''Food'', v_icon = Some ''utensils'',
         v_budget = 500, v_spent = 550, v_remaining = 0, v_percentage = 110,
         v_transactions = 3, v_status = ''exceeded''\<rparr>])
   \<and> fst (upsertCategoryLimit jul15 ''64b000000000000000000009'' loja_food user_a body_food_500)
       = Inr (Http 201 True (Some
           \<lparr>v_id = ''64b000000000000000000002'', v_name = ''Food'', v_icon = Some ''utensils'',
            v_budget = 500, v_spent = 550, v_remaining = 0, v_percentage = 110,
            v_transactions = 3, v_status = ''exceeded''\<rparr>))
   \<and> (110 :: int) \<noteq> 100"
  by (simp add: getCategoryLimits_loja_food upsertCategoryLimit_loja_food)

lemma view_formulas:
  fixes v :: view
  assumes r: "v_remaining v = max 0 (fl (v_budget v - v_spent v))"
    and p: "v_percentage v
        = (if 0 < v_budget v then \<lfloor>fl (fl (v_spent v / v_budget v) * 100) + 1 / 2\<rfloor> else 0)"
    and st: "v_status v
        = (if 100 \<le> v_percentage v then ''exceeded''
           else if 80 \<le> v_percentage v then ''warning'' else ''safe'')"
  shows "(0 < v_budget v \<longrightarrow>
            \<bar>of_int (v_percentage v) - v_spent v / v_budget v * 100\<bar>
              \<le> 1 / 2 + \<bar>v_spent v / v_budget v * 100\<bar> / 2 ^ 51)
       \<and> (0 < v_budget v \<and> v_budget v \<le> v_spent v \<longrightarrow>
            100 \<le> v_percentage v \<and> v_remaining v = 0 \<and> v_status v = ''exceeded'')
       \<and> (v_budget v \<le> 0 \<longrightarrow> v_percentage v = 0 \<and> v_status v = ''safe'')"
proof (intro conjI impI)
  assume b: "0 < v_budget v"
  let ?z = "fl (fl (v_spent v / v_budget v) * 100)"
  have e: "v_percentage v = \<lfloor>?z + 1 / 2\<rfloor>" using b p by simp
  have 1: "\<bar>?z - v_spent v / v_budget v * 100\<bar> \<le> \<bar>v_spent v / v_budget v * 100\<bar> / 2 ^ 51"
    by (rule fl_times100_error)
  have 2: "\<bar>of_int \<lfloor>?z + 1 / 2\<rfloor> - ?z\<bar> \<le> 1 / 2" by linarith
  show "\<bar>of_int (v_percentage v) - v_spent v / v_budget v * 100\<bar>
      \<le> 1 / 2 + \<bar>v_spent v / v_budget v * 100\<bar> / 2 ^ 51"
    unfolding e using 1 2 by linarith
next
  assume a: "0 < v_budget v \<and> v_budget v \<le> v_spent v"
  let ?z = "fl (fl (v_spent v / v_budget v) * 100)"
  have e: "v_percentage v = \<lfloor>?z + 1 / 2\<rfloor>" using a p by simp
  from a have "100 \<le> ?z" by (intro fl_pct_ge_100) simp_all
  then have "of_int 100 \<le> ?z + 1 / 2" by simp
  then have "100 \<le> \<lfloor>?z + 1 / 2\<rfloor>" by (simp only: le_floor_iff)
  then show h: "100 \<le> v_percentage v" by (simp only: e)
  from a have "fl (v_budget v - v_spent v) \<le> 0" by (intro fl_nonpos) simp
  then show "v_remaining v = 0" using r by simp
  from h show "v_status v = ''exceeded''" using st by simp
next
  assume a: "v_budget v \<le> 0"
  then show z: "v_percentage v = 0" using p by simp
  then show "v_status v = ''safe''" using st by simp
qed

lemma category_view_formulas:
  "v_remaining (category_view gastos byCat cat)
     = max 0 (fl (v_budget (category_view gastos byCat cat)
                  - v_spent (category_view gastos byCat cat)))"
  "v_percentage (category_view gastos byCat cat)
     = (if 0 < v_budget (category_view gastos byCat cat)
        then \<lfloor>fl (fl (v_spent (category_view gastos byCat cat)
                         / v_budget (category_view gastos byCat cat)) * 100) + 1 / 2\<rfloor>
        else 0)"
  "v_status (category_view gastos byCat cat)
     = (if 100 \<le> v_percentage (category_view gastos byCat cat) then ''exceeded''
        else if 80 \<le> v_percentage (category_view gastos byCat cat) then ''warning''
        else ''safe'')"
  by (simp_all add: category_view_def Let_def budget_percentage_def budget_status_def
      math_round_def)

lemma limit_view_formulas:
  "v_remaining (limit_view now s userId c l)
     = max 0 (fl (v_budget (limit_view now s userId c l) - v_spent (limit_view now s userId c l)))"
  "v_percentage (limit_view now s userId c l)
     = (if 0 < v_budget (limit_view now s userId c l)
        then \<lfloor>fl (fl (v_spent (limit_view now s userId c l)
                         / v_budget (limit_view now s userId c l)) * 100) + 1 / 2\<rfloor>
        else 0)"
  "v_status (limit_view now s userId c l)
     = (if 100 \<le> v_percentage (limit_view now s userId c l) then ''exceeded''
        else if 80 \<le> v_percentage (limit_view now s userId c l) then ''warning''
        else ''safe'')"
  by (simp_all add: limit_view_def Let_def budget_percentage_def budget_status_def
      math_round_def)

text \<open>
  C4 (amended). In every view returned by \<open>getCategoryLimits\<close> and in the view returned
  by \<open>upsertCategoryLimit\<close>, \<open>remaining\<close> is \<open>max(0, budget - spent)\<close>; the percentage is
  \<open>Math.round((spent / budget) * 100)\<close>, computed on doubles, when the budget is
  positive and 0 otherwise, with no clamp at 100; the status is \<open>exceeded\<close> from 100,
  \<open>warning\<close> from 80 and \<open>safe\<close> below. The percentage is within one half, and a
  relative error of \<open>2 ^ -51\<close>, of the exact \<open>spent / budget * 100\<close>. So when spent
  reaches or exceeds a positive budget the percentage is at least 100, \<open>remaining\<close> is 0
  and the status is \<open>exceeded\<close>: for budget 500 and spend 550 the view has spent 550,
  percentage 110, remaining 0 and status \<open>exceeded\<close>.
\<close>

theorem budget_view_percentage:
  "(\<exists>vs. getCategoryLimits now s userId = Http 200 True (Some vs))
   \<and> (\<forall>vs v s'.
         (getCategoryLimits now s userId = Http 200 True (Some vs) \<and> v \<in> set vs)
         \<or> upsertCategoryLimit now new_id s userId body = (Inr (Http 201 True (Some v)), s') \<longrightarrow>
         v_remaining v = max 0 (fl (v_budget v - v_spent v))
         \<and> v_percentage v
             = (if 0 < v_budget v then \<lfloor>fl (fl (v_spent v / v_budget v) * 100) + 1 / 2\<rfloor>
                else 0)
         \<and> v_status v
             = (if 100 \<le> v_percentage v then ''exceeded''
                else if 80 \<le> v_percentage v then ''warning'' else ''safe'')
         \<and> (0 < v_budget v \<longrightarrow>
               \<bar>of_int (v_percentage v) - v_spent v / v_budget v * 100\<bar>
                 \<le> 1 / 2 + \<bar>v_spent v / v_budget v * 100\<bar> / 2 ^ 51)
         \<and> (0 < v_budget v \<and> v_budget v \<le> v_spent v \<longrightarrow>
               100 \<le> v_percentage v \<and> v_remaining v = 0 \<and> v_status v = ''exceeded'')
         \<and> (v_budget v \<le> 0 \<longrightarrow> v_percentage v = 0 \<and> v_status v = ''safe''))"
proof (intro conjI allI impI)
  show "\<exists>vs. getCategoryLimits now s userId = Http 200 True (Some vs)"
    by (simp add: getCategoryLimits_def Let_def)
next
  fix vs v s'
  assume a: "(getCategoryLimits now s userId = Http 200 True (Some vs) \<and> v \<in> set vs)
         \<or> upsertCategoryLimit now new_id s userId body = (Inr (Http 201 True (Some v)), s')"
  have f: "v_remaining v = max 0 (fl (v_budget v - v_spent v))
      \<and> v_percentage v
          = (if 0 < v_budget v then \<lfloor>fl (fl (v_spent v / v_budget v) * 100) + 1 / 2\<rfloor> else 0)
      \<and> v_status v
          = (if 100 \<le> v_percentage v then ''exceeded''
             else if 80 \<le> v_percentage v then ''warning'' else ''safe'')"
    using a
  proof
    assume "getCategoryLimits now s userId = Http 200 True (Some vs) \<and> v \<in> set vs"
    then obtain gastos byCat cat where "v = category_view gastos byCat cat"
      by (auto simp: getCategoryLimits_def Let_def)
    then show ?thesis using category_view_formulas [of gastos byCat cat] by simp
  next
    assume "upsertCategoryLimit now new_id s userId body = (Inr (Http 201 True (Some v)), s')"
    then obtain c x where
      "v = limit_view now s' userId c (fst (findOneAndUpdate_upsert now new_id s userId c x))"
      by (rule upsert_result)
    then show ?thesis
      using limit_view_formulas [of now s' userId c
          "fst (findOneAndUpdate_upsert now new_id s userId c x)"] by simp
  qed
  then have r: "v_remaining v = max 0 (fl (v_budget v - v_spent v))"
    and p: "v_percentage v
        = (if 0 < v_budget v then \<lfloor>fl (fl (v_spent v / v_budget v) * 100) + 1 / 2\<rfloor> else 0)"
    and st: "v_status v
        = (if 100 \<le> v_percentage v then ''exceeded''
           else if 80 \<le> v_percentage v then ''warning'' else ''safe'')"
    by blast+
  note d = view_formulas [OF r p st]
  show "v_remaining v = max 0 (fl (v_budget v - v_spent v))" by (rule r)
  show "v_percentage v
      = (if 0 < v_budget v then \<lfloor>fl (fl (v_spent v / v_budget v) * 100) + 1 / 2\<rfloor> else 0)"
    by (rule p)
  show "v_status v
      = (if 100 \<le> v_percentage v then ''exceeded''
         else if 80 \<le> v_percentage v then ''warning'' else ''safe'')"
    by (rule st)
  show "\<bar>of_int (v_percentage v) - v_spent v / v_budget v * 100\<bar>
      \<le> 1 / 2 + \<bar>v_spent v / v_budget v * 100\<bar> / 2 ^ 51" if "0 < v_budget v"
    using d that by blast
  show "100 \<le> v_percentage v" if "0 < v_budget v \<and> v_budget v \<le> v_spent v"
    using d that by blast
  show "v_remaining v = 0" if "0 < v_budget v \<and> v_budget v \<le> v_spent v"
    using d that by blast
  show "v_status v = ''exceeded''" if "0 < v_budget v \<and> v_budget v \<le> v_spent v"
    using d that by blast
  show "v_percentage v = 0" if "v_budget v \<le> 0"
    using d that by blast
  show "v_status v = ''safe''" if "v_budget v \<le> 0"
    using d that by blast
qed

theorem budget_view_percentage_witness:
  "getCategoryLimits jul15 loja_food user_a =
     Http 200 True (Some
       [\<lparr>v_id = ''64b000000000000000000002'', v_name = ''Food'', v_icon = Some ''utensils'',
         v_budget = 500, v_spent = 550, v_remaining = 0, v_percentage = 110,
         v_transactions = 3, v_status = ''exceeded''\<rparr>])
   \<and> upsertCategoryLimit jul15 ''64b000000000000000000009'' loja_food user_a body_food_500
       = (Inr (Http 201 True (Some
           \<lparr>v_id = ''64b000000000000000000002'', v_name = ''Food'', v_icon = Some ''utensils'',
            v_budget = 500, v_spent = 550, v_remaining = 0, v_percentage = 110,
            v_transactions = 3, v_status = ''exceeded''\<rparr>)), loja_food)
   \<and> (0 :: rat) < 500 \<and> (500 :: rat) \<le> 550
   \<and> (110 :: int) = \<lfloor>fl (fl (550 / 500) * 100) + 1 / 2\<rfloor>
   \<and> \<bar>of_int (110 :: int) - (550 :: rat) / 500 * 100\<bar> \<le> 1 / 2 + \<bar>550 / 500 * 100\<bar> / 2 ^ 51"
proof -
  let ?v = "\<lparr>v_id = ''64b000000000000000000002'', v_name = ''Food'', v_icon = Some ''utensils'',
         v_budget = 500, v_spent = 550, v_remaining = 0, v_percentage = 110,
         v_transactions = 3, v_status = ''exceeded''\<rparr>"
  note u = upsertCategoryLimit_loja_food [of "''64b000000000000000000009''"]
  note g = getCategoryLimits_loja_food
  note t = budget_view_percentage [of jul15 loja_food user_a "''64b000000000000000000009''"
      body_food_500]
  from t have "\<forall>vs v s'.
         (getCategoryLimits jul15 loja_food user_a = Http 200 True (Some vs) \<and> v \<in> set vs)
         \<or> upsertCategoryLimit jul15 ''64b000000000000000000009'' loja_food user_a body_food_500
             = (Inr (Http 201 True (Some v)), s') \<longrightarrow>
         v_percentage v
             = (if 0 < v_budget v then \<lfloor>fl (fl (v_spent v / v_budget v) * 100) + 1 / 2\<rfloor>
                else 0)
         \<and> (0 < v_budget v \<longrightarrow>
               \<bar>of_int (v_percentage v) - v_spent v / v_budget v * 100\<bar>
                 \<le> 1 / 2 + \<bar>v_spent v / v_budget v * 100\<bar> / 2 ^ 51)"
    by blast
  from this [rule_format, of "[?v]" ?v loja_food] u
  have "v_percentage ?v
             = (if 0 < v_budget ?v then \<lfloor>fl (fl (v_spent ?v / v_budget ?v) * 100) + 1 / 2\<rfloor>
                else 0)
         \<and> (0 < v_budget ?v \<longrightarrow>
               \<bar>of_int (v_percentage ?v) - v_spent ?v / v_budget ?v * 100\<bar>
                 \<le> 1 / 2 + \<bar>v_spent ?v / v_budget ?v * 100\<bar> / 2 ^ 51)"
    by blast
  then have "(110 :: int) = \<lfloor>fl (fl (550 / 500) * 100) + 1 / 2\<rfloor>
      \<and> \<bar>of_int (110 :: int) - (550 :: rat) / 500 * 100\<bar> \<le> 1 / 2 + \<bar>550 / 500 * 100\<bar> / 2 ^ 51"
    by simp
  with u g show ?thesis by simp
qed

section \<open>Creating, reactivating and deleting a category limit\<close>

lemma update_first_mem: "find P xs = Some l \<Longrightarrow> f l \<in> set (update_first P f xs)"
  by (induction xs) (auto split: if_splits)

lemma findOneAndUpdate_upsert_mem:
  "fst (findOneAndUpdate_upsert now new_id s userId c x)
     \<in> set (limits (snd (findOneAndUpdate_upsert now new_id s userId c x)))"
  by (auto simp: findOneAndUpdate_upsert_def update_first_mem split: option.splits)

lemma findOneAndUpdate_upsert_cases:
  "(find (upsert_filter userId c) (limits s) = None
      \<longrightarrow> findOneAndUpdate_upsert now new_id s userId c x
            = (upsert_insert now new_id userId c x,
               s\<lparr>limits := limits s @ [upsert_insert now new_id userId c x]\<rparr>))
   \<and> (\<forall>l. find (upsert_filter userId c) (limits s) = Some l
      \<longrightarrow> findOneAndUpdate_upsert now new_id s userId c x
            = (upsert_update c x l,
               s\<lparr>limits := update_first (upsert_filter userId c) (upsert_update c x) (limits s)\<rparr>))"
  by (simp add: findOneAndUpdate_upsert_def)

lemma upsertCategoryLimit_ok:
  assumes "lb_categoriaId body = Some c" "lb_valor body = Some x" "0 < x" "castable_objectId c"
  shows "upsertCategoryLimit now new_id s userId body =
     (Inr (Http 201 True (Some
        (limit_view now (snd (findOneAndUpdate_upsert now new_id s userId c x)) userId c
           (fst (findOneAndUpdate_upsert now new_id s userId c x))))),
      snd (findOneAndUpdate_upsert now new_id s userId c x))"
proof -
  from assms(4) have "length c = 24" "c \<noteq> []" by (auto simp: castable_objectId_def)
  with assms show ?thesis
    by (simp add: upsertCategoryLimit_def split: prod.splits)
qed

lemma limit_view_name:
  "v_id (limit_view now s userId c l) = limit_id l"
  "v_budget (limit_view now s userId c l) = get_valorLimite l"
  "v_name (limit_view now s userId c l) =
     (case find (\<lambda>k. cat_id k = c) (categories s) of
        Some k \<Rightarrow> or_else (cat_nome k) (or_else (limit_nome l) ''Categoria'')
      | None \<Rightarrow> or_else (limit_nome l) ''Categoria'')"
  "v_icon (limit_view now s userId c l) =
     (case find (\<lambda>k. cat_id k = c) (categories s) of
        Some k \<Rightarrow> or_null (cat_icone k) | None \<Rightarrow> None)"
  by (simp_all add: limit_view_def Let_def)

lemma length_update_first [simp]: "length (update_first P f xs) = length xs"
  by (induction xs) auto

lemma castable_cat_trip: "castable_objectId cat_trip"
  by (simp add: castable_objectId_def cat_trip_def is_hex_char_def)

lemma users_differ: "user_b \<noteq> user_a"
  by (simp add: user_a_def user_b_def)

lemma upsert_loja_alheia:
  "upsertCategoryLimit jul15 ''64b000000000000000000009'' loja_alheia user_a body_trip_300 =
     (Inr (Http 201 True (Some
        \<lparr>v_id = ''64b000000000000000000009'', v_name = ''Viagem'', v_icon = Some ''plane'',
         v_budget = 300, v_spent = 0, v_remaining = 300, v_percentage = 0,
         v_transactions = 0, v_status = ''safe''\<rparr>)),
      loja_alheia\<lparr>limits :=
        [upsert_insert jul15 ''64b000000000000000000009'' user_a cat_trip 300]\<rparr>)"
proof -
  have r: "round2 300 = 300" by simp
  have f: "findOneAndUpdate_upsert jul15 ''64b000000000000000000009'' loja_alheia user_a cat_trip 300
      = (upsert_insert jul15 ''64b000000000000000000009'' user_a cat_trip 300,
         loja_alheia\<lparr>limits :=
           [upsert_insert jul15 ''64b000000000000000000009'' user_a cat_trip 300]\<rparr>)"
    by (simp add: findOneAndUpdate_upsert_def loja_alheia_def)
  have v: "limit_view jul15
        (loja_alheia\<lparr>limits :=
           [upsert_insert jul15 ''64b000000000000000000009'' user_a cat_trip 300]\<rparr>)
        user_a cat_trip (upsert_insert jul15 ''64b000000000000000000009'' user_a cat_trip 300)
      = \<lparr>v_id = ''64b000000000000000000009'', v_name = ''Viagem'', v_icon = Some ''plane'',
         v_budget = 300, v_spent = 0, v_remaining = 300, v_percentage = 0,
         v_transactions = 0, v_status = ''safe''\<rparr>"
    by (simp add: limit_view_def Let_def loja_alheia_def categoria_alheia_def upsert_insert_def
        group_by_categoria_def get_valorLimite_def r or_else_def or_null_def truthy_def
        budget_status_def)
  show ?thesis
    using upsertCategoryLimit_ok [of body_trip_300 cat_trip 300 jul15
        "''64b000000000000000000009''" loja_alheia user_a]
    by (simp add: body_trip_300_def castable_cat_trip f v)
qed

text \<open>
  What \<open>upsertCategoryLimit\<close> does for every well-formed identifier and every amount
  greater than 0, whether a category with that identifier exists or not: it answers 201
  and the store then holds an active limit of kind \<open>categoria\<close> of the caller that
  references the identifier, with the rounded amount as its ceiling; a new limit when
  the caller had none for that identifier, the first existing one updated otherwise.
  When no category has the identifier, the name in the answer is the fallback (the name
  of the limit, or \<open>Categoria\<close>) and the icon is null.
\<close>

lemma upsertCategoryLimit_unchecked_category:
  assumes "lb_categoriaId body = Some c" "lb_valor body = Some x" "0 < x" "castable_objectId c"
  shows "\<exists>v l s'.
      upsertCategoryLimit now new_id s userId body = (Inr (Http 201 True (Some v)), s')
      \<and> l \<in> set (limits s') \<and> limit_user l = userId \<and> limit_tipo l = Categoria
      \<and> limit_categoria l = Some c \<and> limit_categoriaId l = Some c \<and> limit_ativo l
      \<and> valorLimite l = round2 x \<and> v_id v = limit_id l
      \<and> categories s' = categories s \<and> transactions s' = transactions s
      \<and> (find (upsert_filter userId c) (limits s) = None \<longrightarrow>
            limits s' = limits s @ [l] \<and> limit_id l = new_id \<and> limit_nome l = None)
      \<and> (find (upsert_filter userId c) (limits s) \<noteq> None \<longrightarrow>
            length (limits s') = length (limits s))
      \<and> (find (\<lambda>k. cat_id k = c) (categories s) = None \<longrightarrow>
            v_name v = or_else (limit_nome l) ''Categoria'' \<and> v_icon v = None)"
proof -
  let ?r = "findOneAndUpdate_upsert now new_id s userId c x"
  let ?v = "limit_view now (snd ?r) userId c (fst ?r)"
  have ok: "upsertCategoryLimit now new_id s userId body = (Inr (Http 201 True (Some ?v)), snd ?r)"
    using assms by (rule upsertCategoryLimit_ok)
  have ins: "find (upsert_filter userId c) (limits s) = None \<longrightarrow>
      limits (snd ?r) = limits s @ [fst ?r] \<and> limit_id (fst ?r) = new_id
      \<and> limit_nome (fst ?r) = None"
    by (simp add: findOneAndUpdate_upsert_def upsert_insert_def)
  have upd: "find (upsert_filter userId c) (limits s) \<noteq> None \<longrightarrow>
      length (limits (snd ?r)) = length (limits s)"
    by (auto simp: findOneAndUpdate_upsert_def)
  have nm: "find (\<lambda>k. cat_id k = c) (categories s) = None \<longrightarrow>
      v_name ?v = or_else (limit_nome (fst ?r)) ''Categoria'' \<and> v_icon ?v = None"
    by (simp add: limit_view_name findOneAndUpdate_upsert_facts)
  show ?thesis
    apply (rule exI [of _ ?v], rule exI [of _ "fst ?r"], rule exI [of _ "snd ?r"])
    using ok ins upd nm
    by (simp add: findOneAndUpdate_upsert_mem findOneAndUpdate_upsert_facts limit_view_name)
qed

text \<open>
  C10 does not hold of \<open>upsertCategoryLimit\<close> for a category that another user owns.
  The handler reads the category by its identifier alone, with no check of its owner,
  so a caller who sends the identifier of another user's category gets a limit on it
  and, in the answer, that category's own name and icon, where the claim has a fallback
  display name. The sibling handler \<open>getCategoryById\<close> answers 403 when the category
  found by identifier belongs to another user; the same check is missing here, as it is
  in \<open>deleteCategoryLimit\<close>.
\<close>

theorem upsertCategoryLimit_other_owner:
  "fst (upsertCategoryLimit jul15 ''64b000000000000000000009'' loja_alheia user_a body_trip_300)
     = Inr (Http 201 True (Some
        \<lparr>v_id = ''64b000000000000000000009'', v_name = ''Viagem'', v_icon = Some ''plane'',
         v_budget = 300, v_spent = 0, v_remaining = 300, v_percentage = 0,
         v_transactions = 0, v_status = ''safe''\<rparr>))
   \<and> categories loja_alheia = [categoria_alheia]
   \<and> cat_id categoria_alheia = cat_trip \<and> lb_categoriaId body_trip_300 = Some cat_trip
   \<and> cat_user categoria_alheia = user_b \<and> user_b \<noteq> user_a
   \<and> cat_nome categoria_alheia = Some ''Viagem'' \<and> ''Viagem'' \<noteq> ''Categoria''
   \<and> limits (snd (upsertCategoryLimit jul15 ''64b000000000000000000009'' loja_alheia user_a
                     body_trip_300))
       = [upsert_insert jul15 ''64b000000000000000000009'' user_a cat_trip 300]
   \<and> limit_user (upsert_insert jul15 ''64b000000000000000000009'' user_a cat_trip 300) = user_a
   \<and> limit_categoria (upsert_insert jul15 ''64b000000000000000000009'' user_a cat_trip 300)
       = Some cat_trip"
  by (simp add: upsert_loja_alheia users_differ)
     (simp add: loja_alheia_def categoria_alheia_def body_trip_300_def upsert_insert_def)

text \<open>
  C9 does not hold of \<open>deleteCategoryLimit\<close>: two stores that hold the same records of
  the caller and differ only in a category of another user with the same name give
  different results. Without the other user's category the caller's limit is deleted;
  with it, the name resolves to the other user's category and the caller's limit stays.
\<close>

theorem deleteCategoryLimit_cross_user:
  "filter (\<lambda>c. cat_user c = user_a) (categories loja_ab)
     = filter (\<lambda>c. cat_user c = user_a) (categories loja_a)
   \<and> filter (\<lambda>c. cat_user c \<noteq> user_a) (categories loja_ab) = [categoria_food_b]
   \<and> limits loja_ab = limits loja_a \<and> transactions loja_ab = transactions loja_a
   \<and> deleteCategoryLimit loja_a user_a ''Food'' = (Http 200 True None, loja_a\<lparr>limits := []\<rparr>)
   \<and> deleteCategoryLimit loja_ab user_a ''Food'' = (Http 200 True None, loja_ab)
   \<and> limits (snd (deleteCategoryLimit loja_a user_a ''Food''))
       \<noteq> limits (snd (deleteCategoryLimit loja_ab user_a ''Food''))"
proof -
  have c: "filter (\<lambda>c. cat_user c = user_a) (categories loja_ab)
      = filter (\<lambda>c. cat_user c = user_a) (categories loja_a)"
    "filter (\<lambda>c. cat_user c \<noteq> user_a) (categories loja_ab) = [categoria_food_b]"
    by (simp_all add: loja_a_def loja_ab_def categoria_food_def categoria_food_b_def
        user_a_def user_b_def)
  have l: "limits loja_ab = limits loja_a" "transactions loja_ab = transactions loja_a"
    by (simp_all add: loja_a_def loja_ab_def)
  have a: "deleteCategoryLimit loja_a user_a ''Food'' = (Http 200 True None, loja_a\<lparr>limits := []\<rparr>)"
    by (simp add: deleteCategoryLimit_def loja_a_def categoria_food_def limite_food_def
        limite_categoria_def)
  have b: "deleteCategoryLimit loja_ab user_a ''Food'' = (Http 200 True None, loja_ab)"
    by (simp add: deleteCategoryLimit_def loja_ab_def categoria_food_def categoria_food_b_def
        limite_food_def limite_categoria_def cat_food_def)
  have "limits loja_ab \<noteq> []" by (simp add: loja_ab_def)
  with c l a b show ?thesis by simp
qed

section \<open>The cash-flow report\<close>











lemma acumular_length [simp]: "length (acumular a fs) = length fs"
  by (induction fs arbitrary: a) auto













end
